(* ===== verification/Prelude.thy ===== *)
theory Prelude
  imports Main "HOL-Library.Word" "HOL-Library.AList" "HOL-Library.Multiset"
    "HOL-Library.Char_ord" "HOL-Library.List_Lexorder"
begin

text \<open>
  The vocabulary the components share: the machine integers of the Rust sources and their
  saturating operations, the error monad behind the question-mark operator, hash maps as
  association lists, the \<open>HashMap\<langle>K, HashSet\<langle>V\<rangle>\<rangle>\<close> multi-index that both the engine's
  \<open>tag_index\<close> and the sharded engine's \<open>tag_directory\<close> are instances of, decimal printing
  and parsing, and the two interfaces (a multi-index, a machine with an invariant) whose
  client lemmas are proved once here.
\<close>

section \<open>Machine integers\<close>

text \<open>
  \<open>u8\<close>, \<open>u16\<close>, \<open>u32\<close> and \<open>u64\<close> are words of their width. A \<open>usize\<close> is a natural number with
  the bound of a 64-bit target written out where an operation can reach it: most of the
  values of that type are lengths of buffers.
\<close>

type_synonym u8 = "8 word"
type_synonym u16 = "16 word"
type_synonym u32 = "32 word"
type_synonym u64 = "64 word"
type_synonym u128 = "128 word"
type_synonym usize = nat
type_synonym bytes = "u8 list"

named_theorems u64_unat \<open>rules that read a saturating u64 operation as natural numbers\<close>

definition usize_max :: usize where
  "usize_max = 2 ^ 64 - 1"

text \<open>\<open>usize::saturating_add\<close>; \<open>usize::saturating_sub\<close> is subtraction on \<^typ>\<open>nat\<close>.\<close>

definition usize_saturating_add :: "usize \<Rightarrow> usize \<Rightarrow> usize" where
  "usize_saturating_add a b = min (a + b) usize_max"

text \<open>\<open>u64::saturating_add\<close> and \<open>u64::saturating_sub\<close>.\<close>

definition u64_saturating_add :: "u64 \<Rightarrow> u64 \<Rightarrow> u64" where
  "u64_saturating_add a b = (if unat a + unat b < 2 ^ 64 then a + b else - 1)"

definition u64_saturating_sub :: "u64 \<Rightarrow> u64 \<Rightarrow> u64" where
  "u64_saturating_sub a b = (if b \<le> a then a - b else 0)"

section \<open>Results\<close>

text \<open>
  A Rust \<open>Result<T, E>\<close> is a sum \<open>'e + 't\<close> with the error on the left; \<open>rbind\<close> is the
  question-mark operator: the first error is the result.
\<close>

definition rbind :: "'e + 'a \<Rightarrow> ('a \<Rightarrow> 'e + 'b) \<Rightarrow> 'e + 'b" where
  "rbind r f = (case r of Inl e \<Rightarrow> Inl e | Inr a \<Rightarrow> f a)"

section \<open>Hash maps and the multi-index\<close>

text \<open>
  A \<open>HashMap\<close> is an association list with distinct keys, a \<open>HashSet\<close> a list without
  duplicates. The order of such a list is not the order in which Rust iterates: an operation
  that iterates takes the visiting order as an argument.
\<close>

definition mi_mem :: "('k \<times> 'v list) list \<Rightarrow> 'k \<Rightarrow> 'v \<Rightarrow> bool" where
  "mi_mem m k v \<longleftrightarrow> (case map_of m k of None \<Rightarrow> False | Some vs \<Rightarrow> v \<in> set vs)"

definition mi_wf :: "('k \<times> 'v list) list \<Rightarrow> bool" where
  "mi_wf m \<longleftrightarrow> distinct (map fst m) \<and> (\<forall>(k, vs) \<in> set m. vs \<noteq> [] \<and> distinct vs)"

text \<open>\<open>m.entry(k).or_default().insert(v)\<close>\<close>

definition mi_insert :: "'k \<Rightarrow> 'v \<Rightarrow> ('k \<times> 'v list) list \<Rightarrow> ('k \<times> 'v list) list" where
  "mi_insert k v m =
     AList.update k (List.insert v (case map_of m k of None \<Rightarrow> [] | Some vs \<Rightarrow> vs)) m"

text \<open>\<open>if let Some(s) = m.get_mut(k) { s.remove(v); if s.is_empty() { m.remove(k); } }\<close>\<close>

definition mi_remove :: "'k \<Rightarrow> 'v \<Rightarrow> ('k \<times> 'v list) list \<Rightarrow> ('k \<times> 'v list) list" where
  "mi_remove k v m =
     (case map_of m k of
        None \<Rightarrow> m
      | Some vs \<Rightarrow>
          (let vs' = removeAll v vs
           in if vs' = [] then AList.delete k m else AList.update k vs' m))"

section \<open>Iterators\<close>

text \<open>\<open>Iterator::min_by_key\<close>: the first of the minimal elements, none on an empty iterator.\<close>

fun min_by_key :: "('a \<Rightarrow> 'b::linorder) \<Rightarrow> 'a list \<Rightarrow> 'a option" where
  "min_by_key f [] = None"
| "min_by_key f (x # xs) =
     (case min_by_key f xs of
        None \<Rightarrow> Some x
      | Some y \<Rightarrow> Some (if f x \<le> f y then x else y))"

section \<open>Decimal numerals\<close>

text \<open>\<open>u64\<close>'s \<open>Display\<close>, and \<open>str::parse\<close> for an unsigned integer bounded by \<open>bound\<close>: an optional
  plus sign, at least one digit, no overflow.\<close>

definition digit_char :: "nat \<Rightarrow> char" where
  "digit_char d = char_of (48 + d)"

fun show_nat :: "nat \<Rightarrow> string" where
  "show_nat n = (if n < 10 then [digit_char n] else show_nat (n div 10) @ [digit_char (n mod 10)])"

declare show_nat.simps [simp del]

definition is_digit :: "char \<Rightarrow> bool" where
  "is_digit c \<longleftrightarrow> 48 \<le> (of_char c :: nat) \<and> (of_char c :: nat) \<le> 57"

definition digits_value :: "string \<Rightarrow> nat" where
  "digits_value s = foldl (\<lambda>acc c. 10 * acc + ((of_char c :: nat) - 48)) 0 s"

definition parse_uint :: "nat \<Rightarrow> string \<Rightarrow> nat option" where
  "parse_uint bound s =
     (let ds = (case s of c # cs \<Rightarrow> if c = CHR ''+'' then cs else s | [] \<Rightarrow> [])
      in if ds \<noteq> [] \<and> list_all is_digit ds \<and> digits_value ds \<le> bound
         then Some (digits_value ds) else None)"

section \<open>Lemmas on machine integers\<close>

lemma usize_saturating_add_le_iff:
  "m < usize_max \<Longrightarrow> usize_saturating_add a b \<le> m \<longleftrightarrow> a + b \<le> m"
  by (auto simp: usize_saturating_add_def)

lemma usize_saturating_add_eq: "a + b \<le> usize_max \<Longrightarrow> usize_saturating_add a b = a + b"
  by (simp add: usize_saturating_add_def)

lemma unat_max_u64: "unat (- 1 :: u64) = 2 ^ 64 - 1"
  by (simp add: unsigned_minus_1_eq_mask mask_eq_exp_minus_1)

lemma unat_u64_less: "unat (a :: u64) < 2 ^ 64"
  using unsigned_less [of a, where ?'a = nat] by simp

lemma unat_u64_le: "unat (a :: u64) \<le> 2 ^ 64 - 1"
  using unat_u64_less [of a] by simp

lemma unat_u64_saturating_add [u64_unat]:
  "unat (u64_saturating_add a b) = min (unat a + unat b) (2 ^ 64 - 1)"
proof (cases "unat a + unat b < 2 ^ 64")
  case True
  then have "unat (a + b) = unat a + unat b"
    by (simp add: unat_word_ariths)
  with True show ?thesis
    by (simp add: u64_saturating_add_def)
next
  case False
  then show ?thesis
    by (simp add: u64_saturating_add_def unat_max_u64)
qed

lemma unat_u64_saturating_sub [u64_unat]:
  "unat (u64_saturating_sub a b) = unat a - unat b"
  by (auto simp: u64_saturating_sub_def word_le_nat_alt unat_sub)

lemma u64_saturating_add_ge: "a \<le> u64_saturating_add a b"
  using unat_u64_le [of a] by (simp add: word_le_nat_alt u64_unat)

section \<open>Lemmas on results\<close>

lemma rbind_simps [simp]:
  "rbind (Inl e) f = Inl e"
  "rbind (Inr a) f = f a"
  by (simp_all add: rbind_def)

lemma rbind_eq_Inr_iff: "rbind r f = Inr b \<longleftrightarrow> (\<exists>a. r = Inr a \<and> f a = Inr b)"
  by (cases r) simp_all

lemma rbind_eq_Inl_iff:
  "rbind r f = Inl e \<longleftrightarrow> r = Inl e \<or> (\<exists>a. r = Inr a \<and> f a = Inl e)"
  by (cases r) simp_all

lemma rbind_assoc: "rbind (rbind r f) g = rbind r (\<lambda>a. rbind (f a) g)"
  by (cases r) simp_all

section \<open>Lemmas on association lists\<close>

named_theorems alist \<open>lookups and key sets of updated association lists\<close>

lemmas [alist] = AList.update_conv' AList.delete_conv' AList.distinct_update AList.distinct_delete

lemma map_of_update_apply [alist]:
  "map_of (AList.update k v m) k' = (if k' = k then Some v else map_of m k')"
  by (simp add: AList.update_conv')

lemma map_of_delete_apply [alist]:
  "map_of (AList.delete k m) k' = (if k' = k then None else map_of m k')"
  by (simp add: AList.delete_conv')

lemma set_delete_subset: "set (AList.delete k m) \<subseteq> set m"
  by (auto simp: AList.delete_eq)

lemma set_delete_iff: "(k', v) \<in> set (AList.delete k m) \<longleftrightarrow> (k', v) \<in> set m \<and> k' \<noteq> k"
  by (auto simp: AList.delete_eq)

lemma update_fresh: "map_of m k = None \<Longrightarrow> AList.update k v m = m @ [(k, v)]"
  by (induction m) (auto split: if_splits)

lemma sum_list_delete:
  fixes f :: "'k \<times> 'v \<Rightarrow> 'a::comm_monoid_add"
  assumes "distinct (map fst m)" "map_of m k = Some v"
  shows "sum_list (map f m) = f (k, v) + sum_list (map f (AList.delete k m))"
  using assms
proof (induction m)
  case (Cons p m)
  obtain k' v' where p: "p = (k', v')"
    by fastforce
  show ?case
  proof (cases "k' = k")
    case True
    then have "k \<notin> fst ` set m"
      using Cons.prems p by force
    then show ?thesis
      using True Cons.prems p by simp
  next
    case False
    then show ?thesis
      using Cons p by (simp add: ac_simps)
  qed
qed simp

lemma sum_list_update_fresh:
  fixes f :: "'k \<times> 'v \<Rightarrow> 'a::comm_monoid_add"
  shows "map_of m k = None \<Longrightarrow> sum_list (map f (AList.update k v m)) = sum_list (map f m) + f (k, v)"
  by (simp add: update_fresh)

lemma sum_list_update_same:
  fixes f :: "'k \<times> 'v \<Rightarrow> 'a::comm_monoid_add"
  assumes "map_of m k = Some v" "f (k, w) = f (k, v)"
  shows "sum_list (map f (AList.update k w m)) = sum_list (map f m)"
  using assms by (induction m) (auto split: if_splits)

lemma length_delete:
  "distinct (map fst m) \<Longrightarrow> map_of m k = Some v \<Longrightarrow> length m = Suc (length (AList.delete k m))"
  using sum_list_delete [of m k v "\<lambda>_. 1 :: nat"] by (simp add: sum_list_triv)

lemma length_delete_less: "map_of m k = Some v \<Longrightarrow> length (AList.delete k m) < length m"
proof (induction m)
  case (Cons p m)
  then show ?case
    using AList.length_delete_le [of k m] by (cases p) (auto split: if_splits)
qed simp

lemma length_update_same: "map_of m k = Some v \<Longrightarrow> length (AList.update k w m) = length m"
  by (induction m) (auto split: if_splits)

section \<open>Lemmas on the multi-index\<close>

lemma mi_mem_Nil [simp]: "\<not> mi_mem [] k v"
  by (simp add: mi_mem_def)

lemma mi_wf_Nil [simp]: "mi_wf []"
  by (simp add: mi_wf_def)

lemma mi_wf_lookup: "mi_wf m \<Longrightarrow> map_of m k = Some vs \<Longrightarrow> vs \<noteq> [] \<and> distinct vs"
  by (auto simp: mi_wf_def dest: map_of_SomeD)

lemma mi_wf_update:
  "mi_wf m \<Longrightarrow> vs \<noteq> [] \<Longrightarrow> distinct vs \<Longrightarrow> mi_wf (AList.update k vs m)"
proof -
  assume wf: "mi_wf m" and vs: "vs \<noteq> []" "distinct vs"
  have d: "distinct (map fst (AList.update k vs m))"
    using wf by (simp add: mi_wf_def AList.distinct_update)
  have "us \<noteq> [] \<and> distinct us" if "(k', us) \<in> set (AList.update k vs m)" for k' us
  proof -
    have "map_of (AList.update k vs m) k' = Some us"
      using d that by simp
    then show ?thesis
      using vs mi_wf_lookup [OF wf] by (auto simp: alist split: if_splits)
  qed
  with d show ?thesis
    by (auto simp: mi_wf_def)
qed

lemma mi_wf_delete: "mi_wf m \<Longrightarrow> mi_wf (AList.delete k m)"
  using set_delete_subset [of k m] by (auto simp: mi_wf_def AList.distinct_delete)

lemma mi_mem_insert:
  "mi_mem (mi_insert k v m) k' v' \<longleftrightarrow> (k' = k \<and> v' = v) \<or> mi_mem m k' v'"
  by (auto simp: mi_mem_def mi_insert_def alist split: option.splits)

lemma mi_wf_insert: "mi_wf m \<Longrightarrow> mi_wf (mi_insert k v m)"
  unfolding mi_insert_def
  by (rule mi_wf_update) (auto simp: List.insert_def dest: mi_wf_lookup split: option.splits)

lemma mi_mem_remove:
  "mi_mem (mi_remove k v m) k' v' \<longleftrightarrow> mi_mem m k' v' \<and> \<not> (k' = k \<and> v' = v)"
  by (auto simp: mi_mem_def mi_remove_def Let_def alist removeAll_filter_not_eq filter_empty_conv
      split: option.splits if_splits)

lemma mi_wf_remove: "mi_wf m \<Longrightarrow> mi_wf (mi_remove k v m)"
  by (auto simp: mi_remove_def Let_def mi_wf_delete distinct_removeAll
      intro!: mi_wf_update dest: mi_wf_lookup split: option.split)

lemma mi_lookup_iff: "mi_wf m \<Longrightarrow> map_of m k = None \<longleftrightarrow> (\<forall>v. \<not> mi_mem m k v)"
  by (auto simp: mi_mem_def dest: mi_wf_lookup split: option.splits)

lemma mi_mem_delete: "mi_mem (AList.delete k m) k' v \<longleftrightarrow> mi_mem m k' v \<and> k' \<noteq> k"
  by (auto simp: mi_mem_def alist split: option.splits)

text \<open>The interface of a multi-index, and what its clients use of it: adding or removing one
  value under a list of keys, as the \<open>for\<close> loops over tags do.\<close>

locale multi_index =
  fixes ins :: "'k \<Rightarrow> 'v \<Rightarrow> 'm \<Rightarrow> 'm"
    and rem :: "'k \<Rightarrow> 'v \<Rightarrow> 'm \<Rightarrow> 'm"
    and mem :: "'m \<Rightarrow> 'k \<Rightarrow> 'v \<Rightarrow> bool"
    and wf :: "'m \<Rightarrow> bool"
  assumes mem_ins: "mem (ins k v m) k' v' \<longleftrightarrow> (k' = k \<and> v' = v) \<or> mem m k' v'"
    and mem_rem: "mem (rem k v m) k' v' \<longleftrightarrow> mem m k' v' \<and> \<not> (k' = k \<and> v' = v)"
    and wf_ins: "wf m \<Longrightarrow> wf (ins k v m)"
    and wf_rem: "wf m \<Longrightarrow> wf (rem k v m)"
begin

lemma mem_fold_ins:
  "mem (fold (\<lambda>k. ins k v) ks m) k' v' \<longleftrightarrow> (k' \<in> set ks \<and> v' = v) \<or> mem m k' v'"
  by (induction ks arbitrary: m) (auto simp: mem_ins)

lemma mem_fold_rem:
  "mem (fold (\<lambda>k. rem k v) ks m) k' v' \<longleftrightarrow> mem m k' v' \<and> \<not> (k' \<in> set ks \<and> v' = v)"
  by (induction ks arbitrary: m) (auto simp: mem_rem)

lemma wf_fold_ins: "wf m \<Longrightarrow> wf (fold (\<lambda>k. ins k v) ks m)"
  by (induction ks arbitrary: m) (auto simp: wf_ins)

lemma wf_fold_rem: "wf m \<Longrightarrow> wf (fold (\<lambda>k. rem k v) ks m)"
  by (induction ks arbitrary: m) (auto simp: wf_rem)

end

interpretation mi: multi_index mi_insert mi_remove mi_mem mi_wf
  by unfold_locales (simp_all add: mi_mem_insert mi_mem_remove mi_wf_insert mi_wf_remove)

section \<open>Machines with an invariant\<close>

text \<open>A component whose operations each keep an invariant keeps it over every sequence of
  operations, and everything the operations leave alone stays as it was.\<close>

locale invariant_machine =
  fixes inv :: "'s \<Rightarrow> bool" and valid :: "'op \<Rightarrow> bool" and step :: "'op \<Rightarrow> 's \<Rightarrow> 's"
    and fixed :: "'s \<Rightarrow> 'c"
  assumes inv_step: "inv s \<Longrightarrow> valid a \<Longrightarrow> inv (step a s)"
    and fixed_step: "fixed (step a s) = fixed s"
begin

lemma inv_run: "inv s \<Longrightarrow> list_all valid as \<Longrightarrow> inv (fold step as s)"
  by (induction as arbitrary: s) (auto simp: inv_step)

lemma fixed_run: "fixed (fold step as s) = fixed s"
  by (induction as arbitrary: s) (auto simp: fixed_step)

end

section \<open>Simulations\<close>

text \<open>The calls of a run with their results, and the check of every result against an abstract
  state that the calls drive.\<close>

fun trace :: "('op \<Rightarrow> 's \<Rightarrow> 'r \<times> 's) \<Rightarrow> 'op list \<Rightarrow> 's \<Rightarrow> ('op \<times> 'r) list \<times> 's" where
  "trace exec [] s = ([], s)"
| "trace exec (op # ops) s =
     (let (r, s1) = exec op s; (t, s2) = trace exec ops s1 in ((op, r) # t, s2))"

fun trace_ok ::
  "('op \<Rightarrow> 'r \<Rightarrow> 'a \<Rightarrow> bool) \<Rightarrow> ('op \<Rightarrow> 'r \<Rightarrow> 'a \<Rightarrow> 'a) \<Rightarrow> ('op \<times> 'r) list \<Rightarrow> 'a \<Rightarrow> bool" where
  "trace_ok answer next [] a = True"
| "trace_ok answer next ((op, r) # t) a = (answer op r a \<and> trace_ok answer next t (next op r a))"

locale simulation =
  fixes exec :: "'op \<Rightarrow> 's \<Rightarrow> 'r \<times> 's" and valid :: "'op \<Rightarrow> bool"
    and answer :: "'op \<Rightarrow> 'r \<Rightarrow> 'a \<Rightarrow> bool" and next_state :: "'op \<Rightarrow> 'r \<Rightarrow> 'a \<Rightarrow> 'a"
    and rel :: "'s \<Rightarrow> 'a \<Rightarrow> bool"
  assumes sim_step: "rel s a \<Longrightarrow> valid op \<Longrightarrow> rel (snd (exec op s)) (next_state op (fst (exec op s)) a)"
    and sim_answer: "rel s a \<Longrightarrow> valid op \<Longrightarrow> answer op (fst (exec op s)) a"
begin

lemma sim_trace_ok:
  "rel s a \<Longrightarrow> list_all valid ops \<Longrightarrow> trace_ok answer next_state (fst (trace exec ops s)) a"
proof (induction ops arbitrary: s a)
  case (Cons op ops)
  then show ?case
    using Cons.IH [OF sim_step [OF Cons.prems(1), of op]] sim_answer [OF Cons.prems(1), of op]
    by (simp add: case_prod_beta Let_def)
qed simp

lemma sim_trace:
  "rel s a \<Longrightarrow> list_all valid ops \<Longrightarrow>
   rel (snd (trace exec ops s)) (fold (\<lambda>(op, r). next_state op r) (fst (trace exec ops s)) a)"
proof (induction ops arbitrary: s a)
  case (Cons op ops)
  then show ?case
    using Cons.IH [OF sim_step [OF Cons.prems(1), of op]] by (simp add: case_prod_beta Let_def)
qed simp

end

section \<open>Lemmas on iterators\<close>

lemma min_by_key_None_iff: "min_by_key f xs = None \<longleftrightarrow> xs = []"
  by (cases xs) (auto split: option.splits)

lemma min_by_key_SomeD:
  "min_by_key f xs = Some y \<Longrightarrow> y \<in> set xs \<and> (\<forall>x \<in> set xs. f y \<le> f x)"
proof (induction xs arbitrary: y)
  case (Cons x xs)
  show ?case
  proof (cases "min_by_key f xs")
    case None
    then show ?thesis
      using Cons.prems by (simp add: min_by_key_None_iff)
  next
    case (Some z)
    then have "z \<in> set xs" "\<forall>x \<in> set xs. f z \<le> f x"
      using Cons.IH by auto
    then show ?thesis
      using Cons.prems Some by (auto split: if_splits)
  qed
qed simp

section \<open>Lemmas on decimal numerals\<close>

lemma of_char_digit_char: "d < 10 \<Longrightarrow> of_char (digit_char d) = 48 + d"
  by (simp add: digit_char_def)

lemma digits_value_snoc:
  "digits_value (s @ [c]) = 10 * digits_value s + ((of_char c :: nat) - 48)"
  by (simp add: digits_value_def)

lemma digits_value_show_nat: "digits_value (show_nat n) = n"
proof (induction n rule: show_nat.induct)
  case (1 n)
  show ?case
  proof (cases "n < 10")
    case True
    then show ?thesis
      by (subst show_nat.simps) (simp add: digits_value_def of_char_digit_char)
  next
    case False
    then have "digits_value (show_nat (n div 10)) = n div 10"
      using "1.IH" by simp
    then show ?thesis
      using False
      by (subst show_nat.simps) (simp add: digits_value_snoc of_char_digit_char)
  qed
qed

lemma show_nat_inj: "show_nat m = show_nat n \<Longrightarrow> m = n"
  using digits_value_show_nat by metis

lemma is_digit_digit_char: "d < 10 \<Longrightarrow> is_digit (digit_char d)"
  by (simp add: is_digit_def of_char_digit_char)

lemma show_nat_digits: "list_all is_digit (show_nat n)"
proof (induction n rule: show_nat.induct)
  case (1 n)
  then show ?case
    by (subst show_nat.simps) (auto simp: is_digit_digit_char)
qed

lemma show_nat_not_Nil: "show_nat n \<noteq> []"
  by (subst show_nat.simps) simp

lemma length_show_nat: "0 < k \<Longrightarrow> n < 10 ^ k \<Longrightarrow> length (show_nat n) \<le> k"
proof (induction k arbitrary: n)
  case (Suc k)
  show ?case
  proof (cases "k = 0")
    case True
    then show ?thesis
      using Suc.prems by (simp add: show_nat.simps [of n])
  next
    case False
    have "n div 10 < 10 ^ k"
      using Suc.prems by (simp add: less_mult_imp_div_less)
    then show ?thesis
      using Suc.IH [of "n div 10"] False by (simp add: show_nat.simps [of n])
  qed
qed simp

lemma parse_uint_show_nat: "n \<le> bound \<Longrightarrow> parse_uint bound (show_nat n) = Some n"
proof -
  assume "n \<le> bound"
  obtain c cs where c: "show_nat n = c # cs"
    using show_nat_not_Nil [of n] by (cases "show_nat n") auto
  have "is_digit c"
    using show_nat_digits [of n] c by simp
  then have "c \<noteq> CHR ''+''"
    by (auto simp: is_digit_def)
  then show ?thesis
    using \<open>n \<le> bound\<close> c show_nat_digits [of n] digits_value_show_nat [of n]
    by (simp add: parse_uint_def)
qed

end
