(* ===== verification/Protocol_Types.thy ===== *)
theory Protocol_Types
  imports Prelude
begin

text \<open>
  The data types of the protocol crate (crates/cachebox-protocol/src/lib.rs), which the engine,
  the server and the client share: commands with their wire identifiers, request and response
  frames, metadata and the decode errors. A Rust \<open>String\<close> is the list of its UTF-8 bytes as
  characters; a byte vector or slice is a list of \<^typ>\<open>u8\<close>. Borrowed views have the same
  components as the owned payloads they borrow from.
\<close>

section \<open>Commands\<close>

datatype command =
  CmdGet | CmdPut | CmdDelete | CmdBatchGet | CmdTagInvalidate | CmdLeaseStart | CmdLeaseComplete

fun command_id :: "command \<Rightarrow> u8" where
  "command_id CmdGet = 0x01"
| "command_id CmdPut = 0x02"
| "command_id CmdDelete = 0x03"
| "command_id CmdBatchGet = 0x04"
| "command_id CmdTagInvalidate = 0x05"
| "command_id CmdLeaseStart = 0x06"
| "command_id CmdLeaseComplete = 0x07"

section \<open>Errors\<close>

datatype decode_error =
  IncompleteHeader
| BadMagic
| UnsupportedVersion u8
| InvalidKind u8
| UnknownCommand u8
| NonzeroFlags u8
| NonzeroReserved u32
| FrameTooLarge usize usize
| TruncatedPayload usize usize
| InvalidPayload string
| InvalidUtf8
| InvalidNamespace
| InvalidTag
| InvalidBool u8
| TrailingBytes usize

definition command_from_id :: "u8 \<Rightarrow> decode_error + command" where
  "command_from_id i =
     (if i = 0x01 then Inr CmdGet
      else if i = 0x02 then Inr CmdPut
      else if i = 0x03 then Inr CmdDelete
      else if i = 0x04 then Inr CmdBatchGet
      else if i = 0x05 then Inr CmdTagInvalidate
      else if i = 0x06 then Inr CmdLeaseStart
      else if i = 0x07 then Inr CmdLeaseComplete
      else Inl (UnknownCommand i))"

datatype error_code =
  EcBadFrame | EcUnsupportedVersion | EcUnknownCommand | EcInvalidNamespace | EcInvalidTag
| EcInvalidTtl | EcValueTooLarge | EcEntryTooLarge | EcInsufficientMemory | EcInvalidLeaseToken
| EcFrameTooLarge

fun error_code_id :: "error_code \<Rightarrow> u16" where
  "error_code_id EcBadFrame = 0x0001"
| "error_code_id EcUnsupportedVersion = 0x0002"
| "error_code_id EcUnknownCommand = 0x0003"
| "error_code_id EcInvalidNamespace = 0x0004"
| "error_code_id EcInvalidTag = 0x0005"
| "error_code_id EcInvalidTtl = 0x0006"
| "error_code_id EcValueTooLarge = 0x0007"
| "error_code_id EcEntryTooLarge = 0x0008"
| "error_code_id EcInsufficientMemory = 0x0009"
| "error_code_id EcInvalidLeaseToken = 0x000a"
| "error_code_id EcFrameTooLarge = 0x000b"

definition error_code_from_id :: "u16 \<Rightarrow> decode_error + error_code" where
  "error_code_from_id i =
     (if i = 0x0001 then Inr EcBadFrame
      else if i = 0x0002 then Inr EcUnsupportedVersion
      else if i = 0x0003 then Inr EcUnknownCommand
      else if i = 0x0004 then Inr EcInvalidNamespace
      else if i = 0x0005 then Inr EcInvalidTag
      else if i = 0x0006 then Inr EcInvalidTtl
      else if i = 0x0007 then Inr EcValueTooLarge
      else if i = 0x0008 then Inr EcEntryTooLarge
      else if i = 0x0009 then Inr EcInsufficientMemory
      else if i = 0x000a then Inr EcInvalidLeaseToken
      else if i = 0x000b then Inr EcFrameTooLarge
      else Inl (InvalidPayload ''unknown error code''))"

section \<open>Metadata\<close>

datatype ttl = Ttl (milliseconds: u64)

datatype content_type = OctetStream | OtherContent

record metadata =
  md_ttl :: "ttl option"
  md_stale_ttl :: "ttl option"
  md_cost :: "u64 option"
  md_tags :: "string list"
  md_content_type :: content_type

definition metadata_default :: metadata where
  "metadata_default =
     \<lparr>md_ttl = None, md_stale_ttl = None, md_cost = None, md_tags = [],
      md_content_type = OctetStream\<rparr>"

section \<open>Frames\<close>

datatype request_payload =
  ReqGet string bytes
| ReqPut string bytes metadata bytes
| ReqDelete string bytes
| ReqBatchGet string "bytes list"
| ReqTagInvalidate string string
| ReqLeaseStart string bytes u64 "u64 option"
| ReqLeaseComplete string bytes string metadata bytes

datatype request_payload_view =
  ViewGet string bytes
| ViewDelete string bytes
| ViewTagInvalidate string string
| ViewLeaseStart string bytes u64 "u64 option"

record request_frame =
  rq_request_id :: u64
  rq_command :: command
  rq_payload :: request_payload

record request_frame_view =
  rv_request_id :: u64
  rv_command :: command
  rv_payload :: request_payload_view

datatype batch_item = ItemHit bytes | ItemStale bytes | ItemMiss

datatype response_payload =
  RespOk
| RespHit bytes
| RespStale bytes
| RespMiss
| RespStored u32
| RespDeleted bool
| RespInvalidated u32
| RespLeaseGranted string "bytes option"
| RespLeaseDenied
| RespError error_code string
| RespBatchGet "batch_item list"

datatype response_payload_view = RvHit bytes | RvStale bytes | RvMiss

record response_frame =
  rs_request_id :: u64
  rs_command :: command
  rs_payload :: response_payload

section \<open>Identifiers\<close>

lemma command_from_id_id [simp]: "command_from_id (command_id c) = Inr c"
  by (cases c) (simp_all add: command_from_id_def)

lemma command_from_id_InrD: "command_from_id i = Inr c \<Longrightarrow> i = command_id c"
  by (auto simp: command_from_id_def split: if_splits)

lemma error_code_from_id_id [simp]: "error_code_from_id (error_code_id c) = Inr c"
  by (cases c) (simp_all add: error_code_from_id_def)

end
