(* ===== verification/Engine.thy ===== *)
theory Engine
  imports Protocol_Types "HOL-Library.Product_Lexorder"
begin

text \<open>
  One shard of the cache: the \<open>Engine\<close> of src/engine.rs, its state as a record and every
  operation on it as a function that returns the result and the new state. What an operation
  takes from outside is an environment: the readings of \<open>Clock::now_ms\<close> it makes, in the order
  of its calls, and the order in which the iterations over a \<open>HashMap\<close> and a \<open>HashSet\<close> visit
  their elements, which Rust leaves unspecified.
\<close>

section \<open>Constants and data\<close>

definition ENTRY_OVERHEAD_BYTES :: usize where
  "ENTRY_OVERHEAD_BYTES = 96"

definition LRU_SAMPLE_SIZE :: usize where
  "LRU_SAMPLE_SIZE = 16"

datatype entry_id = EntryId (id_namespace: string) (id_key: bytes)

datatype tag_id = TagId (tag_namespace: string) (tag_name: string)

datatype expiry_key = ExpiryKey (key_expires_at_ms: u64) (key_id: entry_id)

text \<open>The derived orders of \<open>EntryId\<close> and \<open>ExpiryKey\<close> compare field by field.\<close>

instantiation entry_id :: linorder
begin

definition less_eq_entry_id :: "entry_id \<Rightarrow> entry_id \<Rightarrow> bool" where
  "less_eq_entry_id a b \<longleftrightarrow> (id_namespace a, id_key a) \<le> (id_namespace b, id_key b)"

definition less_entry_id :: "entry_id \<Rightarrow> entry_id \<Rightarrow> bool" where
  "less_entry_id a b \<longleftrightarrow> (id_namespace a, id_key a) < (id_namespace b, id_key b)"

instance
proof
  fix a b c :: entry_id
  show "a < b \<longleftrightarrow> a \<le> b \<and> \<not> b \<le> a"
    by (auto simp only: less_eq_entry_id_def less_entry_id_def)
  show "a \<le> a"
    by (simp only: less_eq_entry_id_def)
  show "a \<le> c" if "a \<le> b" "b \<le> c"
    using that by (auto simp only: less_eq_entry_id_def intro: order_trans)
  show "a = b" if "a \<le> b" "b \<le> a"
    using that unfolding less_eq_entry_id_def by (metis antisym entry_id.expand prod.inject)
  show "a \<le> b \<or> b \<le> a"
    by (auto simp only: less_eq_entry_id_def)
qed

end

instantiation expiry_key :: linorder
begin

definition less_eq_expiry_key :: "expiry_key \<Rightarrow> expiry_key \<Rightarrow> bool" where
  "less_eq_expiry_key a b \<longleftrightarrow> (key_expires_at_ms a, key_id a) \<le> (key_expires_at_ms b, key_id b)"

definition less_expiry_key :: "expiry_key \<Rightarrow> expiry_key \<Rightarrow> bool" where
  "less_expiry_key a b \<longleftrightarrow> (key_expires_at_ms a, key_id a) < (key_expires_at_ms b, key_id b)"

instance
proof
  fix a b c :: expiry_key
  show "a < b \<longleftrightarrow> a \<le> b \<and> \<not> b \<le> a"
    by (auto simp only: less_eq_expiry_key_def less_expiry_key_def)
  show "a \<le> a"
    by (simp only: less_eq_expiry_key_def)
  show "a \<le> c" if "a \<le> b" "b \<le> c"
    using that by (auto simp only: less_eq_expiry_key_def intro: order_trans)
  show "a = b" if "a \<le> b" "b \<le> a"
    using that unfolding less_eq_expiry_key_def by (metis antisym expiry_key.expand prod.inject)
  show "a \<le> b \<or> b \<le> a"
    by (auto simp only: less_eq_expiry_key_def)
qed

end

record entry =
  en_value :: bytes
  en_expires_at_ms :: "u64 option"
  en_stale_until_ms :: "u64 option"
  en_tags :: "string list"
  en_cost :: "u64 option"
  en_memory_bytes :: usize
  en_last_access :: u64

record lease =
  le_token :: string
  le_expires_at_ms :: u64

datatype entry_state = StMissing | StFresh | StStale | StExpired

record engine_limits =
  max_memory_bytes :: usize
  max_value_bytes :: usize

definition engine_limits_default :: engine_limits where
  "engine_limits_default =
     \<lparr>max_memory_bytes = 64 * 1024 * 1024, max_value_bytes = 8 * 1024 * 1024\<rparr>"

record engine_stats =
  expirations :: u64
  evictions :: u64

definition engine_stats_default :: engine_stats where
  "engine_stats_default = \<lparr>expirations = 0, evictions = 0\<rparr>"

record put_outcome =
  po_evicted :: usize

datatype put_error =
  ValueTooLarge usize usize
| ValueTooLargeForMemory usize usize
| InsufficientMemory usize usize usize

record put_command =
  pc_namespace :: string
  pc_key :: bytes
  pc_value :: bytes
  pc_ttl :: "ttl option"
  pc_stale_ttl :: "ttl option"
  pc_tags :: "string list"
  pc_cost :: "u64 option"

record complete_lease_command =
  cl_namespace :: string
  cl_key :: bytes
  cl_lease_token :: string
  cl_value :: bytes
  cl_ttl :: "ttl option"
  cl_stale_ttl :: "ttl option"
  cl_tags :: "string list"
  cl_cost :: "u64 option"

datatype complete_lease_error = InvalidLeaseToken | ClPut put_error

datatype start_lease_outcome =
  SlHit bytes
| SlStale bytes
| SlLeaseGranted string "bytes option"
| SlLeaseDenied

datatype get_outcome = OutHit bytes | OutStale bytes | OutMiss

datatype get_outcome_ref = RefHit bytes | RefStale bytes | RefMiss

record engine =
  entries :: "(entry_id \<times> entry) list"
  leases :: "(entry_id \<times> lease) list"
  tag_index :: "(tag_id \<times> entry_id list) list"
  expiry_index :: "expiry_key list"
  limits :: engine_limits
  memory_used_bytes :: usize
  cost_score_total :: u64
  next_access :: u64
  stats :: engine_stats

text \<open>The environment of one call: \<open>clk env i\<close> is the reading of its \<open>i\<close>-th \<open>now_ms\<close> call site.\<close>

record env =
  clk :: "nat \<Rightarrow> u64"
  entry_order :: "(entry_id \<times> entry) list \<Rightarrow> (entry_id \<times> entry) list"
  id_order :: "entry_id list \<Rightarrow> entry_id list"
  shard_order :: "nat list \<Rightarrow> nat list"

definition env_ok :: "env \<Rightarrow> bool" where
  "env_ok env \<longleftrightarrow>
     (\<forall>es. mset (entry_order env es) = mset es) \<and> (\<forall>ids. mset (id_order env ids) = mset ids) \<and>
     (\<forall>ixs. mset (shard_order env ixs) = mset ixs)"

definition env_tick :: "nat \<Rightarrow> env \<Rightarrow> env" where
  "env_tick n env = env\<lparr>clk := \<lambda>i. clk env (n + i)\<rparr>"

section \<open>Pure helpers\<close>

text \<open>The sum of the tag lengths is a plain \<open>usize\<close> sum, which wraps; the other additions
  saturate.\<close>

definition estimate_entry_memory :: "entry_id \<Rightarrow> bytes \<Rightarrow> string list \<Rightarrow> usize" where
  "estimate_entry_memory eid val tags =
     usize_saturating_add
       (usize_saturating_add
         (usize_saturating_add
           (usize_saturating_add ENTRY_OVERHEAD_BYTES (length (id_namespace eid)))
           (length (id_key eid)))
         (length val))
       (sum_list (map length tags) mod 2 ^ 64)"

definition tag_ids :: "string \<Rightarrow> string list \<Rightarrow> tag_id list" where
  "tag_ids ns tags = map (TagId ns) tags"

definition removable_at_ms :: "u64 option \<Rightarrow> u64 option \<Rightarrow> u64 option" where
  "removable_at_ms expires stale = (case stale of Some s \<Rightarrow> Some s | None \<Rightarrow> expires)"

definition entry_state_at :: "entry \<Rightarrow> u64 \<Rightarrow> entry_state" where
  "entry_state_at en now =
     (case en_expires_at_ms en of
        None \<Rightarrow> StFresh
      | Some expires_at \<Rightarrow>
          if now \<le> expires_at then StFresh
          else (case en_stale_until_ms en of
                  Some stale_until \<Rightarrow> if now \<le> stale_until then StStale else StExpired
                | None \<Rightarrow> StExpired))"

section \<open>Construction and accessors\<close>

definition engine_with_limits :: "engine_limits \<Rightarrow> engine" where
  "engine_with_limits lim =
     \<lparr>entries = [], leases = [], tag_index = [], expiry_index = [], limits = lim,
      memory_used_bytes = 0, cost_score_total = 0, next_access = 0,
      stats = engine_stats_default\<rparr>"

definition engine_new :: engine where
  "engine_new = engine_with_limits engine_limits_default"

definition engine_len :: "engine \<Rightarrow> usize" where
  "engine_len e = length (entries e)"

definition engine_is_empty :: "engine \<Rightarrow> bool" where
  "engine_is_empty e \<longleftrightarrow> engine_len e = 0"

definition tag_ids_for_entry :: "string \<Rightarrow> bytes \<Rightarrow> engine \<Rightarrow> tag_id list" where
  "tag_ids_for_entry ns key e =
     (case map_of (entries e) (EntryId ns key) of
        None \<Rightarrow> []
      | Some en \<Rightarrow> tag_ids ns (en_tags en))"

definition has_tag_id :: "tag_id \<Rightarrow> engine \<Rightarrow> bool" where
  "has_tag_id t e \<longleftrightarrow> (case map_of (tag_index e) t of None \<Rightarrow> False | Some ids \<Rightarrow> ids \<noteq> [])"

definition engine_entry_state :: "u64 \<Rightarrow> entry_id \<Rightarrow> engine \<Rightarrow> entry_state" where
  "engine_entry_state now eid e =
     (case map_of (entries e) eid of None \<Rightarrow> StMissing | Some en \<Rightarrow> entry_state_at en now)"

definition active_lease :: "u64 \<Rightarrow> entry_id \<Rightarrow> engine \<Rightarrow> lease option" where
  "active_lease now eid e =
     (case map_of (leases e) eid of
        None \<Rightarrow> None
      | Some l \<Rightarrow> if now \<le> le_expires_at_ms l then Some l else None)"

section \<open>Removal\<close>

definition remove_entry :: "entry_id \<Rightarrow> engine \<Rightarrow> bool \<times> engine" where
  "remove_entry eid e =
     (case map_of (entries e) eid of
        None \<Rightarrow> (False, e)
      | Some en \<Rightarrow>
          (True,
           e\<lparr>entries := AList.delete eid (entries e),
             leases := AList.delete eid (leases e),
             memory_used_bytes := memory_used_bytes e - en_memory_bytes en,
             cost_score_total :=
               u64_saturating_sub (cost_score_total e)
                 (case en_cost en of None \<Rightarrow> 0 | Some c \<Rightarrow> c),
             expiry_index :=
               (case removable_at_ms (en_expires_at_ms en) (en_stale_until_ms en) of
                  None \<Rightarrow> expiry_index e
                | Some r \<Rightarrow> removeAll (ExpiryKey r eid) (expiry_index e)),
             tag_index :=
               fold (\<lambda>t. mi_remove t eid) (tag_ids (id_namespace eid) (en_tags en)) (tag_index e)\<rparr>))"

text \<open>The \<open>while\<close> loop of \<open>remove_expired\<close>: pop keys that are due off the front of the ordered
  set until the budget is used up.\<close>

fun pop_expired :: "u64 \<Rightarrow> usize \<Rightarrow> expiry_key list \<Rightarrow> entry_id list \<times> expiry_key list" where
  "pop_expired now budget [] = ([], [])"
| "pop_expired now budget (k # ks) =
     (if budget = 0 \<or> now < key_expires_at_ms k then ([], k # ks)
      else (let (ids, rest) = pop_expired now (budget - 1) ks in (key_id k # ids, rest)))"

text \<open>Its \<open>for\<close> loop: remove the popped entries and count them.\<close>

fun remove_expired_ids :: "entry_id list \<Rightarrow> engine \<Rightarrow> usize \<times> engine" where
  "remove_expired_ids [] e = (0, e)"
| "remove_expired_ids (eid # ids) e =
     (let (removed, e1) = remove_entry eid e
      in if removed
         then (let (n, e2) = remove_expired_ids ids
                     (e1\<lparr>stats := (stats e1)\<lparr>expirations := expirations (stats e1) + 1\<rparr>\<rparr>)
               in (Suc n, e2))
         else remove_expired_ids ids e1)"

definition remove_expired :: "u64 \<Rightarrow> usize \<Rightarrow> engine \<Rightarrow> usize \<times> engine" where
  "remove_expired now max_entries e =
     (let (ids, rest) = pop_expired now max_entries (expiry_index e)
      in remove_expired_ids ids (e\<lparr>expiry_index := rest\<rparr>))"

definition engine_reclaim_expired_budget :: "u64 \<Rightarrow> usize \<Rightarrow> engine \<Rightarrow> usize \<times> engine" where
  "engine_reclaim_expired_budget now max_entries e = remove_expired now max_entries e"

definition engine_reclaim_expired :: "u64 \<Rightarrow> engine \<Rightarrow> usize \<times> engine" where
  "engine_reclaim_expired now e = engine_reclaim_expired_budget now usize_max e"

section \<open>Access order and eviction\<close>

definition least_recently_used_entry :: "env \<Rightarrow> engine \<Rightarrow> entry_id option" where
  "least_recently_used_entry env e =
     map_option fst
       (min_by_key (\<lambda>(_, en). en_last_access en)
         (take LRU_SAMPLE_SIZE (entry_order env (entries e))))"

definition bump_access :: "engine \<Rightarrow> u64 \<times> engine" where
  "bump_access e = (next_access e, e\<lparr>next_access := u64_saturating_add (next_access e) 1\<rparr>)"

definition record_access :: "entry_id \<Rightarrow> engine \<Rightarrow> engine" where
  "record_access eid e =
     (if map_of (entries e) eid = None then e
      else (let (access, e1) = bump_access e
            in case map_of (entries e1) eid of
                 None \<Rightarrow> e1
               | Some en \<Rightarrow>
                   e1\<lparr>entries := AList.update eid (en\<lparr>en_last_access := access\<rparr>) (entries e1)\<rparr>))"

lemma remove_entry_shrinks:
  "fst (remove_entry eid e) \<Longrightarrow>
   length (entries (snd (remove_entry eid e))) < length (entries e)"
  by (auto simp: remove_entry_def length_delete_less split: option.splits)

function evict_until_fits :: "env \<Rightarrow> usize \<Rightarrow> engine \<Rightarrow> usize \<times> engine" where
  "evict_until_fits env incoming e =
     (if usize_saturating_add (memory_used_bytes e) incoming > max_memory_bytes (limits e)
      then (case least_recently_used_entry env e of
              None \<Rightarrow> (0, e)
            | Some eid \<Rightarrow>
                (if fst (remove_entry eid e)
                 then (let e1 = snd (remove_entry eid e);
                           (n, e2) = evict_until_fits env incoming
                             (e1\<lparr>stats := (stats e1)\<lparr>evictions := evictions (stats e1) + 1\<rparr>\<rparr>)
                       in (Suc n, e2))
                 else (0, snd (remove_entry eid e))))
      else (0, e))"
  by pat_completeness auto
termination
  by (relation "measure (\<lambda>(env, incoming, e). length (entries e))")
    (auto simp: remove_entry_shrinks)

declare evict_until_fits.simps [simp del]

section \<open>Writing\<close>

text \<open>The second half of \<open>put\<close>, once the entry is known to fit: index it and store it.\<close>

definition put_store :: "u64 \<Rightarrow> usize \<Rightarrow> put_command \<Rightarrow> engine \<Rightarrow> engine" where
  "put_store now entry_bytes cmd e =
     (let eid = EntryId (pc_namespace cmd) (pc_key cmd);
          expires_at = map_option (\<lambda>t. u64_saturating_add now (milliseconds t)) (pc_ttl cmd);
          stale_until =
            (case (expires_at, pc_stale_ttl cmd) of
               (Some x, Some s) \<Rightarrow> Some (u64_saturating_add x (milliseconds s))
             | _ \<Rightarrow> None);
          e1 = e\<lparr>tag_index :=
                   fold (\<lambda>t. mi_insert t eid) (tag_ids (pc_namespace cmd) (pc_tags cmd))
                     (tag_index e)\<rparr>;
          (access, e2) = bump_access e1
      in e2\<lparr>expiry_index :=
              (case removable_at_ms expires_at stale_until of
                 None \<Rightarrow> expiry_index e2
               | Some r \<Rightarrow> insort_insert (ExpiryKey r eid) (expiry_index e2)),
            entries :=
              AList.update eid
                \<lparr>en_value = pc_value cmd, en_expires_at_ms = expires_at,
                 en_stale_until_ms = stale_until, en_tags = pc_tags cmd, en_cost = pc_cost cmd,
                 en_memory_bytes = entry_bytes, en_last_access = access\<rparr> (entries e2),
            memory_used_bytes := usize_saturating_add (memory_used_bytes e2) entry_bytes,
            cost_score_total :=
              u64_saturating_add (cost_score_total e2)
                (case pc_cost cmd of None \<Rightarrow> 0 | Some c \<Rightarrow> c)\<rparr>)"

definition engine_put :: "env \<Rightarrow> put_command \<Rightarrow> engine \<Rightarrow> (put_error + put_outcome) \<times> engine" where
  "engine_put env cmd e =
     (if length (pc_value cmd) > max_value_bytes (limits e)
      then (Inl (ValueTooLarge (length (pc_value cmd)) (max_value_bytes (limits e))), e)
      else
       (let now = clk env 0;
            eid = EntryId (pc_namespace cmd) (pc_key cmd);
            entry_bytes = estimate_entry_memory eid (pc_value cmd) (pc_tags cmd)
        in if entry_bytes > max_memory_bytes (limits e)
           then (Inl (ValueTooLargeForMemory entry_bytes (max_memory_bytes (limits e))), e)
           else
            (let e1 = snd (remove_entry eid e);
                 e2 = (if usize_saturating_add (memory_used_bytes e1) entry_bytes
                            > max_memory_bytes (limits e1)
                       then snd (engine_reclaim_expired (clk env 1) e1) else e1);
                 (evicted, e3) = evict_until_fits env entry_bytes e2
             in if usize_saturating_add (memory_used_bytes e3) entry_bytes
                     > max_memory_bytes (limits e3)
                then (Inl (InsufficientMemory entry_bytes (memory_used_bytes e3)
                             (max_memory_bytes (limits e3))), e3)
                else (Inr \<lparr>po_evicted = evicted\<rparr>, put_store now entry_bytes cmd e3))))"

section \<open>Reading\<close>

text \<open>The closure that the source passes to \<open>get_ref\<close> is a function on the outcome.\<close>

definition get_ref_inner ::
  "env \<Rightarrow> string \<Rightarrow> bytes \<Rightarrow> bool \<Rightarrow> (get_outcome_ref \<Rightarrow> 'r) \<Rightarrow> engine \<Rightarrow> 'r \<times> engine" where
  "get_ref_inner env ns key update_access f e =
     (let eid = EntryId ns key;
          now = clk env 0
      in case map_of (entries e) eid of
           None \<Rightarrow> (f RefMiss, e)
         | Some en \<Rightarrow>
             (let touched =
                (if update_access
                 then e\<lparr>next_access := u64_saturating_add (next_access e) 1,
                        entries := AList.update eid (en\<lparr>en_last_access := next_access e\<rparr>)
                                     (entries e)\<rparr>
                 else e)
              in case entry_state_at en now of
                   StMissing \<Rightarrow> (f RefMiss, e)
                 | StExpired \<Rightarrow> (f RefMiss, snd (remove_entry eid e))
                 | StFresh \<Rightarrow> (f (RefHit (en_value en)), touched)
                 | StStale \<Rightarrow> (f (RefStale (en_value en)), touched)))"

definition get_ref ::
  "env \<Rightarrow> string \<Rightarrow> bytes \<Rightarrow> (get_outcome_ref \<Rightarrow> 'r) \<Rightarrow> engine \<Rightarrow> 'r \<times> engine" where
  "get_ref env ns key f e = get_ref_inner env ns key True f e"

definition get_ref_without_access_update ::
  "env \<Rightarrow> string \<Rightarrow> bytes \<Rightarrow> (get_outcome_ref \<Rightarrow> 'r) \<Rightarrow> engine \<Rightarrow> 'r \<times> engine" where
  "get_ref_without_access_update env ns key f e = get_ref_inner env ns key False f e"

fun outcome_of_ref :: "get_outcome_ref \<Rightarrow> get_outcome" where
  "outcome_of_ref (RefHit v) = OutHit v"
| "outcome_of_ref (RefStale v) = OutStale v"
| "outcome_of_ref RefMiss = OutMiss"

definition engine_get :: "env \<Rightarrow> string \<Rightarrow> bytes \<Rightarrow> engine \<Rightarrow> get_outcome \<times> engine" where
  "engine_get env ns key e = get_ref env ns key outcome_of_ref e"

fun engine_batch_get ::
  "env \<Rightarrow> string \<Rightarrow> bytes list \<Rightarrow> engine \<Rightarrow> get_outcome list \<times> engine" where
  "engine_batch_get env ns [] e = ([], e)"
| "engine_batch_get env ns (key # keys) e =
     (let (out, e1) = engine_get env ns key e;
          (outs, e2) = engine_batch_get (env_tick 1 env) ns keys e1
      in (out # outs, e2))"

section \<open>Deletion and tag invalidation\<close>

definition engine_delete :: "string \<Rightarrow> bytes \<Rightarrow> engine \<Rightarrow> bool \<times> engine" where
  "engine_delete ns key e =
     (let eid = EntryId ns key
      in remove_entry eid (e\<lparr>leases := AList.delete eid (leases e)\<rparr>))"

fun remove_entries :: "entry_id list \<Rightarrow> engine \<Rightarrow> usize \<times> engine" where
  "remove_entries [] e = (0, e)"
| "remove_entries (eid # ids) e =
     (let (removed, e1) = remove_entry eid e;
          (n, e2) = remove_entries ids e1
      in (if removed then Suc n else n, e2))"

definition engine_invalidate_tag :: "env \<Rightarrow> string \<Rightarrow> string \<Rightarrow> engine \<Rightarrow> usize \<times> engine" where
  "engine_invalidate_tag env ns tag e =
     (let t = TagId ns tag
      in case map_of (tag_index e) t of
           None \<Rightarrow> (0, e)
         | Some ids \<Rightarrow>
             remove_entries (id_order env ids) (e\<lparr>tag_index := AList.delete t (tag_index e)\<rparr>))"

section \<open>Leases\<close>

definition create_lease :: "u64 \<Rightarrow> entry_id \<Rightarrow> u64 \<Rightarrow> engine \<Rightarrow> string \<times> engine" where
  "create_lease now eid lease_ttl_ms e =
     (let token = ''lease-'' @ show_nat (unat (next_access e))
      in (token,
          e\<lparr>next_access := u64_saturating_add (next_access e) 1,
            leases := AList.update eid
              \<lparr>le_token = token, le_expires_at_ms = u64_saturating_add now lease_ttl_ms\<rparr>
              (leases e)\<rparr>))"

text \<open>Call sites of \<open>now_ms\<close> in \<open>start_lease\<close>: 0 the first \<open>active_lease\<close>, 1 \<open>entry_state\<close>, 2 the
  \<open>active_lease\<close> of \<open>start_lease_for_missing\<close>, 3 \<open>create_lease\<close>.\<close>

definition start_lease_for_missing ::
  "env \<Rightarrow> entry_id \<Rightarrow> u64 \<Rightarrow> engine \<Rightarrow> start_lease_outcome \<times> engine" where
  "start_lease_for_missing env eid lease_ttl_ms e =
     (if active_lease (clk env 2) eid e \<noteq> None then (SlLeaseDenied, e)
      else (let (token, e1) = create_lease (clk env 3) eid lease_ttl_ms e
            in (SlLeaseGranted token None, e1)))"

definition engine_start_lease ::
  "env \<Rightarrow> string \<Rightarrow> bytes \<Rightarrow> u64 \<Rightarrow> engine \<Rightarrow> start_lease_outcome \<times> engine" where
  "engine_start_lease env ns key lease_ttl_ms e =
     (let eid = EntryId ns key;
          has_active_lease = (active_lease (clk env 0) eid e \<noteq> None)
      in case engine_entry_state (clk env 1) eid e of
           StFresh \<Rightarrow>
             (let e1 = record_access eid e
              in case map_of (entries e1) eid of
                   Some en \<Rightarrow> (SlHit (en_value en), e1)
                 | None \<Rightarrow>
                     (let (token, e2) = create_lease (clk env 3) eid lease_ttl_ms e1
                      in (SlLeaseGranted token None, e2)))
         | StStale \<Rightarrow>
             (let e1 = record_access eid e;
                  stale_value = map_option en_value (map_of (entries e1) eid)
              in if has_active_lease
                 then (SlStale (case stale_value of None \<Rightarrow> [] | Some v \<Rightarrow> v), e1)
                 else (let (token, e2) = create_lease (clk env 3) eid lease_ttl_ms e1
                       in (SlLeaseGranted token stale_value, e2)))
         | StExpired \<Rightarrow>
             if has_active_lease then (SlLeaseDenied, e)
             else start_lease_for_missing env eid lease_ttl_ms (snd (remove_entry eid e))
         | StMissing \<Rightarrow> start_lease_for_missing env eid lease_ttl_ms e)"

text \<open>\<open>complete_lease\<close> reads the clock once for the lease; the readings of \<open>put\<close> follow.\<close>

definition engine_complete_lease ::
  "env \<Rightarrow> complete_lease_command \<Rightarrow> engine \<Rightarrow> (complete_lease_error + put_outcome) \<times> engine" where
  "engine_complete_lease env cmd e =
     (let eid = EntryId (cl_namespace cmd) (cl_key cmd)
      in case active_lease (clk env 0) eid e of
           None \<Rightarrow> (Inl InvalidLeaseToken, e\<lparr>leases := AList.delete eid (leases e)\<rparr>)
         | Some l \<Rightarrow>
             if le_token l \<noteq> cl_lease_token cmd then (Inl InvalidLeaseToken, e)
             else
              (let (r, e1) = engine_put (env_tick 1 env)
                     \<lparr>pc_namespace = cl_namespace cmd, pc_key = cl_key cmd, pc_value = cl_value cmd,
                      pc_ttl = cl_ttl cmd, pc_stale_ttl = cl_stale_ttl cmd,
                      pc_tags = cl_tags cmd, pc_cost = cl_cost cmd\<rparr>
                     (e\<lparr>leases := AList.delete eid (leases e)\<rparr>)
               in (case r of Inl err \<Rightarrow> Inl (ClPut err) | Inr ok \<Rightarrow> Inr ok, e1)))"

end
