(* ===== verification/Engine_Inv.thy ===== *)
theory Engine_Inv
  imports Engine
begin

text \<open>
  The type invariant of the engine and its preservation by every operation: the accounting of
  memory, the exactness of the tag index and of the expiry index, the shape of the expiry
  times, and the freshness of access numbers and lease tokens. \<open>engine_step\<close> is one public
  call, so that the invariant lifts to every sequence of calls.
\<close>

section \<open>The invariant\<close>

definition has_tag :: "engine \<Rightarrow> entry_id \<Rightarrow> tag_id \<Rightarrow> bool" where
  "has_tag e eid t \<longleftrightarrow>
     (case map_of (entries e) eid of
        None \<Rightarrow> False
      | Some en \<Rightarrow> t \<in> set (tag_ids (id_namespace eid) (en_tags en)))"

definition removable :: "entry \<Rightarrow> u64 option" where
  "removable en = removable_at_ms (en_expires_at_ms en) (en_stale_until_ms en)"

definition expiry_keys :: "engine \<Rightarrow> expiry_key set" where
  "expiry_keys e =
     {k. \<exists>en. map_of (entries e) (key_id k) = Some en \<and> removable en = Some (key_expires_at_ms k)}"

definition memory_total :: "engine \<Rightarrow> usize" where
  "memory_total e = sum_list (map (\<lambda>(_, en). en_memory_bytes en) (entries e))"

definition cost_of :: "entry \<Rightarrow> u64" where
  "cost_of en = (case en_cost en of None \<Rightarrow> 0 | Some c \<Rightarrow> c)"

definition cost_total :: "engine \<Rightarrow> nat" where
  "cost_total e = sum_list (map (\<lambda>(_, en). unat (cost_of en)) (entries e))"

definition entry_ok :: "engine_limits \<Rightarrow> entry_id \<Rightarrow> entry \<Rightarrow> bool" where
  "entry_ok lim eid en \<longleftrightarrow>
     en_memory_bytes en = estimate_entry_memory eid (en_value en) (en_tags en) \<and>
     length (en_value en) \<le> max_value_bytes lim \<and>
     (case en_stale_until_ms en of
        None \<Rightarrow> True
      | Some s \<Rightarrow> (case en_expires_at_ms en of None \<Rightarrow> False | Some x \<Rightarrow> x \<le> s))"

definition memory_inv :: "engine \<Rightarrow> bool" where
  "memory_inv e \<longleftrightarrow>
     max_memory_bytes (limits e) < usize_max \<and>
     distinct (map fst (entries e)) \<and> distinct (map fst (leases e)) \<and>
     (\<forall>eid en. map_of (entries e) eid = Some en \<longrightarrow> entry_ok (limits e) eid en) \<and>
     memory_used_bytes e = memory_total e \<and>
     memory_used_bytes e \<le> max_memory_bytes (limits e)"

text \<open>Inside an operation the two indexes can run behind: \<open>X\<close> is a set of tags already dropped
  from the tag index, \<open>Y\<close> a set of entries already dropped from the expiry index.\<close>

definition tag_inv :: "tag_id set \<Rightarrow> engine \<Rightarrow> bool" where
  "tag_inv X e \<longleftrightarrow>
     mi_wf (tag_index e) \<and>
     (\<forall>t eid. mi_mem (tag_index e) t eid \<longleftrightarrow> has_tag e eid t \<and> t \<notin> X)"

definition expiry_inv :: "entry_id set \<Rightarrow> engine \<Rightarrow> bool" where
  "expiry_inv Y e \<longleftrightarrow>
     sorted (expiry_index e) \<and> distinct (expiry_index e) \<and>
     set (expiry_index e) = {k \<in> expiry_keys e. key_id k \<notin> Y}"

text \<open>Until the access counter saturates, access numbers and lease tokens are all below it and
  never given out twice.\<close>

definition token_of :: "nat \<Rightarrow> string" where
  "token_of n = ''lease-'' @ show_nat n"

definition access_below :: "u64 \<Rightarrow> (entry_id \<rightharpoonup> entry) \<Rightarrow> bool" where
  "access_below n m \<longleftrightarrow> (\<forall>eid en. m eid = Some en \<longrightarrow> en_last_access en < n)"

definition access_unique :: "(entry_id \<rightharpoonup> entry) \<Rightarrow> bool" where
  "access_unique m \<longleftrightarrow>
     (\<forall>eid en eid' en'. m eid = Some en \<longrightarrow> m eid' = Some en' \<longrightarrow>
        en_last_access en = en_last_access en' \<longrightarrow> eid = eid')"

definition tokens_below :: "u64 \<Rightarrow> (entry_id \<rightharpoonup> lease) \<Rightarrow> bool" where
  "tokens_below n m \<longleftrightarrow>
     (\<forall>eid l. m eid = Some l \<longrightarrow> (\<exists>i < unat n. le_token l = token_of i))"

definition tokens_unique :: "(entry_id \<rightharpoonup> lease) \<Rightarrow> bool" where
  "tokens_unique m \<longleftrightarrow>
     (\<forall>eid l eid' l'. m eid = Some l \<longrightarrow> m eid' = Some l' \<longrightarrow>
        le_token l = le_token l' \<longrightarrow> eid = eid')"

definition access_inv :: "engine \<Rightarrow> bool" where
  "access_inv e \<longleftrightarrow>
     (next_access e \<noteq> - 1 \<longrightarrow>
        access_below (next_access e) (map_of (entries e)) \<and> access_unique (map_of (entries e)) \<and>
        tokens_below (next_access e) (map_of (leases e)) \<and> tokens_unique (map_of (leases e)))"

definition engine_inv_upto :: "tag_id set \<Rightarrow> entry_id set \<Rightarrow> engine \<Rightarrow> bool" where
  "engine_inv_upto X Y e \<longleftrightarrow> memory_inv e \<and> tag_inv X e \<and> expiry_inv Y e \<and> access_inv e"

abbreviation engine_inv :: "engine \<Rightarrow> bool" where
  "engine_inv e \<equiv> engine_inv_upto {} {} e"

named_theorems inv_defs \<open>the parts of the engine invariant\<close>

lemmas [inv_defs] = memory_inv_def tag_inv_def expiry_inv_def access_inv_def

section \<open>The fields after a removal\<close>

lemma remove_entry_fst: "fst (remove_entry eid e) \<longleftrightarrow> map_of (entries e) eid \<noteq> None"
  by (simp add: remove_entry_def split: option.split)

lemma remove_entry_None: "map_of (entries e) eid = None \<Longrightarrow> remove_entry eid e = (False, e)"
  by (simp add: remove_entry_def)

lemma remove_entry_keeps [simp]:
  "limits (snd (remove_entry eid e)) = limits e"
  "next_access (snd (remove_entry eid e)) = next_access e"
  "stats (snd (remove_entry eid e)) = stats e"
  by (simp_all add: remove_entry_def split: option.split)

lemma remove_entry_entries [simp]:
  "entries (snd (remove_entry eid e)) = AList.delete eid (entries e)"
  by (auto simp: remove_entry_def map_of_eq_None_iff split: option.split)

lemma remove_entry_leases:
  "leases (snd (remove_entry eid e)) =
     (if map_of (entries e) eid = None then leases e else AList.delete eid (leases e))"
  by (simp add: remove_entry_def split: option.split)

lemma has_tag_remove_entry:
  "has_tag (snd (remove_entry eid e)) eid' t \<longleftrightarrow> eid' \<noteq> eid \<and> has_tag e eid' t"
  by (simp add: has_tag_def alist)

lemma expiry_keys_remove_entry:
  "expiry_keys (snd (remove_entry eid e)) = {k \<in> expiry_keys e. key_id k \<noteq> eid}"
  by (auto simp: expiry_keys_def alist)

section \<open>Removal keeps the invariant\<close>

lemma remove_entry_memory_inv:
  assumes "memory_inv e"
  shows "memory_inv (snd (remove_entry eid e))"
proof (cases "map_of (entries e) eid")
  case None
  then show ?thesis
    using assms by (simp add: remove_entry_None)
next
  case (Some en)
  have d: "distinct (map fst (entries e))"
    using assms by (simp add: memory_inv_def)
  have "memory_total e = en_memory_bytes en + memory_total (snd (remove_entry eid e))"
    using sum_list_delete [OF d Some, of "\<lambda>(_, en). en_memory_bytes en"]
    by (simp add: memory_total_def)
  moreover have "memory_used_bytes (snd (remove_entry eid e)) = memory_used_bytes e - en_memory_bytes en"
    using Some by (simp add: remove_entry_def)
  ultimately show ?thesis
    using assms by (auto simp: memory_inv_def remove_entry_leases AList.distinct_delete alist)
qed

lemma remove_entry_tag_inv:
  assumes "tag_inv X e"
  shows "tag_inv X (snd (remove_entry eid e))"
proof (cases "map_of (entries e) eid")
  case None
  then show ?thesis
    using assms by (simp add: remove_entry_None)
next
  case (Some en)
  let ?ts = "tag_ids (id_namespace eid) (en_tags en)"
  have ti: "tag_index (snd (remove_entry eid e)) = fold (\<lambda>t. mi_remove t eid) ?ts (tag_index e)"
    using Some by (simp add: remove_entry_def)
  have "mi_mem (tag_index (snd (remove_entry eid e))) t eid' \<longleftrightarrow>
          has_tag (snd (remove_entry eid e)) eid' t \<and> t \<notin> X" for t eid'
    using assms Some
    by (auto simp: ti mi.mem_fold_rem has_tag_remove_entry tag_inv_def) (simp add: has_tag_def)
  moreover have "mi_wf (tag_index (snd (remove_entry eid e)))"
    using assms by (simp add: ti mi.wf_fold_rem tag_inv_def)
  ultimately show ?thesis
    by (simp add: tag_inv_def)
qed

lemma remove_entry_expiry_inv:
  assumes "expiry_inv Y e"
  shows "expiry_inv (Y - {eid}) (snd (remove_entry eid e))"
proof (cases "map_of (entries e) eid")
  case None
  then have "key_id k \<noteq> eid" if "k \<in> expiry_keys e" for k
    using that by (auto simp: expiry_keys_def)
  then show ?thesis
    using assms None by (auto simp: remove_entry_None expiry_inv_def)
next
  case (Some en)
  have "expiry_index (snd (remove_entry eid e)) =
      filter (\<lambda>k. key_id k \<noteq> eid) (expiry_index e)"
  proof -
    have key: "ExpiryKey r eid = k \<longleftrightarrow> key_id k = eid"
      if "removable en = Some r" "k \<in> set (expiry_index e)" for r k
      using that assms Some by (cases k) (auto simp: expiry_inv_def expiry_keys_def)
    have none: "key_id k \<noteq> eid" if "removable en = None" "k \<in> set (expiry_index e)" for k
      using that assms Some by (auto simp: expiry_inv_def expiry_keys_def)
    show ?thesis
    proof (cases "removable en")
      case None
      then show ?thesis
        using Some none [OF None] by (auto simp: remove_entry_def removable_def filter_id_conv)
    next
      case (Some r)
      have "filter (\<lambda>k. ExpiryKey r eid \<noteq> k) (expiry_index e) =
          filter (\<lambda>k. key_id k \<noteq> eid) (expiry_index e)"
        by (rule filter_cong) (simp_all add: key [OF Some])
      then show ?thesis
        using Some \<open>map_of (entries e) eid = Some en\<close>
        by (simp add: remove_entry_def removable_def removeAll_filter_not_eq)
    qed
  qed
  then show ?thesis
    using assms by (auto simp: expiry_inv_def expiry_keys_remove_entry sorted_wrt_filter)
qed

lemma map_le_SomeD: "m' \<subseteq>\<^sub>m m \<Longrightarrow> m' k = Some v \<Longrightarrow> m k = Some v"
  by (force simp: map_le_def)

lemma access_antimono:
  assumes "m' \<subseteq>\<^sub>m m"
  shows "access_below n m \<Longrightarrow> access_below n m'" "access_unique m \<Longrightarrow> access_unique m'"
  using map_le_SomeD [OF assms] unfolding access_below_def access_unique_def by blast+

lemma tokens_antimono:
  assumes "m' \<subseteq>\<^sub>m m"
  shows "tokens_below n m \<Longrightarrow> tokens_below n m'" "tokens_unique m \<Longrightarrow> tokens_unique m'"
  using map_le_SomeD [OF assms] unfolding tokens_below_def tokens_unique_def by blast+

lemma access_inv_antimono:
  assumes "access_inv e" "map_of (entries e') \<subseteq>\<^sub>m map_of (entries e)"
    "map_of (leases e') \<subseteq>\<^sub>m map_of (leases e)" "next_access e' = next_access e"
  shows "access_inv e'"
  using assms(1,4) access_antimono [OF assms(2)] tokens_antimono [OF assms(3)]
  by (simp add: access_inv_def)

lemma remove_entry_access_inv:
  assumes "access_inv e"
  shows "access_inv (snd (remove_entry eid e))"
  using assms
  by (rule access_inv_antimono) (auto simp: remove_entry_leases map_le_def alist split: if_splits)

lemma remove_entry_inv:
  "engine_inv_upto X Y e \<Longrightarrow> engine_inv_upto X (Y - {eid}) (snd (remove_entry eid e))"
  by (simp add: engine_inv_upto_def remove_entry_memory_inv remove_entry_tag_inv
      remove_entry_expiry_inv remove_entry_access_inv)

lemma remove_entry_inv_same: "engine_inv e \<Longrightarrow> engine_inv (snd (remove_entry eid e))"
  using remove_entry_inv [of "{}" "{}" e eid] by simp

section \<open>Expiration keeps the invariant\<close>

lemma engine_inv_stats [simp]: "engine_inv_upto X Y (e\<lparr>stats := st\<rparr>) \<longleftrightarrow> engine_inv_upto X Y e"
  by (simp add: engine_inv_upto_def inv_defs memory_total_def has_tag_def expiry_keys_def)

lemma pop_expired_split:
  "\<exists>n. pop_expired now budget ks = (map key_id (take n ks), drop n ks) \<and>
     n \<le> budget \<and> n \<le> length ks \<and>
     (\<forall>k \<in> set (take n ks). key_expires_at_ms k \<le> now) \<and>
     (n = budget \<or> drop n ks = [] \<or> now < key_expires_at_ms (hd (drop n ks)))"
proof (induction now budget ks rule: pop_expired.induct)
  case (2 now budget k ks)
  show ?case
  proof (cases "budget = 0 \<or> now < key_expires_at_ms k")
    case True
    then show ?thesis
      by (intro exI [of _ 0]) auto
  next
    case False
    then obtain n where "pop_expired now (budget - 1) ks = (map key_id (take n ks), drop n ks)"
      "n \<le> budget - 1" "n \<le> length ks" "\<forall>k \<in> set (take n ks). key_expires_at_ms k \<le> now"
      "n = budget - 1 \<or> drop n ks = [] \<or> now < key_expires_at_ms (hd (drop n ks))"
      using "2.IH" by blast
    then show ?thesis
      using False by (intro exI [of _ "Suc n"]) (auto simp: not_less)
  qed
qed simp

lemma expiry_keys_key_unique:
  "k \<in> expiry_keys e \<Longrightarrow> k' \<in> expiry_keys e \<Longrightarrow> key_id k = key_id k' \<Longrightarrow> k = k'"
  by (auto simp: expiry_keys_def expiry_key.expand)

lemma pop_expired_inv:
  assumes "engine_inv e" "pop_expired now budget (expiry_index e) = (ids, rest)"
  shows "engine_inv_upto {} (set ids) (e\<lparr>expiry_index := rest\<rparr>)"
proof -
  obtain n where ids: "ids = map key_id (take n (expiry_index e))"
    and rest: "rest = drop n (expiry_index e)"
    using pop_expired_split [of now budget "expiry_index e"] assms(2) by auto
  have exp: "sorted (expiry_index e)" "distinct (expiry_index e)" "set (expiry_index e) = expiry_keys e"
    using assms(1) by (simp_all add: engine_inv_upto_def expiry_inv_def)
  let ?T = "set (take n (expiry_index e))" and ?D = "set (drop n (expiry_index e))"
  have split: "?T \<union> ?D = expiry_keys e"
    using exp(3) by (metis append_take_drop_id set_append)
  have disj: "?T \<inter> ?D = {}"
    using exp(2) by (metis append_take_drop_id distinct_append)
  have "?D = {k \<in> expiry_keys e. key_id k \<notin> key_id ` ?T}"
    using split disj expiry_keys_key_unique [of _ e] by blast
  then have "expiry_inv (set ids) (e\<lparr>expiry_index := rest\<rparr>)"
    using exp by (auto simp: expiry_inv_def ids rest expiry_keys_def sorted_wrt_drop)
  then show ?thesis
    using assms(1)
    by (simp add: engine_inv_upto_def memory_inv_def memory_total_def tag_inv_def has_tag_def
        access_inv_def)
qed

lemma remove_expired_ids_inv:
  "engine_inv_upto X Y e \<Longrightarrow> engine_inv_upto X (Y - set ids) (snd (remove_expired_ids ids e))"
proof (induction ids arbitrary: Y e)
  case (Cons eid ids)
  have "engine_inv_upto X (Y - {eid} - set ids)
      (snd (remove_expired_ids ids (snd (remove_entry eid e)\<lparr>stats := st\<rparr>)))" for st
    using Cons.IH [of "Y - {eid}"] remove_entry_inv [OF Cons.prems] by simp
  moreover have "engine_inv_upto X (Y - {eid} - set ids)
      (snd (remove_expired_ids ids (snd (remove_entry eid e))))"
    using Cons.IH [of "Y - {eid}"] remove_entry_inv [OF Cons.prems] by simp
  moreover have "Y - {eid} - set ids = Y - set (eid # ids)"
    by auto
  ultimately show ?case
    by (simp add: case_prod_beta Let_def)
qed simp

lemma remove_expired_inv:
  assumes "engine_inv e"
  shows "engine_inv (snd (remove_expired now budget e))"
proof -
  obtain ids rest where pop: "pop_expired now budget (expiry_index e) = (ids, rest)"
    by fastforce
  then show ?thesis
    using remove_expired_ids_inv [OF pop_expired_inv [OF assms pop], of ids]
    by (simp add: remove_expired_def)
qed

section \<open>Eviction keeps the invariant\<close>

lemma evict_until_fits_inv: "engine_inv e \<Longrightarrow> engine_inv (snd (evict_until_fits env incoming e))"
proof (induction env incoming e rule: evict_until_fits.induct)
  case (1 env incoming e)
  show ?case
  proof (cases "usize_saturating_add (memory_used_bytes e) incoming > max_memory_bytes (limits e)")
    case True
    show ?thesis
    proof (cases "least_recently_used_entry env e")
      case (Some eid)
      then show ?thesis
        using "1.IH" [OF True Some] "1.prems" True
        by (subst evict_until_fits.simps)
          (auto simp: remove_entry_inv_same Let_def split: prod.split)
    qed (use "1.prems" in \<open>subst evict_until_fits.simps, simp\<close>)
  qed (use "1.prems" in \<open>subst evict_until_fits.simps, simp\<close>)
qed

section \<open>Removals only remove\<close>

text \<open>What every combination of removals has in common: entries and leases may go, nothing else
  about them changes, and neither the limits nor the access counter move.\<close>

definition shrinks :: "engine \<Rightarrow> engine \<Rightarrow> bool" where
  "shrinks e' e \<longleftrightarrow>
     map_of (entries e') \<subseteq>\<^sub>m map_of (entries e) \<and> map_of (leases e') \<subseteq>\<^sub>m map_of (leases e) \<and>
     limits e' = limits e \<and> next_access e' = next_access e"

lemma shrinks_refl [simp]: "shrinks e e"
  by (simp add: shrinks_def)

lemma shrinks_trans: "shrinks e2 e1 \<Longrightarrow> shrinks e1 e \<Longrightarrow> shrinks e2 e"
  by (auto simp: shrinks_def intro: map_le_trans)

lemma shrinks_irrelevant [simp]:
  "shrinks (e'\<lparr>stats := st\<rparr>) e \<longleftrightarrow> shrinks e' e"
  "shrinks (e'\<lparr>tag_index := ti\<rparr>) e \<longleftrightarrow> shrinks e' e"
  "shrinks (e'\<lparr>expiry_index := xs\<rparr>) e \<longleftrightarrow> shrinks e' e"
  "shrinks e' (e\<lparr>stats := st\<rparr>) \<longleftrightarrow> shrinks e' e"
  "shrinks e' (e\<lparr>expiry_index := xs\<rparr>) \<longleftrightarrow> shrinks e' e"
  "shrinks e' (e\<lparr>tag_index := ti\<rparr>) \<longleftrightarrow> shrinks e' e"
  by (simp_all add: shrinks_def)

lemma shrinks_NoneD: "shrinks e' e \<Longrightarrow> map_of (entries e) eid = None \<Longrightarrow> map_of (entries e') eid = None"
  by (auto simp: shrinks_def map_le_def dom_def)

lemma shrinks_SomeD:
  "shrinks e' e \<Longrightarrow> map_of (entries e') eid = Some en \<Longrightarrow> map_of (entries e) eid = Some en"
  by (auto simp: shrinks_def map_le_def dom_def)

lemma shrinks_limits: "shrinks e' e \<Longrightarrow> limits e' = limits e"
  by (simp add: shrinks_def)

lemma shrinks_next_access: "shrinks e' e \<Longrightarrow> next_access e' = next_access e"
  by (simp add: shrinks_def)

lemma remove_entry_shrinks_engine: "shrinks (snd (remove_entry eid e)) e"
  by (auto simp: shrinks_def map_le_def remove_entry_leases alist split: if_splits)

text \<open>A property that removals keep and that does not read the indexes or the counters holds
  after expiration, after eviction and after the removal of a list of entries.\<close>

locale removal_closed =
  fixes P :: "engine \<Rightarrow> bool"
  assumes closed_remove: "P e \<Longrightarrow> P (snd (remove_entry eid e))"
    and closed_stats: "P e \<Longrightarrow> P (e\<lparr>stats := st\<rparr>)"
    and closed_tag_index: "P e \<Longrightarrow> P (e\<lparr>tag_index := ti\<rparr>)"
    and closed_expiry_index: "P e \<Longrightarrow> P (e\<lparr>expiry_index := xs\<rparr>)"
begin

lemma closed_remove_expired_ids: "P e \<Longrightarrow> P (snd (remove_expired_ids ids e))"
proof (induction ids arbitrary: e)
  case (Cons eid ids)
  then show ?case
    using closed_remove [OF Cons.prems, of eid] by (simp add: closed_stats case_prod_beta Let_def)
qed simp

lemma closed_remove_expired: "P e \<Longrightarrow> P (snd (remove_expired now budget e))"
  by (simp add: remove_expired_def case_prod_beta closed_remove_expired_ids closed_expiry_index)

lemma closed_remove_entries: "P e \<Longrightarrow> P (snd (remove_entries ids e))"
proof (induction ids arbitrary: e)
  case (Cons eid ids)
  then show ?case
    using closed_remove [OF Cons.prems, of eid] by (simp add: case_prod_beta Let_def)
qed simp

lemma closed_invalidate_tag: "P e \<Longrightarrow> P (snd (engine_invalidate_tag env ns tag e))"
  by (simp add: engine_invalidate_tag_def Let_def closed_remove_entries closed_tag_index
      split: option.split)

lemma closed_evict: "P e \<Longrightarrow> P (snd (evict_until_fits env incoming e))"
proof (induction env incoming e rule: evict_until_fits.induct)
  case (1 env incoming e)
  show ?case
  proof (cases "usize_saturating_add (memory_used_bytes e) incoming > max_memory_bytes (limits e)")
    case True
    show ?thesis
    proof (cases "least_recently_used_entry env e")
      case (Some eid)
      then show ?thesis
        using "1.IH" [OF True Some] True closed_remove [OF "1.prems", of eid]
        by (subst evict_until_fits.simps) (auto simp: Let_def closed_stats split: prod.split)
    qed (use "1.prems" in \<open>subst evict_until_fits.simps, simp\<close>)
  qed (use "1.prems" in \<open>subst evict_until_fits.simps, simp\<close>)
qed

end

interpretation shr: removal_closed "\<lambda>e'. shrinks e' e" for e
  by unfold_locales (auto intro: shrinks_trans [OF remove_entry_shrinks_engine])

lemma remove_expired_shrinks: "shrinks (snd (remove_expired now budget e)) e"
  by (rule shr.closed_remove_expired) simp

lemma evict_until_fits_shrinks: "shrinks (snd (evict_until_fits env incoming e)) e"
  by (rule shr.closed_evict) simp

lemma remove_entries_shrinks: "shrinks (snd (remove_entries ids e)) e"
  by (rule shr.closed_remove_entries) simp

lemma invalidate_tag_shrinks: "shrinks (snd (engine_invalidate_tag env ns tag e)) e"
  by (rule shr.closed_invalidate_tag) simp

section \<open>Storing keeps the invariant\<close>

lemma u64_bump: "n \<noteq> - 1 \<Longrightarrow> unat (u64_saturating_add n 1) = unat n + 1"
proof -
  assume "n \<noteq> - 1"
  then have "unat n \<noteq> 2 ^ 64 - 1"
    using unat_max_u64 by (metis word_unat_eq_iff)
  then show ?thesis
    using unat_u64_le [of n] by (simp add: u64_unat)
qed

lemma u64_bump_saturated: "u64_saturating_add (- 1) 1 = - 1"
  by (simp add: u64_saturating_add_def unat_max_u64)

lemma bumped_not_max:
  "u64_saturating_add n 1 \<noteq> - 1 \<Longrightarrow> n \<noteq> - 1"
  using u64_bump_saturated by auto

lemma less_bumped:
  assumes "u64_saturating_add n 1 \<noteq> - 1"
  shows "a < u64_saturating_add n 1 \<longleftrightarrow> a < n \<or> a = n"
  using u64_bump [OF bumped_not_max [OF assms]]
  by (auto simp: word_less_nat_alt word_unat_eq_iff)

lemma access_below_update:
  "access_below n m \<Longrightarrow> u64_saturating_add n 1 \<noteq> - 1 \<Longrightarrow> en_last_access en = n \<Longrightarrow>
   access_below (u64_saturating_add n 1) (m(eid \<mapsto> en))"
  by (auto simp: access_below_def less_bumped)

lemma access_unique_update:
  "access_below n m \<Longrightarrow> access_unique m \<Longrightarrow> en_last_access en = n \<Longrightarrow> access_unique (m(eid \<mapsto> en))"
  unfolding access_below_def access_unique_def
  by (metis fun_upd_apply less_irrefl option.inject)

lemma tokens_below_bump:
  "tokens_below n m \<Longrightarrow> u64_saturating_add n 1 \<noteq> - 1 \<Longrightarrow> tokens_below (u64_saturating_add n 1) m"
  by (simp add: tokens_below_def u64_bump bumped_not_max) (meson less_SucI)

lemma access_inv_store:
  assumes "access_inv e" "en_last_access en = next_access e"
    and "map_of (entries e') = (map_of (entries e))(eid \<mapsto> en)" "leases e' = leases e"
    and "next_access e' = u64_saturating_add (next_access e) 1"
  shows "access_inv e'"
  using assms bumped_not_max [of "next_access e"]
  by (auto simp: access_inv_def access_below_update access_unique_update tokens_below_bump)

text \<open>The entry that \<open>put_store\<close> stores, and the fields it leaves behind.\<close>

definition expires_at_of :: "u64 \<Rightarrow> put_command \<Rightarrow> u64 option" where
  "expires_at_of now cmd = map_option (\<lambda>t. u64_saturating_add now (milliseconds t)) (pc_ttl cmd)"

definition stale_until_of :: "u64 \<Rightarrow> put_command \<Rightarrow> u64 option" where
  "stale_until_of now cmd =
     (case (expires_at_of now cmd, pc_stale_ttl cmd) of
        (Some x, Some s) \<Rightarrow> Some (u64_saturating_add x (milliseconds s))
      | _ \<Rightarrow> None)"

definition stored_entry :: "u64 \<Rightarrow> usize \<Rightarrow> put_command \<Rightarrow> u64 \<Rightarrow> entry" where
  "stored_entry now entry_bytes cmd access =
     \<lparr>en_value = pc_value cmd, en_expires_at_ms = expires_at_of now cmd,
      en_stale_until_ms = stale_until_of now cmd, en_tags = pc_tags cmd, en_cost = pc_cost cmd,
      en_memory_bytes = entry_bytes, en_last_access = access\<rparr>"

definition put_id :: "put_command \<Rightarrow> entry_id" where
  "put_id cmd = EntryId (pc_namespace cmd) (pc_key cmd)"

definition put_bytes :: "put_command \<Rightarrow> usize" where
  "put_bytes cmd = estimate_entry_memory (put_id cmd) (pc_value cmd) (pc_tags cmd)"

lemma put_store_fields:
  "entries (put_store now b cmd e) =
     AList.update (put_id cmd) (stored_entry now b cmd (next_access e)) (entries e)"
  "leases (put_store now b cmd e) = leases e"
  "limits (put_store now b cmd e) = limits e"
  "stats (put_store now b cmd e) = stats e"
  "next_access (put_store now b cmd e) = u64_saturating_add (next_access e) 1"
  "memory_used_bytes (put_store now b cmd e) = usize_saturating_add (memory_used_bytes e) b"
  "cost_score_total (put_store now b cmd e) =
     u64_saturating_add (cost_score_total e) (cost_of (stored_entry now b cmd (next_access e)))"
  "tag_index (put_store now b cmd e) =
     fold (\<lambda>t. mi_insert t (put_id cmd)) (tag_ids (pc_namespace cmd) (pc_tags cmd)) (tag_index e)"
  "expiry_index (put_store now b cmd e) =
     (case removable (stored_entry now b cmd (next_access e)) of
        None \<Rightarrow> expiry_index e
      | Some r \<Rightarrow> insort_insert (ExpiryKey r (put_id cmd)) (expiry_index e))"
  by (simp_all add: put_store_def bump_access_def Let_def put_id_def stored_entry_def
      expires_at_of_def stale_until_of_def removable_def cost_of_def cong: option.case_cong)

lemma stored_entry_ok:
  "length (pc_value cmd) \<le> max_value_bytes lim \<Longrightarrow>
   entry_ok lim (put_id cmd) (stored_entry now (put_bytes cmd) cmd access)"
  by (auto simp: entry_ok_def stored_entry_def put_bytes_def stale_until_of_def
      u64_saturating_add_ge split: option.split)

lemma put_store_memory_inv:
  assumes "memory_inv e" "map_of (entries e) (put_id cmd) = None"
    and "length (pc_value cmd) \<le> max_value_bytes (limits e)"
    and "memory_used_bytes e + put_bytes cmd \<le> max_memory_bytes (limits e)"
  shows "memory_inv (put_store now (put_bytes cmd) cmd e)"
proof -
  have "usize_saturating_add (memory_used_bytes e) (put_bytes cmd) = memory_used_bytes e + put_bytes cmd"
    using assms by (intro usize_saturating_add_eq) (simp add: memory_inv_def)
  moreover have "memory_total (put_store now (put_bytes cmd) cmd e) = memory_total e + put_bytes cmd"
    using assms(2) by (simp add: memory_total_def put_store_fields sum_list_update_fresh stored_entry_def)
  ultimately show ?thesis
    using assms by (simp add: memory_inv_def put_store_fields AList.distinct_update alist stored_entry_ok)
qed

lemma has_tag_put_store:
  assumes "map_of (entries e) (put_id cmd) = None"
  shows "has_tag (put_store now b cmd e) eid t \<longleftrightarrow>
    has_tag e eid t \<or> (eid = put_id cmd \<and> t \<in> set (tag_ids (pc_namespace cmd) (pc_tags cmd)))"
  using assms
  by (auto simp: has_tag_def put_store_fields alist stored_entry_def put_id_def split: option.splits)

lemma put_store_tag_inv:
  assumes "tag_inv {} e" "map_of (entries e) (put_id cmd) = None"
  shows "tag_inv {} (put_store now b cmd e)"
  using assms
  by (auto simp: tag_inv_def has_tag_put_store put_store_fields mi.mem_fold_ins mi.wf_fold_ins)

lemma expiry_keys_put_store:
  assumes "map_of (entries e) (put_id cmd) = None"
  shows "expiry_keys (put_store now b cmd e) = expiry_keys e \<union>
    (case removable (stored_entry now b cmd (next_access e)) of
       None \<Rightarrow> {} | Some r \<Rightarrow> {ExpiryKey r (put_id cmd)})"
proof -
  have "k \<in> expiry_keys (put_store now b cmd e) \<longleftrightarrow> k \<in> expiry_keys e \<or>
     (key_id k = put_id cmd \<and>
      removable (stored_entry now b cmd (next_access e)) = Some (key_expires_at_ms k))" for k
    using assms by (auto simp: expiry_keys_def put_store_fields alist)
  moreover have "k = ExpiryKey r (put_id cmd) \<longleftrightarrow> key_id k = put_id cmd \<and> r = key_expires_at_ms k"
    for k r
    by (cases k) auto
  ultimately show ?thesis
    by (intro set_eqI) (simp split: option.split)
qed

lemma put_store_expiry_inv:
  assumes "expiry_inv {} e" "map_of (entries e) (put_id cmd) = None"
  shows "expiry_inv {} (put_store now b cmd e)"
  using assms
  by (auto simp: expiry_inv_def expiry_keys_put_store put_store_fields sorted_insort_insert
      distinct_insort_insert set_insort_insert split: option.split)

lemma put_store_inv:
  assumes "engine_inv e" "map_of (entries e) (put_id cmd) = None"
    and "length (pc_value cmd) \<le> max_value_bytes (limits e)"
    and "memory_used_bytes e + put_bytes cmd \<le> max_memory_bytes (limits e)"
  shows "engine_inv (put_store now (put_bytes cmd) cmd e)"
proof -
  have "access_inv (put_store now (put_bytes cmd) cmd e)"
    by (rule access_inv_store [where e = e and eid = "put_id cmd"
          and en = "stored_entry now (put_bytes cmd) cmd (next_access e)"])
      (use assms(1) in \<open>simp_all add: engine_inv_upto_def put_store_fields stored_entry_def
        AList.update_conv'\<close>)
  then show ?thesis
    using assms
    by (simp add: engine_inv_upto_def put_store_memory_inv put_store_tag_inv put_store_expiry_inv)
qed

section \<open>Making room\<close>

text \<open>The first half of an accepted \<open>put\<close>: the old entry goes, expired entries are reclaimed if
  the new one does not fit yet, and then live entries are evicted.\<close>

definition put_prepare :: "env \<Rightarrow> put_command \<Rightarrow> engine \<Rightarrow> usize \<times> engine" where
  "put_prepare env cmd e =
     (let e1 = snd (remove_entry (put_id cmd) e);
          e2 = (if usize_saturating_add (memory_used_bytes e1) (put_bytes cmd)
                     > max_memory_bytes (limits e1)
                then snd (engine_reclaim_expired (clk env 1) e1) else e1)
      in evict_until_fits env (put_bytes cmd) e2)"

lemma engine_put_unfold:
  "engine_put env cmd e =
     (if length (pc_value cmd) > max_value_bytes (limits e)
      then (Inl (ValueTooLarge (length (pc_value cmd)) (max_value_bytes (limits e))), e)
      else if put_bytes cmd > max_memory_bytes (limits e)
      then (Inl (ValueTooLargeForMemory (put_bytes cmd) (max_memory_bytes (limits e))), e)
      else (let (evicted, e3) = put_prepare env cmd e
            in if usize_saturating_add (memory_used_bytes e3) (put_bytes cmd)
                    > max_memory_bytes (limits e3)
               then (Inl (InsufficientMemory (put_bytes cmd) (memory_used_bytes e3)
                            (max_memory_bytes (limits e3))), e3)
               else (Inr \<lparr>po_evicted = evicted\<rparr>, put_store (clk env 0) (put_bytes cmd) cmd e3)))"
  unfolding engine_put_def put_prepare_def Let_def put_bytes_def put_id_def by (rule refl)

lemma engine_reclaim_expired_simps [simp]:
  "engine_reclaim_expired now e = remove_expired now usize_max e"
  "engine_reclaim_expired_budget now n e = remove_expired now n e"
  by (simp_all add: engine_reclaim_expired_def engine_reclaim_expired_budget_def)

context removal_closed begin

lemma closed_put_prepare:
  "P (snd (remove_entry (put_id cmd) e)) \<Longrightarrow> P (snd (put_prepare env cmd e))"
  by (simp add: put_prepare_def Let_def closed_evict closed_remove_expired)

end

lemma put_prepare_shrinks: "shrinks (snd (put_prepare env cmd e)) (snd (remove_entry (put_id cmd) e))"
  by (rule shr.closed_put_prepare) simp

lemma put_prepare_shrinks_engine: "shrinks (snd (put_prepare env cmd e)) e"
  using put_prepare_shrinks remove_entry_shrinks_engine by (rule shrinks_trans)

lemma put_prepare_inv: "engine_inv e \<Longrightarrow> engine_inv (snd (put_prepare env cmd e))"
  by (auto simp: put_prepare_def Let_def remove_entry_inv_same remove_expired_inv evict_until_fits_inv)

lemma put_prepare_fresh: "map_of (entries (snd (put_prepare env cmd e))) (put_id cmd) = None"
  by (rule shrinks_NoneD [OF put_prepare_shrinks]) (simp add: alist)

lemma memory_bounded: "engine_inv_upto X Y e \<Longrightarrow> max_memory_bytes (limits e) < usize_max"
  by (simp add: engine_inv_upto_def memory_inv_def)

lemma engine_put_inv: "engine_inv e \<Longrightarrow> engine_inv (snd (engine_put env cmd e))"
proof -
  assume inv: "engine_inv e"
  let ?e3 = "snd (put_prepare env cmd e)"
  have lim: "limits ?e3 = limits e"
    by (rule shrinks_limits [OF put_prepare_shrinks_engine])
  have "engine_inv (put_store (clk env 0) (put_bytes cmd) cmd ?e3)"
    if "length (pc_value cmd) \<le> max_value_bytes (limits e)"
      and "usize_saturating_add (memory_used_bytes ?e3) (put_bytes cmd) \<le> max_memory_bytes (limits ?e3)"
    using that memory_bounded [OF inv]
    by (intro put_store_inv put_prepare_inv inv put_prepare_fresh)
      (simp_all add: lim usize_saturating_add_le_iff)
  then show ?thesis
    using inv put_prepare_inv [OF inv, of env cmd]
    by (auto simp: engine_put_unfold Let_def not_less split: prod.split)
qed

text \<open>Whatever the order in which the sample is taken, eviction makes the incoming entry fit.\<close>

lemma env_ok_sample:
  "env_ok env \<Longrightarrow> p \<in> set (take n (entry_order env es)) \<Longrightarrow> p \<in> set es"
  by (metis env_ok_def in_set_takeD set_mset_mset)

lemma lru_SomeD:
  assumes "env_ok env" "least_recently_used_entry env e = Some eid"
  shows "map_of (entries e) eid \<noteq> None"
proof -
  obtain en where "(eid, en) \<in> set (take LRU_SAMPLE_SIZE (entry_order env (entries e)))"
    using assms(2) by (auto simp: least_recently_used_entry_def dest: min_by_key_SomeD)
  then have "(eid, en) \<in> set (entries e)"
    by (rule env_ok_sample [OF assms(1)])
  then show ?thesis
    by (metis fst_conv image_eqI map_of_eq_None_iff)
qed

lemma lru_NoneD:
  assumes "env_ok env" "least_recently_used_entry env e = None"
  shows "entries e = []"
proof -
  have "take LRU_SAMPLE_SIZE (entry_order env (entries e)) = []"
    using assms(2) by (simp add: least_recently_used_entry_def min_by_key_None_iff)
  then have "entry_order env (entries e) = []"
    by (simp add: LRU_SAMPLE_SIZE_def)
  then show ?thesis
    using assms(1) by (metis env_ok_def mset_zero_iff)
qed

lemma evict_until_fits_fits:
  assumes "env_ok env" "engine_inv e" "incoming \<le> max_memory_bytes (limits e)"
  shows "memory_used_bytes (snd (evict_until_fits env incoming e)) + incoming
           \<le> max_memory_bytes (limits e)"
  using assms
proof (induction env incoming e rule: evict_until_fits.induct)
  case (1 env incoming e)
  show ?case
  proof (cases "usize_saturating_add (memory_used_bytes e) incoming > max_memory_bytes (limits e)")
    case True
    show ?thesis
    proof (cases "least_recently_used_entry env e")
      case None
      then have "memory_used_bytes e = 0"
        using lru_NoneD [OF "1.prems"(1) None] "1.prems"(2)
        by (simp add: engine_inv_upto_def memory_inv_def memory_total_def)
      then show ?thesis
        using None True "1.prems"(3) by (subst evict_until_fits.simps) simp
    next
      case (Some eid)
      have rem: "fst (remove_entry eid e)"
        using lru_SomeD [OF "1.prems"(1) Some] by (simp add: remove_entry_fst)
      show ?thesis
        using "1.IH" [OF True Some rem refl] "1.prems" True Some rem
        by (subst evict_until_fits.simps) (auto simp: Let_def remove_entry_inv_same split: prod.split)
    qed
  next
    case False
    then have "evict_until_fits env incoming e = (0, e)"
      by (subst evict_until_fits.simps) simp
    then show ?thesis
      using False memory_bounded [OF "1.prems"(2)]
      by (simp add: not_less usize_saturating_add_le_iff)
  qed
qed

lemma put_prepare_fits:
  assumes "env_ok env" "engine_inv e" "put_bytes cmd \<le> max_memory_bytes (limits e)"
  shows "memory_used_bytes (snd (put_prepare env cmd e)) + put_bytes cmd \<le> max_memory_bytes (limits e)"
proof -
  have lim: "limits (snd (remove_expired now usize_max e')) = limits e'" for now e'
    by (rule shrinks_limits [OF remove_expired_shrinks])
  let ?e1 = "snd (remove_entry (put_id cmd) e)"
  have "memory_used_bytes (snd (evict_until_fits env (put_bytes cmd) e2)) + put_bytes cmd
      \<le> max_memory_bytes (limits e)" if "engine_inv e2" "limits e2 = limits e" for e2
    using evict_until_fits_fits [OF assms(1) that(1), of "put_bytes cmd"] assms(3) that(2) by simp
  then show ?thesis
    using assms by (simp add: put_prepare_def Let_def remove_entry_inv_same remove_expired_inv lim)
qed

section \<open>Touching an entry\<close>

text \<open>What a read that counts as an access does to the entry it finds.\<close>

definition touch :: "entry_id \<Rightarrow> engine \<Rightarrow> engine" where
  "touch eid e =
     (case map_of (entries e) eid of
        None \<Rightarrow> e
      | Some en \<Rightarrow>
          e\<lparr>next_access := u64_saturating_add (next_access e) 1,
            entries := AList.update eid (en\<lparr>en_last_access := next_access e\<rparr>) (entries e)\<rparr>)"

lemma record_access_touch: "record_access eid e = touch eid e"
  by (simp add: record_access_def touch_def bump_access_def split: option.split)

lemma touch_keeps [simp]:
  "leases (touch eid e) = leases e" "limits (touch eid e) = limits e"
  "tag_index (touch eid e) = tag_index e" "expiry_index (touch eid e) = expiry_index e"
  "memory_used_bytes (touch eid e) = memory_used_bytes e"
  "cost_score_total (touch eid e) = cost_score_total e" "stats (touch eid e) = stats e"
  by (simp_all add: touch_def split: option.split)

lemma touch_entries:
  "map_of (entries (touch eid e)) eid' =
     (if eid' = eid
      then map_option (\<lambda>en. en\<lparr>en_last_access := next_access e\<rparr>) (map_of (entries e) eid)
      else map_of (entries e) eid')"
  by (auto simp: touch_def alist split: option.split)

lemma touch_has_tag [simp]: "has_tag (touch eid e) eid' t = has_tag e eid' t"
  by (auto simp: has_tag_def touch_entries split: option.split)

lemma touch_expiry_keys [simp]: "expiry_keys (touch eid e) = expiry_keys e"
  by (auto simp: expiry_keys_def touch_entries removable_def)

lemma touch_totals [simp]:
  "memory_total (touch eid e) = memory_total e" "cost_total (touch eid e) = cost_total e"
  by (auto simp: memory_total_def cost_total_def touch_def cost_of_def
      intro!: sum_list_update_same split: option.split)

lemma entry_ok_access [simp]: "entry_ok lim eid (en\<lparr>en_last_access := n\<rparr>) = entry_ok lim eid en"
  by (simp add: entry_ok_def cong: option.case_cong)

lemma touch_inv:
  assumes "engine_inv e"
  shows "engine_inv (touch eid e)"
proof (cases "map_of (entries e) eid")
  case (Some en)
  have "distinct (map fst (entries (touch eid e)))"
    using assms Some by (simp add: engine_inv_upto_def memory_inv_def touch_def alist)
  then have mem: "memory_inv (touch eid e)"
    using assms Some by (auto simp: engine_inv_upto_def memory_inv_def touch_entries)
  have "access_inv (touch eid e)"
    by (rule access_inv_store [where e = e and eid = eid
          and en = "en\<lparr>en_last_access := next_access e\<rparr>"])
      (use assms Some in \<open>simp_all add: engine_inv_upto_def touch_def alist\<close>)
  then show ?thesis
    using assms mem by (simp add: engine_inv_upto_def tag_inv_def expiry_inv_def)
qed (use assms in \<open>simp add: touch_def\<close>)

section \<open>The remaining operations keep the invariant\<close>

lemma get_ref_inner_unfold:
  "get_ref_inner env ns key upd f e =
     (case engine_entry_state (clk env 0) (EntryId ns key) e of
        StMissing \<Rightarrow> (f RefMiss, e)
      | StExpired \<Rightarrow> (f RefMiss, snd (remove_entry (EntryId ns key) e))
      | StFresh \<Rightarrow> (f (RefHit (en_value (the (map_of (entries e) (EntryId ns key))))),
                    if upd then touch (EntryId ns key) e else e)
      | StStale \<Rightarrow> (f (RefStale (en_value (the (map_of (entries e) (EntryId ns key))))),
                    if upd then touch (EntryId ns key) e else e))"
  by (auto simp: get_ref_inner_def engine_entry_state_def touch_def Let_def
      split: option.split entry_state.split)

lemma get_ref_inner_inv:
  "engine_inv e \<Longrightarrow> engine_inv (snd (get_ref_inner env ns key upd f e))"
  by (simp add: get_ref_inner_unfold touch_inv remove_entry_inv_same split: entry_state.split)

lemma engine_get_inv: "engine_inv e \<Longrightarrow> engine_inv (snd (engine_get env ns key e))"
  by (simp add: engine_get_def get_ref_def get_ref_inner_inv)

lemma engine_batch_get_inv: "engine_inv e \<Longrightarrow> engine_inv (snd (engine_batch_get env ns keys e))"
proof (induction keys arbitrary: env e)
  case (Cons key keys)
  then show ?case
    using engine_get_inv [OF Cons.prems, of env ns key] by (simp add: case_prod_beta Let_def)
qed simp

lemma drop_lease_inv:
  "engine_inv_upto X Y e \<Longrightarrow> engine_inv_upto X Y (e\<lparr>leases := AList.delete eid (leases e)\<rparr>)"
proof -
  assume inv: "engine_inv_upto X Y e"
  have le: "map_of (AList.delete eid (leases e)) \<subseteq>\<^sub>m map_of (leases e)"
    by (auto simp: map_le_def alist)
  have "has_tag (e\<lparr>leases := ls\<rparr>) = has_tag e" "expiry_keys (e\<lparr>leases := ls\<rparr>) = expiry_keys e"
    "memory_total (e\<lparr>leases := ls\<rparr>) = memory_total e" for ls
    by (auto simp: fun_eq_iff has_tag_def expiry_keys_def memory_total_def)
  then show ?thesis
    using inv tokens_antimono [OF le]
    by (auto simp: engine_inv_upto_def inv_defs alist)
qed

lemma engine_delete_inv: "engine_inv e \<Longrightarrow> engine_inv (snd (engine_delete ns key e))"
  by (simp add: engine_delete_def Let_def remove_entry_inv_same drop_lease_inv)

lemma remove_entries_inv:
  "engine_inv_upto X {} e \<Longrightarrow> engine_inv_upto X {} (snd (remove_entries ids e))"
proof (induction ids arbitrary: e)
  case (Cons eid ids)
  then show ?case
    using Cons.IH [OF remove_entry_inv [OF Cons.prems, of eid, simplified]]
    by (simp add: case_prod_beta Let_def)
qed simp

lemma remove_entries_entries [simp]:
  "map_of (entries (snd (remove_entries ids e))) eid =
     (if eid \<in> set ids then None else map_of (entries e) eid)"
  by (induction ids arbitrary: e) (auto simp: case_prod_beta Let_def alist)

lemma remove_entries_count:
  "distinct ids \<Longrightarrow>
   fst (remove_entries ids e) = length (filter (\<lambda>eid. map_of (entries e) eid \<noteq> None) ids)"
proof (induction ids arbitrary: e)
  case (Cons eid ids)
  have "filter (\<lambda>x. map_of (AList.delete eid (entries e)) x \<noteq> None) ids =
      filter (\<lambda>x. map_of (entries e) x \<noteq> None) ids"
    using Cons.prems by (intro filter_cong) (auto simp: alist)
  then show ?case
    using Cons by (simp add: case_prod_beta Let_def remove_entry_fst)
qed simp

lemma tag_inv_complete: "tag_inv X e \<Longrightarrow> \<forall>eid. \<forall>t \<in> X. \<not> has_tag e eid t \<Longrightarrow> tag_inv {} e"
  unfolding tag_inv_def by blast

lemma drop_tag_inv:
  "engine_inv e \<Longrightarrow> engine_inv_upto {t} {} (e\<lparr>tag_index := AList.delete t (tag_index e)\<rparr>)"
proof -
  assume inv: "engine_inv e"
  have "has_tag (e\<lparr>tag_index := ti\<rparr>) = has_tag e" "expiry_keys (e\<lparr>tag_index := ti\<rparr>) = expiry_keys e"
    "memory_total (e\<lparr>tag_index := ti\<rparr>) = memory_total e" for ti
    by (auto simp: fun_eq_iff has_tag_def expiry_keys_def memory_total_def)
  then show ?thesis
    using inv
    by (auto simp: engine_inv_upto_def inv_defs mi_wf_def mi_mem_def alist set_delete_iff)
qed

lemma tag_index_exact:
  assumes "tag_inv {} e" "map_of (tag_index e) t = Some ids"
  shows "distinct ids" "set ids = {eid. has_tag e eid t}"
proof -
  show "distinct ids"
    using assms map_of_SomeD [OF assms(2)] by (auto simp: tag_inv_def mi_wf_def)
  have "eid \<in> set ids \<longleftrightarrow> mi_mem (tag_index e) t eid" for eid
    by (simp add: mi_mem_def assms(2))
  then show "set ids = {eid. has_tag e eid t}"
    using assms(1) by (auto simp: tag_inv_def)
qed

lemma set_id_order: "env_ok env \<Longrightarrow> set (id_order env ids) = set ids"
  by (metis env_ok_def set_mset_mset)

lemma distinct_id_order: "env_ok env \<Longrightarrow> distinct (id_order env ids) = distinct ids"
  by (metis env_ok_def mset_eq_imp_distinct_iff)

lemma engine_invalidate_tag_inv:
  assumes "engine_inv e" "env_ok env"
  shows "engine_inv (snd (engine_invalidate_tag env ns tag e))"
proof (cases "map_of (tag_index e) (TagId ns tag)")
  case (Some ids)
  let ?e1 = "e\<lparr>tag_index := AList.delete (TagId ns tag) (tag_index e)\<rparr>"
  let ?e2 = "snd (remove_entries (id_order env ids) ?e1)"
  have inv: "engine_inv_upto {TagId ns tag} {} ?e2"
    by (intro remove_entries_inv drop_tag_inv assms)
  have "set ids = {eid. has_tag e eid (TagId ns tag)}"
    using assms(1) Some by (simp add: engine_inv_upto_def tag_index_exact(2))
  then have "\<not> has_tag ?e2 eid (TagId ns tag)" for eid
    by (auto simp: has_tag_def set_id_order [OF assms(2)])
  then have "tag_inv {} ?e2"
    using inv by (intro tag_inv_complete [of "{TagId ns tag}"]) (auto simp: engine_inv_upto_def)
  then show ?thesis
    using inv Some by (simp add: engine_invalidate_tag_def engine_inv_upto_def)
qed (use assms in \<open>simp add: engine_invalidate_tag_def\<close>)

section \<open>Leases keep the invariant\<close>

lemma token_of_inj: "token_of m = token_of n \<longleftrightarrow> m = n"
  using show_nat_inj by (auto simp: token_of_def)

lemma create_lease_inv:
  assumes "engine_inv e"
  shows "engine_inv (snd (create_lease now eid ttl e))"
proof -
  define l where "l = \<lparr>le_token = token_of (unat (next_access e)),
    le_expires_at_ms = u64_saturating_add now ttl\<rparr>"
  let ?e' = "e\<lparr>next_access := u64_saturating_add (next_access e) 1,
    leases := AList.update eid l (leases e)\<rparr>"
  have keep: "has_tag ?e' = has_tag e" "expiry_keys ?e' = expiry_keys e"
    "memory_total ?e' = memory_total e"
    by (auto simp: fun_eq_iff has_tag_def expiry_keys_def memory_total_def)
  have "access_inv ?e'"
    unfolding access_inv_def
  proof (intro impI conjI; simp)
    assume n: "u64_saturating_add (next_access e) 1 \<noteq> - 1"
    then have acc: "access_below (next_access e) (map_of (entries e))" "access_unique (map_of (entries e))"
      and tok: "tokens_below (next_access e) (map_of (leases e))" "tokens_unique (map_of (leases e))"
      using assms bumped_not_max [OF n] by (auto simp: engine_inv_upto_def access_inv_def)
    show "access_below (u64_saturating_add (next_access e) 1) (map_of (entries e))"
      using acc by (auto simp: access_below_def less_bumped [OF n])
    show "access_unique (map_of (entries e))"
      by (rule acc)
    show "tokens_below (u64_saturating_add (next_access e) 1) (map_of (AList.update eid l (leases e)))"
      using tokens_below_bump [OF tok(1) n] u64_bump [OF bumped_not_max [OF n]]
      by (auto simp: tokens_below_def alist l_def)
    show "tokens_unique (map_of (AList.update eid l (leases e)))"
      using tok unfolding tokens_unique_def tokens_below_def
      by (auto simp: alist l_def token_of_inj) (metis less_irrefl token_of_inj)+
  qed
  then have "engine_inv ?e'"
    using assms keep by (simp add: engine_inv_upto_def inv_defs alist)
  then show ?thesis
    by (simp add: create_lease_def Let_def l_def token_of_def)
qed

lemma start_lease_for_missing_inv:
  "engine_inv e \<Longrightarrow> engine_inv (snd (start_lease_for_missing env eid ttl e))"
  using create_lease_inv [of e "clk env 3" eid ttl]
  by (simp add: start_lease_for_missing_def case_prod_beta)

lemma engine_start_lease_inv: "engine_inv e \<Longrightarrow> engine_inv (snd (engine_start_lease env ns key ttl e))"
  using create_lease_inv [of "touch (EntryId ns key) e" "clk env 3" "EntryId ns key" ttl]
  by (simp add: engine_start_lease_def Let_def record_access_touch touch_inv remove_entry_inv_same
      start_lease_for_missing_inv case_prod_beta split: entry_state.split option.split)

lemma engine_complete_lease_inv: "engine_inv e \<Longrightarrow> engine_inv (snd (engine_complete_lease env cmd e))"
  by (simp add: engine_complete_lease_def Let_def case_prod_beta drop_lease_inv engine_put_inv
      split: option.split)

section \<open>Public calls\<close>

text \<open>One call of the public interface with the environment it meets.\<close>

datatype engine_op =
    OpPut env put_command
  | OpGet env string bytes
  | OpGetQuiet env string bytes
  | OpBatchGet env string "bytes list"
  | OpDelete string bytes
  | OpInvalidateTag env string string
  | OpStartLease env string bytes u64
  | OpCompleteLease env complete_lease_command
  | OpReclaim env usize

datatype engine_result =
    ResPut "put_error + put_outcome"
  | ResGet get_outcome
  | ResRef get_outcome_ref
  | ResBatch "get_outcome list"
  | ResDeleted bool
  | ResCount usize
  | ResLease start_lease_outcome
  | ResComplete "complete_lease_error + put_outcome"

fun engine_exec :: "engine_op \<Rightarrow> engine \<Rightarrow> engine_result \<times> engine" where
  "engine_exec (OpPut env cmd) e = map_prod ResPut (\<lambda>e. e) (engine_put env cmd e)"
| "engine_exec (OpGet env ns key) e = map_prod ResGet (\<lambda>e. e) (engine_get env ns key e)"
| "engine_exec (OpGetQuiet env ns key) e =
     map_prod ResRef (\<lambda>e. e) (get_ref_without_access_update env ns key (\<lambda>r. r) e)"
| "engine_exec (OpBatchGet env ns keys) e =
     map_prod ResBatch (\<lambda>e. e) (engine_batch_get env ns keys e)"
| "engine_exec (OpDelete ns key) e = map_prod ResDeleted (\<lambda>e. e) (engine_delete ns key e)"
| "engine_exec (OpInvalidateTag env ns tag) e =
     map_prod ResCount (\<lambda>e. e) (engine_invalidate_tag env ns tag e)"
| "engine_exec (OpStartLease env ns key ttl) e =
     map_prod ResLease (\<lambda>e. e) (engine_start_lease env ns key ttl e)"
| "engine_exec (OpCompleteLease env cmd) e =
     map_prod ResComplete (\<lambda>e. e) (engine_complete_lease env cmd e)"
| "engine_exec (OpReclaim env n) e =
     map_prod ResCount (\<lambda>e. e) (engine_reclaim_expired_budget (clk env 0) n e)"

definition engine_step :: "engine_op \<Rightarrow> engine \<Rightarrow> engine" where
  "engine_step op e = snd (engine_exec op e)"

fun op_ok :: "engine_op \<Rightarrow> bool" where
  "op_ok (OpInvalidateTag env ns tag) = env_ok env"
| "op_ok op = True"

lemma engine_step_inv: "engine_inv e \<Longrightarrow> op_ok op \<Longrightarrow> engine_inv (engine_step op e)"
  by (cases op) (simp_all add: engine_step_def engine_put_inv engine_get_inv get_ref_without_access_update_def
      get_ref_inner_inv engine_batch_get_inv engine_delete_inv engine_invalidate_tag_inv
      engine_start_lease_inv engine_complete_lease_inv remove_expired_inv)

lemma get_ref_inner_limits [simp]: "limits (snd (get_ref_inner env ns key upd f e)) = limits e"
  by (simp add: get_ref_inner_unfold split: entry_state.split)

lemma engine_batch_get_limits [simp]: "limits (snd (engine_batch_get env ns keys e)) = limits e"
proof (induction keys arbitrary: env e)
  case (Cons key keys)
  then show ?case
    by (simp add: engine_get_def get_ref_def case_prod_beta)
qed simp

lemma engine_put_limits [simp]: "limits (snd (engine_put env cmd e)) = limits e"
  using shrinks_limits [OF put_prepare_shrinks_engine, of env cmd e]
  by (auto simp: engine_put_unfold case_prod_beta put_store_fields)

lemma engine_step_limits: "limits (engine_step op e) = limits e"
proof (cases op)
  case (OpInvalidateTag env ns tag)
  then show ?thesis
    by (simp add: engine_step_def shrinks_limits [OF invalidate_tag_shrinks])
qed (simp_all add: engine_step_def engine_get_def get_ref_def get_ref_without_access_update_def engine_delete_def
    engine_start_lease_def engine_complete_lease_def start_lease_for_missing_def create_lease_def
    Let_def case_prod_beta record_access_touch shrinks_limits [OF remove_expired_shrinks]
    split: option.split entry_state.split)

interpretation eng: invariant_machine engine_inv op_ok engine_step limits
  by unfold_locales (simp_all add: engine_step_inv engine_step_limits)

lemma engine_with_limits_inv:
  "max_memory_bytes lim < usize_max \<Longrightarrow> engine_inv (engine_with_limits lim)"
  by (simp add: engine_inv_upto_def inv_defs engine_with_limits_def has_tag_def expiry_keys_def
      memory_total_def mi_wf_def mi_mem_def access_below_def access_unique_def tokens_below_def
      tokens_unique_def)

end
