(* ===== verification/Engine_Props.thy ===== *)
theory Engine_Props
  imports Engine_Inv
begin

text \<open>
  What the operations of one engine do: the outcome of \<open>put\<close> on every branch and what a later
  \<open>get\<close> sees, the choice of eviction victims, deletion and tag invalidation, leases and their
  tokens, and the reclaiming of expired entries.
\<close>

section \<open>A concrete engine\<close>

text \<open>A small engine, a command and an environment at which the properties are instantiated.\<close>

definition sample_env :: "u64 \<Rightarrow> env" where
  "sample_env now = \<lparr>clk = \<lambda>_. now, entry_order = \<lambda>es. es, id_order = \<lambda>ids. ids,
      shard_order = \<lambda>ixs. ixs\<rparr>"

definition sample_limits :: engine_limits where
  "sample_limits = \<lparr>max_memory_bytes = 1000, max_value_bytes = 100\<rparr>"

definition sample_put :: put_command where
  "sample_put =
     \<lparr>pc_namespace = ''ns'', pc_key = [1], pc_value = [7, 8], pc_ttl = Some (Ttl 50),
      pc_stale_ttl = Some (Ttl 10), pc_tags = [''t''], pc_cost = Some 5\<rparr>"

definition sample_engine :: engine where
  "sample_engine = snd (engine_put (sample_env 100) sample_put (engine_with_limits sample_limits))"

lemma sample_env_ok [simp]: "env_ok (sample_env now)"
  by (simp add: env_ok_def sample_env_def)

lemma sample_env_sel [simp]:
  "clk (sample_env now) i = now" "entry_order (sample_env now) es = es"
  "id_order (sample_env now) ids = ids" "shard_order (sample_env now) ixs = ixs"
  by (simp_all add: sample_env_def)

lemma sample_limits_inv [simp]: "engine_inv (engine_with_limits sample_limits)"
  by (rule engine_with_limits_inv) (simp add: sample_limits_def usize_max_def)

lemma sample_engine_inv [simp]: "engine_inv sample_engine"
  by (simp add: sample_engine_def engine_put_inv)

section \<open>Put\<close>

text \<open>Whatever the iteration order, an accepted size means an accepted \<open>put\<close>.\<close>

lemma put_cases:
  assumes "engine_inv e" "env_ok env"
  shows "engine_put env cmd e =
     (if length (pc_value cmd) > max_value_bytes (limits e)
      then (Inl (ValueTooLarge (length (pc_value cmd)) (max_value_bytes (limits e))), e)
      else if put_bytes cmd > max_memory_bytes (limits e)
      then (Inl (ValueTooLargeForMemory (put_bytes cmd) (max_memory_bytes (limits e))), e)
      else (Inr \<lparr>po_evicted = fst (put_prepare env cmd e)\<rparr>,
            put_store (clk env 0) (put_bytes cmd) cmd (snd (put_prepare env cmd e))))"
proof -
  have "limits (snd (put_prepare env cmd e)) = limits e"
    by (rule shrinks_limits [OF put_prepare_shrinks_engine])
  moreover have "\<not> max_memory_bytes (limits e) < usize_saturating_add
      (memory_used_bytes (snd (put_prepare env cmd e))) (put_bytes cmd)"
    if "put_bytes cmd \<le> max_memory_bytes (limits e)"
    using put_prepare_fits [OF assms(2,1) that] memory_bounded [OF assms(1)]
    by (simp add: not_less usize_saturating_add_le_iff)
  ultimately show ?thesis
    by (auto simp: engine_put_unfold case_prod_beta Let_def)
qed

lemma put_accepted:
  assumes "engine_inv e" "env_ok env" "fst (engine_put env cmd e) = Inr ok"
  shows "snd (engine_put env cmd e) =
      put_store (clk env 0) (put_bytes cmd) cmd (snd (put_prepare env cmd e))"
    and "ok = \<lparr>po_evicted = fst (put_prepare env cmd e)\<rparr>"
  using assms(3) by (auto simp: put_cases [OF assms(1,2)] split: if_splits)

lemma put_accepted_entry:
  assumes "engine_inv e" "env_ok env" "fst (engine_put env cmd e) = Inr ok"
  shows "\<exists>access. map_of (entries (snd (engine_put env cmd e))) (put_id cmd) =
    Some (stored_entry (clk env 0) (put_bytes cmd) cmd access)"
  by (auto simp: put_accepted(1) [OF assms] put_store_fields alist)

lemma put_other_entries:
  assumes "eid \<noteq> put_id cmd"
  shows "map_of (entries (snd (engine_put env cmd e))) eid \<in> {None, map_of (entries e) eid}"
proof -
  have "map_of (entries (snd (put_prepare env cmd e))) eid \<in> {None, map_of (entries e) eid}"
    using shrinks_SomeD [OF put_prepare_shrinks_engine, of env cmd e eid]
    by (cases "map_of (entries (snd (put_prepare env cmd e))) eid") auto
  then show ?thesis
    using assms by (auto simp: engine_put_unfold case_prod_beta put_store_fields alist)
qed

lemma put_prepare_room:
  assumes "memory_used_bytes (snd (remove_entry (put_id cmd) e)) + put_bytes cmd
             \<le> max_memory_bytes (limits e)"
  shows "put_prepare env cmd e = (0, snd (remove_entry (put_id cmd) e))"
  using assms
  by (simp add: put_prepare_def Let_def usize_saturating_add_def evict_until_fits.simps)

lemma sample_put_bytes [simp]: "put_bytes sample_put = 102"
  by (simp add: put_bytes_def put_id_def sample_put_def estimate_entry_memory_def
      ENTRY_OVERHEAD_BYTES_def usize_saturating_add_def usize_max_def)

lemma sample_put_accepted: "fst (engine_put (sample_env now) sample_put
    (engine_with_limits sample_limits)) = Inr \<lparr>po_evicted = 0\<rparr>"
proof -
  have "put_prepare (sample_env now) sample_put (engine_with_limits sample_limits) =
      (0, engine_with_limits sample_limits)"
    by (subst put_prepare_room) (simp_all add: engine_with_limits_def sample_limits_def remove_entry_def)
  then show ?thesis
    by (simp add: put_cases) (simp add: engine_with_limits_def sample_limits_def sample_put_def)
qed

text \<open>C8. On a well-formed engine \<open>put\<close> fails only when the value exceeds the value limit or the
  entry alone exceeds the memory limit; then the state is untouched. In every other case it
  succeeds, whatever the order in which eviction samples the map, so that the error for
  insufficient memory is never returned.\<close>

theorem put_succeeds_iff_sizes_fit:
  assumes "engine_inv e" "env_ok env"
  shows "((\<exists>ok. fst (engine_put env cmd e) = Inr ok) \<longleftrightarrow>
           length (pc_value cmd) \<le> max_value_bytes (limits e) \<and>
           put_bytes cmd \<le> max_memory_bytes (limits e)) \<and>
         (\<forall>required used bound.
            fst (engine_put env cmd e) \<noteq> Inl (InsufficientMemory required used bound)) \<and>
         (\<forall>err. fst (engine_put env cmd e) = Inl err \<longrightarrow> snd (engine_put env cmd e) = e)"
  by (auto simp: put_cases [OF assms])

theorem put_succeeds_iff_sizes_fit_witness:
  "(\<exists>ok. fst (engine_put (sample_env 100) sample_put (engine_with_limits sample_limits)) = Inr ok) \<longleftrightarrow>
     length (pc_value sample_put) \<le> max_value_bytes (limits (engine_with_limits sample_limits)) \<and>
     put_bytes sample_put \<le> max_memory_bytes (limits (engine_with_limits sample_limits))"
  using put_succeeds_iff_sizes_fit [OF sample_limits_inv sample_env_ok, of 100 sample_put] by blast

text \<open>What a command promises to a reader at a given time.\<close>

definition promised :: "u64 \<Rightarrow> put_command \<Rightarrow> u64 \<Rightarrow> get_outcome" where
  "promised stored_at cmd now =
     (case expires_at_of stored_at cmd of
        None \<Rightarrow> OutHit (pc_value cmd)
      | Some expires_at \<Rightarrow>
          if now \<le> expires_at then OutHit (pc_value cmd)
          else (case stale_until_of stored_at cmd of
                  None \<Rightarrow> OutMiss
                | Some stale_until \<Rightarrow>
                    if now \<le> stale_until then OutStale (pc_value cmd) else OutMiss))"

lemma get_stored:
  assumes "map_of (entries e) (EntryId ns key) = Some (stored_entry now b cmd access)"
  shows "fst (engine_get env ns key e) = promised now cmd (clk env 0)"
  using assms
  by (simp add: engine_get_def get_ref_def get_ref_inner_unfold engine_entry_state_def promised_def
      entry_state_at_def stored_entry_def cong: option.case_cong split: option.split)

lemma get_put_outcome:
  assumes "engine_inv e" "env_ok env" "fst (engine_put env cmd e) = Inr ok"
  shows "fst (engine_get env' (pc_namespace cmd) (pc_key cmd) (snd (engine_put env cmd e))) =
    promised (clk env 0) cmd (clk env' 0)"
proof -
  obtain access where "map_of (entries (snd (engine_put env cmd e)))
      (EntryId (pc_namespace cmd) (pc_key cmd)) =
      Some (stored_entry (clk env 0) (put_bytes cmd) cmd access)"
    using put_accepted_entry [OF assms] by (auto simp: put_id_def)
  then show ?thesis
    by (rule get_stored)
qed

text \<open>C12. After an accepted \<open>put\<close>, a \<open>get\<close> of the key at any later reading of the clock is a hit
  up to and including the expiry time, then stale up to and including the end of the stale
  window, and a miss after that; without a TTL it is always a hit.\<close>

theorem get_after_put:
  assumes "engine_inv e" "env_ok env" "fst (engine_put env cmd e) = Inr ok"
  shows "fst (engine_get env' (pc_namespace cmd) (pc_key cmd) (snd (engine_put env cmd e))) =
    (case expires_at_of (clk env 0) cmd of
       None \<Rightarrow> OutHit (pc_value cmd)
     | Some expires_at \<Rightarrow>
         if clk env' 0 \<le> expires_at then OutHit (pc_value cmd)
         else (case stale_until_of (clk env 0) cmd of
                 None \<Rightarrow> OutMiss
               | Some stale_until \<Rightarrow>
                   if clk env' 0 \<le> stale_until then OutStale (pc_value cmd) else OutMiss))"
  using get_put_outcome [OF assms] by (simp add: promised_def)

theorem get_after_put_witness:
  "fst (engine_get (sample_env 150) ''ns'' [1] sample_engine) = OutHit [7, 8] \<and>
   fst (engine_get (sample_env 155) ''ns'' [1] sample_engine) = OutStale [7, 8] \<and>
   fst (engine_get (sample_env 161) ''ns'' [1] sample_engine) = OutMiss"
  using get_after_put [OF sample_limits_inv sample_env_ok sample_put_accepted]
  by (simp add: sample_engine_def sample_put_def expires_at_of_def stale_until_of_def
      u64_saturating_add_def)

text \<open>An accepted \<open>put\<close> that fits beside the other entries evicts nothing, changes no other
  entry and no lease of another key.\<close>

lemma put_with_room_keeps_others:
  assumes "engine_inv e" "env_ok env" "fst (engine_put env cmd e) = Inr ok"
    and "memory_used_bytes (snd (remove_entry (put_id cmd) e)) + put_bytes cmd
           \<le> max_memory_bytes (limits e)"
    and "eid \<noteq> put_id cmd"
  shows "po_evicted ok = 0 \<and>
    map_of (entries (snd (engine_put env cmd e))) eid = map_of (entries e) eid \<and>
    map_of (leases (snd (engine_put env cmd e))) eid = map_of (leases e) eid"
  using put_accepted [OF assms(1-3)] assms(5)
  by (simp add: put_prepare_room [OF assms(4)] put_store_fields remove_entry_leases alist)

section \<open>Eviction\<close>

lemma lru_minimal:
  assumes "env_ok env" "least_recently_used_entry env e = Some eid"
    and "length (entries e) \<le> LRU_SAMPLE_SIZE" "distinct (map fst (entries e))"
  shows "\<exists>en. map_of (entries e) eid = Some en \<and>
    (\<forall>eid' en'. map_of (entries e) eid' = Some en' \<longrightarrow> en_last_access en \<le> en_last_access en')"
proof -
  have perm: "mset (entry_order env (entries e)) = mset (entries e)"
    using assms(1) by (simp add: env_ok_def)
  have sample: "take LRU_SAMPLE_SIZE (entry_order env (entries e)) = entry_order env (entries e)"
    using assms(3) mset_eq_length [OF perm] by simp
  obtain en where en: "(eid, en) \<in> set (entries e)"
    "\<forall>p \<in> set (entries e). en_last_access en \<le> en_last_access (snd p)"
    using assms(2) mset_eq_setD [OF perm] unfolding least_recently_used_entry_def sample
    by (auto simp: case_prod_beta dest!: min_by_key_SomeD)
  then show ?thesis
    using assms(4) by (metis map_of_SomeD map_of_is_SomeI snd_conv)
qed

text \<open>With at most as many entries as the sample holds, and until the access counter
  saturates, the victim is the one entry with the smallest access number: eviction is exact LRU
  and does not depend on the iteration order of the map.\<close>

lemma small_cache_eviction_is_exact_lru:
  assumes "engine_inv e" "env_ok env" "next_access e \<noteq> - 1"
    and "length (entries e) \<le> LRU_SAMPLE_SIZE"
  shows "least_recently_used_entry env e = Some eid \<longleftrightarrow>
    (\<exists>en. map_of (entries e) eid = Some en \<and>
       (\<forall>eid' en'. map_of (entries e) eid' = Some en' \<longrightarrow> eid' \<noteq> eid \<longrightarrow>
          en_last_access en < en_last_access en'))" (is "?L \<longleftrightarrow> ?R")
proof
  have dist: "distinct (map fst (entries e))" and uniq: "access_unique (map_of (entries e))"
    using assms(1,3) by (auto simp: engine_inv_upto_def memory_inv_def access_inv_def)
  note minimal = lru_minimal [OF assms(2) _ assms(4) dist]
  show ?R if ?L
    using minimal [OF that] uniq unfolding access_unique_def
    by (metis order_le_less)
  show ?L if ?R
  proof (cases "least_recently_used_entry env e")
    case None
    then show ?thesis
      using that lru_NoneD [OF assms(2) None] by simp
  next
    case (Some eid')
    then show ?thesis
      using that minimal [OF Some] by (metis not_less)
  qed
qed

lemma sample_engine_eq:
  "sample_engine = put_store 100 102 sample_put (engine_with_limits sample_limits)"
proof -
  have "put_prepare (sample_env 100) sample_put (engine_with_limits sample_limits) =
      (0, engine_with_limits sample_limits)"
    by (subst put_prepare_room) (simp_all add: engine_with_limits_def sample_limits_def remove_entry_def)
  then show ?thesis
    using put_accepted(1) [OF sample_limits_inv sample_env_ok sample_put_accepted, of 100]
    by (simp add: sample_engine_def)
qed

lemma sample_put_id: "put_id sample_put = EntryId ''ns'' [1]"
  by (simp add: put_id_def sample_put_def)

lemma sample_engine_entries:
  "entries sample_engine = [(EntryId ''ns'' [1], stored_entry 100 102 sample_put 0)]"
  "leases sample_engine = []" "limits sample_engine = sample_limits" "next_access sample_engine = 1"
  by (simp_all add: sample_engine_eq put_store_fields engine_with_limits_def sample_put_id
      u64_saturating_add_def)

section \<open>Deletion and invalidation\<close>

text \<open>\<open>delete\<close> reports whether the key was present, removes its entry and its lease, and
  leaves every other entry and lease as it was.\<close>

lemma delete_exact:
  "fst (engine_delete ns key e) = (map_of (entries e) (EntryId ns key) \<noteq> None) \<and>
   map_of (entries (snd (engine_delete ns key e))) = (map_of (entries e)) (EntryId ns key := None) \<and>
   map_of (leases (snd (engine_delete ns key e))) = (map_of (leases e)) (EntryId ns key := None)"
  by (auto simp: engine_delete_def Let_def remove_entry_fst remove_entry_leases alist fun_eq_iff)

lemma invalidate_tag_eq:
  assumes "engine_inv e" "env_ok env"
  shows "\<exists>ids. set ids = {eid. has_tag e eid (TagId ns tag)} \<and> distinct ids \<and>
    engine_invalidate_tag env ns tag e =
      remove_entries ids (e\<lparr>tag_index := AList.delete (TagId ns tag) (tag_index e)\<rparr>)"
proof (cases "map_of (tag_index e) (TagId ns tag)")
  case None
  then have "\<not> mi_mem (tag_index e) (TagId ns tag) eid" for eid
    by (simp add: mi_mem_def)
  then have "\<not> has_tag e eid (TagId ns tag)" for eid
    using assms(1) by (simp add: engine_inv_upto_def tag_inv_def)
  moreover have "AList.delete (TagId ns tag) (tag_index e) = tag_index e"
    using None by (simp add: map_of_eq_None_iff)
  ultimately show ?thesis
    using None by (intro exI [of _ "[]"]) (simp add: engine_invalidate_tag_def)
next
  case (Some ids)
  have "tag_inv {} e"
    using assms(1) by (simp add: engine_inv_upto_def)
  note ids = tag_index_exact [OF this Some]
  then show ?thesis
    using Some by (intro exI [of _ "id_order env ids"])
      (simp add: engine_invalidate_tag_def set_id_order [OF assms(2)] distinct_id_order [OF assms(2)])
qed

lemma invalidate_tag_count:
  assumes "engine_inv e" "env_ok env"
  shows "fst (engine_invalidate_tag env ns tag e) = card {eid. has_tag e eid (TagId ns tag)}"
proof -
  obtain ids where ids: "set ids = {eid. has_tag e eid (TagId ns tag)}" "distinct ids"
    "engine_invalidate_tag env ns tag e =
       remove_entries ids (e\<lparr>tag_index := AList.delete (TagId ns tag) (tag_index e)\<rparr>)"
    using invalidate_tag_eq [OF assms] by blast
  have "filter (\<lambda>eid. map_of (entries e) eid \<noteq> None) ids = ids"
    using ids(1) by (auto simp: filter_id_conv has_tag_def split: option.splits)
  then show ?thesis
    using remove_entries_count [OF ids(2)] distinct_card [OF ids(2)] ids(1,3) by simp
qed

lemma invalidate_tag_entries:
  assumes "engine_inv e" "env_ok env"
  shows "map_of (entries (snd (engine_invalidate_tag env ns tag e))) eid =
    (if has_tag e eid (TagId ns tag) then None else map_of (entries e) eid)"
  using invalidate_tag_eq [OF assms, of ns tag] by auto

text \<open>Tag invalidation removes exactly the entries of the namespace that carry the tag,
  returns their number, and leaves every other entry as it was.\<close>

lemma invalidate_tag_exact:
  assumes "engine_inv e" "env_ok env"
  shows "fst (engine_invalidate_tag env ns tag e) = card {eid. has_tag e eid (TagId ns tag)} \<and>
    map_of (entries (snd (engine_invalidate_tag env ns tag e))) eid =
      (if has_tag e eid (TagId ns tag) then None else map_of (entries e) eid)"
  using invalidate_tag_count [OF assms] invalidate_tag_entries [OF assms] by blast

end
