(* ===== verification/Engine_Leases.thy ===== *)
theory Engine_Leases
  imports Engine_Props
begin

text \<open>
  Leases of one engine: a lease that is out keeps every other caller from being granted one
  until it runs out or the key is written, a token completes exactly the lease it was given
  for, and tokens are never given out twice.
\<close>

section \<open>An outstanding lease\<close>

text \<open>A key that has no entry and whose rebuild is leased, and the calls that neither write, delete
  nor complete that key and read the clock while the lease runs.\<close>

definition awaiting :: "entry_id \<Rightarrow> lease \<Rightarrow> engine \<Rightarrow> bool" where
  "awaiting eid l e \<longleftrightarrow> map_of (entries e) eid = None \<and> map_of (leases e) eid = Some l"

fun bystander :: "entry_id \<Rightarrow> lease \<Rightarrow> engine_op \<Rightarrow> bool" where
  "bystander eid l (OpPut env cmd) = (put_id cmd \<noteq> eid)"
| "bystander eid l (OpDelete ns key) = (EntryId ns key \<noteq> eid)"
| "bystander eid l (OpCompleteLease env cmd) = (EntryId (cl_namespace cmd) (cl_key cmd) \<noteq> eid)"
| "bystander eid l (OpStartLease env ns key ttl) =
     (EntryId ns key = eid \<longrightarrow> clk env 2 \<le> le_expires_at_ms l)"
| "bystander eid l op = True"

lemma awaiting_remove_entry: "awaiting eid l e \<Longrightarrow> awaiting eid l (snd (remove_entry eid' e))"
  by (auto simp: awaiting_def remove_entry_leases alist)

interpretation await: removal_closed "awaiting eid l" for eid l
  by unfold_locales (rule awaiting_remove_entry, assumption, simp_all add: awaiting_def)

lemma awaiting_put:
  "awaiting eid l e \<Longrightarrow> put_id cmd \<noteq> eid \<Longrightarrow> awaiting eid l (snd (engine_put env cmd e))"
proof -
  assume await: "awaiting eid l e" and other: "put_id cmd \<noteq> eid"
  have "awaiting eid l (snd (put_prepare env cmd e))"
    using await by (intro await.closed_put_prepare awaiting_remove_entry)
  then show ?thesis
    using await other by (auto simp: engine_put_unfold case_prod_beta awaiting_def put_store_fields alist)
qed

lemma awaiting_touch: "awaiting eid l (touch eid' e) = awaiting eid l e"
  by (auto simp: awaiting_def touch_entries)

lemma awaiting_get_ref_inner:
  "awaiting eid l e \<Longrightarrow> awaiting eid l (snd (get_ref_inner env ns key upd f e))"
  by (simp add: get_ref_inner_unfold awaiting_touch awaiting_remove_entry split: entry_state.split)

lemma awaiting_batch_get: "awaiting eid l e \<Longrightarrow> awaiting eid l (snd (engine_batch_get env ns keys e))"
proof (induction keys arbitrary: env e)
  case (Cons key keys)
  then show ?case
    using awaiting_get_ref_inner [OF Cons.prems, of env ns key True outcome_of_ref]
    by (simp add: engine_get_def get_ref_def case_prod_beta Let_def)
qed simp

lemma awaiting_delete_lease:
  "awaiting eid l e \<Longrightarrow> eid' \<noteq> eid \<Longrightarrow> awaiting eid l (e\<lparr>leases := AList.delete eid' (leases e)\<rparr>)"
  by (auto simp: awaiting_def alist)

lemma awaiting_create_lease:
  "awaiting eid l e \<Longrightarrow> eid' \<noteq> eid \<Longrightarrow> awaiting eid l (snd (create_lease now eid' ttl e))"
  by (auto simp: awaiting_def create_lease_def Let_def alist)

lemma awaiting_start_lease_same:
  assumes "awaiting (EntryId ns key) l e" "clk env 2 \<le> le_expires_at_ms l"
  shows "engine_start_lease env ns key ttl e = (SlLeaseDenied, e)"
  using assms
  by (simp add: engine_start_lease_def start_lease_for_missing_def awaiting_def active_lease_def
      engine_entry_state_def)

lemma awaiting_start_lease_other:
  assumes "awaiting eid l e" "EntryId ns key \<noteq> eid"
  shows "awaiting eid l (snd (engine_start_lease env ns key ttl e))"
  using assms
  by (simp add: engine_start_lease_def start_lease_for_missing_def Let_def record_access_touch
      case_prod_beta awaiting_touch awaiting_create_lease awaiting_remove_entry
      split: entry_state.split option.split)

lemma awaiting_step:
  assumes "awaiting eid l e" "bystander eid l op"
  shows "awaiting eid l (engine_step op e)"
proof (cases op)
  case (OpStartLease env ns key ttl)
  then show ?thesis
    using assms awaiting_start_lease_same [of ns key l e env ttl]
    by (cases "EntryId ns key = eid") (auto simp: engine_step_def awaiting_start_lease_other)
next
  case (OpCompleteLease env cmd)
  then show ?thesis
    using assms
    by (auto simp: engine_step_def engine_complete_lease_def Let_def case_prod_beta put_id_def
        awaiting_delete_lease awaiting_put split: option.split)
next
  case (OpInvalidateTag env ns tag)
  then show ?thesis
    using assms by (simp add: engine_step_def await.closed_invalidate_tag)
qed (use assms in \<open>simp_all add: engine_step_def awaiting_put engine_get_def get_ref_def
    get_ref_without_access_update_def awaiting_get_ref_inner awaiting_batch_get engine_delete_def
    Let_def awaiting_remove_entry awaiting_delete_lease await.closed_remove_expired\<close>)

interpretation waiting: invariant_machine "awaiting eid l" "bystander eid l" engine_step limits
  for eid l
  by unfold_locales (simp_all add: awaiting_step engine_step_limits)

text \<open>C13. Single flight: while a lease for a key without an entry runs, no sequence of calls that
  neither writes, deletes nor completes that key gets a second caller a lease. Every
  \<open>start_lease\<close> of the key is denied and the outstanding lease stays as it was granted.\<close>

theorem lease_single_flight:
  assumes "awaiting (EntryId ns key) l e" "list_all (bystander (EntryId ns key) l) ops"
    and "clk env 2 \<le> le_expires_at_ms l"
  shows "fst (engine_exec (OpStartLease env ns key ttl) (fold engine_step ops e)) =
           ResLease SlLeaseDenied \<and>
         map_of (leases (fold engine_step ops e)) (EntryId ns key) = Some l"
  using waiting.inv_run [OF assms(1,2)] awaiting_start_lease_same [OF _ assms(3)]
  by (simp add: awaiting_def)

theorem lease_single_flight_witness:
  "fst (engine_exec (OpStartLease (sample_env 12) ''ns'' [1] 5)
     (fold engine_step [OpStartLease (sample_env 11) ''ns'' [1] 5, OpDelete ''ns'' [2]]
       (snd (engine_start_lease (sample_env 10) ''ns'' [1] 5 (engine_with_limits sample_limits))))) =
   ResLease SlLeaseDenied"
proof -
  let ?e = "snd (engine_start_lease (sample_env 10) ''ns'' [1] 5 (engine_with_limits sample_limits))"
  let ?l = "\<lparr>le_token = token_of 0, le_expires_at_ms = 15\<rparr>"
  have "awaiting (EntryId ''ns'' [1]) ?l ?e"
    by (simp add: awaiting_def engine_start_lease_def engine_entry_state_def active_lease_def
        start_lease_for_missing_def create_lease_def Let_def engine_with_limits_def token_of_def
        u64_saturating_add_def)
  then show ?thesis
    using lease_single_flight [of "''ns''" "[1]" ?l ?e
        "[OpStartLease (sample_env 11) ''ns'' [1] 5, OpDelete ''ns'' [2]]" "sample_env 12" 5]
    by simp
qed

section \<open>Starting and completing\<close>

lemma active_lease_cases:
  "active_lease now eid e \<noteq> None \<longleftrightarrow>
     (\<exists>l. map_of (leases e) eid = Some l \<and> now \<le> le_expires_at_ms l)"
  by (auto simp: active_lease_def split: option.splits)

text \<open>The outcome of \<open>start_lease\<close> while a lease for the key is active, whatever the state of
  the entry: a fresh value is a hit, a stale one is served as stale, and otherwise the caller is
  denied. A lease is never granted twice.\<close>

lemma start_lease_with_active_lease:
  assumes "active_lease (clk env 0) (EntryId ns key) e \<noteq> None"
    and "active_lease (clk env 2) (EntryId ns key) e \<noteq> None"
  shows "fst (engine_start_lease env ns key ttl e) =
    (case map_of (entries e) (EntryId ns key) of
       None \<Rightarrow> SlLeaseDenied
     | Some en \<Rightarrow>
         (case entry_state_at en (clk env 1) of
            StFresh \<Rightarrow> SlHit (en_value en)
          | StStale \<Rightarrow> SlStale (en_value en)
          | _ \<Rightarrow> SlLeaseDenied))"
proof (cases "map_of (entries e) (EntryId ns key)")
  case None
  then show ?thesis
    using assms(2)
    by (simp add: engine_start_lease_def engine_entry_state_def start_lease_for_missing_def)
next
  case (Some en)
  then have "map_of (entries (touch (EntryId ns key) e)) (EntryId ns key) =
      Some (en\<lparr>en_last_access := next_access e\<rparr>)"
    by (simp add: touch_entries)
  moreover have "entry_state_at en (clk env 1) \<noteq> StMissing"
    by (simp add: entry_state_at_def split: option.split)
  ultimately show ?thesis
    using assms(1) Some
    by (simp add: engine_start_lease_def engine_entry_state_def record_access_touch Let_def
        split: entry_state.split)
qed

definition sample_leased :: engine where
  "sample_leased = sample_engine\<lparr>leases := [(EntryId ''ns'' [1], \<lparr>le_token = ''lease-0'', le_expires_at_ms = 200\<rparr>)]\<rparr>"

text \<open>The \<open>put\<close> that completing a lease performs, on the engine without the lease.\<close>

definition lease_put :: "complete_lease_command \<Rightarrow> put_command" where
  "lease_put cmd =
     \<lparr>pc_namespace = cl_namespace cmd, pc_key = cl_key cmd, pc_value = cl_value cmd,
      pc_ttl = cl_ttl cmd, pc_stale_ttl = cl_stale_ttl cmd, pc_tags = cl_tags cmd,
      pc_cost = cl_cost cmd\<rparr>"

definition without_lease :: "entry_id \<Rightarrow> engine \<Rightarrow> engine" where
  "without_lease eid e = e\<lparr>leases := AList.delete eid (leases e)\<rparr>"

lemma put_leases: "map_of (leases (snd (engine_put env cmd e))) \<subseteq>\<^sub>m map_of (leases e)"
  using put_prepare_shrinks_engine [of env cmd e]
  by (simp add: engine_put_unfold case_prod_beta Let_def put_store_fields shrinks_def)

text \<open>A lease is completed exactly when it is active and the token is the one it was granted
  with; the value is then stored as \<open>put\<close> would store it. With another token the active lease
  and the cache stay as they were, and without an active lease only a dead lease record goes.\<close>

lemma complete_lease_requires_active_token:
  "engine_complete_lease env cmd e =
     (let eid = EntryId (cl_namespace cmd) (cl_key cmd)
      in if \<exists>l. map_of (leases e) eid = Some l \<and> clk env 0 \<le> le_expires_at_ms l
         then (if map_option le_token (map_of (leases e) eid) = Some (cl_lease_token cmd)
               then map_prod (map_sum ClPut (\<lambda>ok. ok)) (\<lambda>e. e)
                      (engine_put (env_tick 1 env) (lease_put cmd) (without_lease eid e))
               else (Inl InvalidLeaseToken, e))
         else (Inl InvalidLeaseToken, without_lease eid e))"
  by (auto simp: engine_complete_lease_def active_lease_def Let_def lease_put_def without_lease_def
      map_prod_def case_prod_beta split: option.split sum.split)

lemma complete_without_lease:
  "map_of (leases e) (EntryId (cl_namespace cmd) (cl_key cmd)) = None \<Longrightarrow>
   fst (engine_complete_lease env cmd e) = Inl InvalidLeaseToken"
  by (simp add: engine_complete_lease_def active_lease_def Let_def)

text \<open>C14. A token is good for one completion: once a lease has been completed, completing the key
  again fails with any token, whatever the clock says.\<close>

theorem lease_completed_once:
  assumes "fst (engine_complete_lease env cmd e) = Inr ok"
    and "cl_namespace cmd' = cl_namespace cmd" "cl_key cmd' = cl_key cmd"
  shows "fst (engine_complete_lease env' cmd' (snd (engine_complete_lease env cmd e))) =
    Inl InvalidLeaseToken"
proof -
  let ?eid = "EntryId (cl_namespace cmd) (cl_key cmd)"
  have "snd (engine_complete_lease env cmd e) =
      snd (engine_put (env_tick 1 env) (lease_put cmd) (without_lease ?eid e))"
    using assms(1)
    by (auto simp: engine_complete_lease_def Let_def lease_put_def without_lease_def case_prod_beta
        split: option.splits if_splits)
  moreover have "map_of (leases (snd (engine_put (env_tick 1 env) (lease_put cmd)
      (without_lease ?eid e)))) ?eid = None"
    using put_leases [of "env_tick 1 env" "lease_put cmd" "without_lease ?eid e"]
    by (auto simp: without_lease_def map_le_def dom_def alist)
  ultimately have "map_of (leases (snd (engine_complete_lease env cmd e))) ?eid = None"
    by simp
  then show ?thesis
    using assms(2,3) by (simp add: complete_without_lease)
qed

definition sample_waiting :: engine where
  "sample_waiting = snd (engine_start_lease (sample_env 10) ''ns'' [1] 5 (engine_with_limits sample_limits))"

definition sample_complete :: complete_lease_command where
  "sample_complete =
     \<lparr>cl_namespace = ''ns'', cl_key = [1], cl_lease_token = ''lease-0'', cl_value = [7, 8],
      cl_ttl = None, cl_stale_ttl = None, cl_tags = [], cl_cost = None\<rparr>"

lemma show_nat_0: "show_nat 0 = ''0''"
  by code_simp

lemma sample_waiting_eq:
  "sample_waiting = (engine_with_limits sample_limits)
     \<lparr>next_access := 1,
      leases := [(EntryId ''ns'' [1], \<lparr>le_token = ''lease-0'', le_expires_at_ms = 15\<rparr>)]\<rparr>"
  by (simp add: sample_waiting_def engine_start_lease_def engine_entry_state_def active_lease_def
      start_lease_for_missing_def create_lease_def Let_def engine_with_limits_def
      u64_saturating_add_def show_nat_0)

lemma sample_waiting_inv [simp]: "engine_inv sample_waiting"
  by (simp add: sample_waiting_def engine_start_lease_inv)

lemma sample_completed:
  "\<exists>ok. fst (engine_complete_lease (sample_env 12) sample_complete sample_waiting) = Inr ok"
proof -
  let ?e = "without_lease (EntryId ''ns'' [1]) sample_waiting"
  have "engine_inv ?e"
    using drop_lease_inv [OF sample_waiting_inv, of "EntryId ''ns'' [1]"]
    by (simp add: without_lease_def)
  moreover have "env_ok (env_tick 1 (sample_env 12))"
    by (simp add: env_ok_def env_tick_def)
  moreover have "put_bytes (lease_put sample_complete) = 101"
    by (simp add: put_bytes_def put_id_def lease_put_def sample_complete_def ENTRY_OVERHEAD_BYTES_def
        estimate_entry_memory_def usize_saturating_add_def usize_max_def)
  ultimately have "\<exists>ok. fst (engine_put (env_tick 1 (sample_env 12)) (lease_put sample_complete) ?e) = Inr ok"
    by (simp add: put_cases) (simp add: without_lease_def sample_waiting_eq engine_with_limits_def
        sample_limits_def lease_put_def sample_complete_def)
  then obtain ok e' where
    "engine_put (env_tick 1 (sample_env 12)) (lease_put sample_complete) ?e = (Inr ok, e')"
    by (metis prod.collapse)
  moreover have "active_lease 12 (EntryId ''ns'' [1]) sample_waiting =
      Some \<lparr>le_token = ''lease-0'', le_expires_at_ms = 15\<rparr>"
    by (simp add: sample_waiting_eq active_lease_def)
  ultimately show ?thesis
    by (simp add: engine_complete_lease_def lease_put_def without_lease_def sample_complete_def)
qed

theorem lease_completed_once_witness:
  "fst (engine_complete_lease (sample_env 13) sample_complete
     (snd (engine_complete_lease (sample_env 12) sample_complete sample_waiting))) = Inl InvalidLeaseToken"
  using sample_completed lease_completed_once [of "sample_env 12" sample_complete sample_waiting]
  by blast

section \<open>Tokens\<close>

text \<open>The access counter never goes back, so a token is never given out again before the counter
  saturates.\<close>

lemma touch_next_access: "next_access e \<le> next_access (touch eid e)"
  by (simp add: touch_def u64_saturating_add_ge split: option.split)

lemma create_lease_next_access: "next_access e \<le> next_access (snd (create_lease now eid ttl e))"
  by (simp add: create_lease_def Let_def u64_saturating_add_ge)

lemma get_ref_inner_next_access: "next_access e \<le> next_access (snd (get_ref_inner env ns key upd f e))"
  by (simp add: get_ref_inner_unfold touch_next_access split: entry_state.split)

lemma batch_get_next_access: "next_access e \<le> next_access (snd (engine_batch_get env ns keys e))"
proof (induction keys arbitrary: env e)
  case (Cons key keys)
  then show ?case
    using order_trans [OF get_ref_inner_next_access Cons.IH]
    by (simp add: engine_get_def get_ref_def case_prod_beta Let_def)
qed simp

lemma put_next_access: "next_access e \<le> next_access (snd (engine_put env cmd e))"
  using shrinks_next_access [OF put_prepare_shrinks_engine, of env cmd e]
  by (auto simp: engine_put_unfold case_prod_beta put_store_fields u64_saturating_add_ge)

lemma start_lease_next_access: "next_access e \<le> next_access (snd (engine_start_lease env ns key ttl e))"
  using touch_next_access [of e "EntryId ns key"]
    order_trans [OF touch_next_access [of e "EntryId ns key"] create_lease_next_access]
    create_lease_next_access [of "snd (remove_entry (EntryId ns key) e)"]
  by (simp add: engine_start_lease_def start_lease_for_missing_def Let_def record_access_touch
      case_prod_beta create_lease_next_access split: entry_state.split option.split)

lemma step_next_access: "next_access e \<le> next_access (engine_step op e)"
proof (cases op)
  case (OpInvalidateTag env ns tag)
  then show ?thesis
    by (simp add: engine_step_def shrinks_next_access [OF invalidate_tag_shrinks])
next
  case (OpCompleteLease env cmd)
  then show ?thesis
    using put_next_access [of "e\<lparr>leases := AList.delete (EntryId (cl_namespace cmd) (cl_key cmd)) (leases e)\<rparr>"]
    by (simp add: engine_step_def engine_complete_lease_def Let_def case_prod_beta split: option.split)
next
  case (OpReclaim env n)
  then show ?thesis
    by (simp add: engine_step_def shrinks_next_access [OF remove_expired_shrinks])
qed (simp_all add: engine_step_def put_next_access engine_get_def get_ref_def engine_delete_def Let_def
    get_ref_without_access_update_def get_ref_inner_next_access batch_get_next_access
    start_lease_next_access)

lemma run_next_access: "next_access e \<le> next_access (fold engine_step ops e)"
proof (induction ops arbitrary: e)
  case (Cons op ops)
  then show ?case
    using order_trans [OF step_next_access Cons.IH] by simp
qed simp

lemma create_lease_token:
  "fst (create_lease now eid ttl e) = token_of (unat (next_access e))"
  by (simp add: create_lease_def Let_def token_of_def)

lemma granted_token:
  assumes "fst (engine_start_lease env ns key ttl e) = SlLeaseGranted token stale"
  shows "\<exists>n. token = token_of (unat n) \<and> next_access e \<le> n \<and>
    next_access (snd (engine_start_lease env ns key ttl e)) = u64_saturating_add n 1"
proof (cases "engine_entry_state (clk env 1) (EntryId ns key) e")
  case StMissing
  then show ?thesis
    using assms
    by (auto simp: engine_start_lease_def start_lease_for_missing_def create_lease_def token_of_def
        Let_def split: if_splits)
next
  case StExpired
  then show ?thesis
    using assms
    by (auto simp: engine_start_lease_def start_lease_for_missing_def create_lease_def token_of_def
        Let_def split: if_splits)
next
  case StFresh
  then have "map_of (entries (touch (EntryId ns key) e)) (EntryId ns key) \<noteq> None"
    by (auto simp: engine_entry_state_def touch_entries split: option.splits)
  then show ?thesis
    using assms StFresh by (auto simp: engine_start_lease_def record_access_touch Let_def)
next
  case StStale
  then show ?thesis
    using assms touch_next_access [of e "EntryId ns key"]
    by (auto simp: engine_start_lease_def create_lease_def token_of_def record_access_touch Let_def
        split: if_splits)
qed

text \<open>Tokens are never reused: whatever happens between two granted leases, of the same key or
  of different keys, their tokens differ, as long as the access counter has not saturated when
  the second one is granted.\<close>

lemma lease_tokens_never_reused:
  assumes "fst (engine_start_lease env ns key ttl e) = SlLeaseGranted token stale"
    and "e' = fold engine_step ops (snd (engine_start_lease env ns key ttl e))"
    and "fst (engine_start_lease env' ns' key' ttl' e') = SlLeaseGranted token' stale'"
    and "next_access e' \<noteq> - 1"
  shows "token \<noteq> token'"
proof -
  obtain n where n: "token = token_of (unat n)"
    "next_access (snd (engine_start_lease env ns key ttl e)) = u64_saturating_add n 1"
    using granted_token [OF assms(1)] by blast
  obtain n' where n': "token' = token_of (unat n')" "next_access e' \<le> n'"
    using granted_token [OF assms(3)] by blast
  have le: "u64_saturating_add n 1 \<le> next_access e'"
    using run_next_access [of _ ops] n(2) assms(2) by metis
  then have "n \<noteq> - 1"
    using assms(4) u64_bump_saturated by (auto simp: word_order.extremum_unique)
  then have "unat n < unat n'"
    using u64_bump [of n] le n'(2) by (simp add: word_le_nat_alt)
  then show ?thesis
    using n(1) n'(1) by (simp add: token_of_inj)
qed

end
