(* ===== verification/Engine_Expiry.thy ===== *)
theory Engine_Expiry
  imports Engine_Props
begin

text \<open>
  Reclaiming expired entries within a budget, the instant at which reclaiming and reading
  disagree, the reads of a batch, and the running totals of memory and cost.
\<close>

section \<open>Reclaiming\<close>

text \<open>The entries whose removal time has come.\<close>

definition due :: "u64 \<Rightarrow> engine \<Rightarrow> entry_id set" where
  "due now e =
     {eid. \<exists>en r. map_of (entries e) eid = Some en \<and> removable en = Some r \<and> r \<le> now}"

lemma due_expiry_keys: "due now e = key_id ` {k \<in> expiry_keys e. key_expires_at_ms k \<le> now}"
proof (intro set_eqI iffI)
  fix eid
  assume "eid \<in> due now e"
  then obtain en r where "map_of (entries e) eid = Some en" "removable en = Some r" "r \<le> now"
    by (auto simp: due_def)
  then show "eid \<in> key_id ` {k \<in> expiry_keys e. key_expires_at_ms k \<le> now}"
    by (intro image_eqI [of _ _ "ExpiryKey r eid"]) (auto simp: expiry_keys_def)
qed (auto simp: due_def expiry_keys_def)

lemma remove_expired_ids_spec:
  assumes "distinct ids" "\<forall>eid \<in> set ids. map_of (entries e) eid \<noteq> None"
  shows "fst (remove_expired_ids ids e) = length ids \<and>
    (\<forall>eid. map_of (entries (snd (remove_expired_ids ids e))) eid =
       (if eid \<in> set ids then None else map_of (entries e) eid)) \<and>
    expirations (stats (snd (remove_expired_ids ids e))) =
      expirations (stats e) + of_nat (length ids)"
  using assms
proof (induction ids arbitrary: e)
  case (Cons x ids)
  let ?e1 = "snd (remove_entry x e)"
  let ?e2 = "?e1\<lparr>stats := (stats ?e1)\<lparr>expirations := expirations (stats ?e1) + 1\<rparr>\<rparr>"
  have "\<forall>eid \<in> set ids. map_of (entries ?e2) eid \<noteq> None"
    using Cons.prems by (auto simp: alist)
  note IH = Cons.IH [of ?e2, OF _ this]
  have "fst (remove_entry x e)"
    using Cons.prems by (simp add: remove_entry_fst)
  then have step: "remove_expired_ids (x # ids) e =
      (Suc (fst (remove_expired_ids ids ?e2)), snd (remove_expired_ids ids ?e2))"
    by (simp add: case_prod_beta Let_def)
  show ?case
    using IH Cons.prems(1) by (simp only: step) (simp add: alist)
qed simp

lemma remove_expired_spec:
  assumes "engine_inv e"
  shows "\<exists>gone.
    fst (remove_expired now budget e) = card gone \<and> card gone \<le> budget \<and>
    (\<forall>eid. map_of (entries (snd (remove_expired now budget e))) eid =
       (if eid \<in> gone then None else map_of (entries e) eid)) \<and>
    expirations (stats (snd (remove_expired now budget e))) =
      expirations (stats e) + of_nat (card gone) \<and>
    gone \<subseteq> due now e \<and> (card gone < budget \<longrightarrow> gone = due now e)"
proof -
  obtain n where n: "pop_expired now budget (expiry_index e) =
      (map key_id (take n (expiry_index e)), drop n (expiry_index e))"
    "n \<le> budget" "n \<le> length (expiry_index e)"
    "\<forall>k \<in> set (take n (expiry_index e)). key_expires_at_ms k \<le> now"
    "n = budget \<or> drop n (expiry_index e) = [] \<or> now < key_expires_at_ms (hd (drop n (expiry_index e)))"
    using pop_expired_split [of now budget "expiry_index e"] by (elim exE conjE) (rule that)
  let ?ids = "map key_id (take n (expiry_index e))"
  have exp: "sorted (expiry_index e)" "distinct (expiry_index e)" "set (expiry_index e) = expiry_keys e"
    using assms by (simp_all add: engine_inv_upto_def expiry_inv_def)
  have take: "set (take n (expiry_index e)) \<subseteq> expiry_keys e"
    using exp(3) set_take_subset by fastforce
  have "inj_on key_id (set (take n (expiry_index e)))"
    using take expiry_keys_key_unique by (intro inj_onI) blast
  then have dist: "distinct ?ids"
    using exp(2) by (simp add: distinct_map)
  have present: "\<forall>eid \<in> set ?ids. map_of (entries (e\<lparr>expiry_index := drop n (expiry_index e)\<rparr>)) eid \<noteq> None"
    using take by (auto simp: expiry_keys_def)
  note spec = remove_expired_ids_spec [OF dist present]
  have sub: "key_id ` set (take n (expiry_index e)) \<subseteq> due now e"
    using take n(4) by (auto simp: due_expiry_keys)
  have all: "key_id ` set (take n (expiry_index e)) = due now e" if "n < budget"
  proof -
    have "now < key_expires_at_ms k" if "k \<in> set (drop n (expiry_index e))" for k
    proof -
      obtain k' ks where ks: "drop n (expiry_index e) = k' # ks"
        using \<open>k \<in> set (drop n (expiry_index e))\<close> by (cases "drop n (expiry_index e)") auto
      have "sorted (k' # ks)"
        using exp(1) ks by (metis sorted_wrt_drop)
      then have "k' \<le> k"
        using that ks by auto
      then show ?thesis
        using n(5) \<open>n < budget\<close> ks by (auto simp: less_eq_expiry_key_def less_eq_prod_def)
    qed
    moreover have "expiry_keys e = set (take n (expiry_index e)) \<union> set (drop n (expiry_index e))"
      using exp(3) by (metis append_take_drop_id set_append)
    ultimately have "{k \<in> expiry_keys e. key_expires_at_ms k \<le> now} \<subseteq> set (take n (expiry_index e))"
      by (auto dest: leD)
    then show ?thesis
      using sub by (auto simp: due_expiry_keys)
  qed
  have "card (set ?ids) = n"
    using distinct_card [OF dist] n(3) by simp
  then show ?thesis
    using spec n(2,3) sub all
    by (intro exI [of _ "set ?ids"]) (simp add: remove_expired_def n(1))
qed

lemma finite_due: "finite (due now e)"
  by (rule finite_subset [of _ "dom (map_of (entries e))"]) (auto simp: due_def finite_dom_map_of)

text \<open>C20. Reclaiming within a budget removes as many of the due entries as the budget allows,
  reports and counts exactly those, and touches no entry that is not due; with a budget for all
  of them none is left.\<close>

theorem reclaim_budget_exact:
  assumes "engine_inv e"
  shows "fst (engine_reclaim_expired_budget now budget e) = min budget (card (due now e)) \<and>
    expirations (stats (snd (engine_reclaim_expired_budget now budget e))) =
      expirations (stats e) + of_nat (min budget (card (due now e))) \<and>
    (\<forall>eid. eid \<notin> due now e \<longrightarrow>
       map_of (entries (snd (engine_reclaim_expired_budget now budget e))) eid =
         map_of (entries e) eid) \<and>
    card (due now (snd (engine_reclaim_expired_budget now budget e))) = card (due now e) - budget"
proof -
  obtain gone where gone: "fst (remove_expired now budget e) = card gone" "card gone \<le> budget"
    "\<forall>eid. map_of (entries (snd (remove_expired now budget e))) eid =
       (if eid \<in> gone then None else map_of (entries e) eid)"
    "expirations (stats (snd (remove_expired now budget e))) =
      expirations (stats e) + of_nat (card gone)"
    "gone \<subseteq> due now e" "card gone < budget \<longrightarrow> gone = due now e"
    using remove_expired_spec [OF assms, of now budget] by blast
  have min: "card gone = min budget (card (due now e))"
    using card_mono [OF finite_due gone(5)] gone(2,6) by (cases "card gone < budget") auto
  have "due now (snd (remove_expired now budget e)) = due now e - gone"
    using gone(3) by (auto simp: due_def)
  then have "card (due now (snd (remove_expired now budget e))) = card (due now e) - card gone"
    using gone(5) by (simp add: card_Diff_subset finite_subset [OF gone(5) finite_due])
  then have "card (due now (snd (remove_expired now budget e))) = card (due now e) - budget"
    using min by simp
  moreover have "\<forall>eid. eid \<notin> due now e \<longrightarrow>
      map_of (entries (snd (remove_expired now budget e))) eid = map_of (entries e) eid"
    using gone(3,5) by auto
  ultimately show ?thesis
    by (simp add: gone(1,4) min)
qed

lemma sample_due: "due 160 sample_engine = {EntryId ''ns'' [1]}"
  by (auto simp: due_def sample_engine_entries stored_entry_def removable_def removable_at_ms_def
      sample_put_def expires_at_of_def stale_until_of_def u64_saturating_add_def split: if_splits)

theorem reclaim_budget_exact_witness:
  "fst (engine_reclaim_expired_budget 160 1024 sample_engine) = 1 \<and>
   fst (engine_reclaim_expired_budget 160 0 sample_engine) = 0"
  using reclaim_budget_exact [OF sample_engine_inv, of 160 1024]
    reclaim_budget_exact [OF sample_engine_inv, of 160 0]
  by (simp add: sample_due)

section \<open>The number of entries\<close>

lemma estimate_entry_memory_ge: "ENTRY_OVERHEAD_BYTES \<le> estimate_entry_memory eid val tags"
  by (simp add: estimate_entry_memory_def usize_saturating_add_def ENTRY_OVERHEAD_BYTES_def usize_max_def)

lemma sum_list_ge_each:
  "\<forall>p \<in> set es. c \<le> f (snd p) \<Longrightarrow> c * length es \<le> sum_list (map (\<lambda>(_, v). f v :: nat) es)"
  by (induction es) fastforce+

lemma entries_le_memory:
  assumes "engine_inv e"
  shows "ENTRY_OVERHEAD_BYTES * length (entries e) \<le> memory_used_bytes e"
proof -
  have "\<forall>p \<in> set (entries e). ENTRY_OVERHEAD_BYTES \<le> en_memory_bytes (snd p)"
    using assms estimate_entry_memory_ge
    by (fastforce simp: engine_inv_upto_def memory_inv_def entry_ok_def)
  then have "ENTRY_OVERHEAD_BYTES * length (entries e) \<le> memory_total e"
    unfolding memory_total_def by (rule sum_list_ge_each)
  then show ?thesis
    using assms by (simp add: engine_inv_upto_def memory_inv_def)
qed

text \<open>Memory use never exceeds the limit, and it bounds the number of entries: each one is
  accounted with at least the fixed overhead.\<close>

lemma memory_bounds_entries:
  assumes "max_memory_bytes lim < usize_max" "list_all op_ok ops"
    and "e = fold engine_step ops (engine_with_limits lim)"
  shows "memory_used_bytes e \<le> max_memory_bytes lim \<and>
    ENTRY_OVERHEAD_BYTES * engine_len e \<le> memory_used_bytes e"
proof -
  have "engine_inv e"
    unfolding assms(3) by (intro eng.inv_run engine_with_limits_inv assms(1,2))
  moreover have "limits e = lim"
    unfolding assms(3) eng.fixed_run by (simp add: engine_with_limits_def)
  ultimately show ?thesis
    using entries_le_memory by (auto simp: engine_inv_upto_def memory_inv_def engine_len_def)
qed

text \<open>At the very instant at which an entry becomes removable, a read still serves it but
  reclaiming removes it: the two ends of the time window are not treated alike.\<close>

lemma reclaim_removes_servable_entry:
  assumes "engine_inv e" "map_of (entries e) (EntryId ns key) = Some en"
    and "removable en = Some (clk env 0)"
  shows "fst (engine_get env ns key e) \<noteq> OutMiss \<and>
    fst (engine_get env ns key (snd (engine_reclaim_expired (clk env 0) e))) = OutMiss"
proof -
  have "entry_ok (limits e) (EntryId ns key) en"
    using assms(1,2) by (simp add: engine_inv_upto_def memory_inv_def)
  then have "entry_state_at en (clk env 0) \<in> {StFresh, StStale}"
    using assms(3)
    by (auto simp: entry_ok_def removable_def removable_at_ms_def entry_state_at_def
        split: option.splits)
  then have served: "fst (engine_get env ns key e) \<noteq> OutMiss"
    using assms(2)
    by (auto simp: engine_get_def get_ref_def get_ref_inner_unfold engine_entry_state_def)
  have "due (clk env 0) e \<subseteq> set (map fst (entries e))"
    by (force simp: due_def dest: map_of_SomeD)
  then have "card (due (clk env 0) e) \<le> length (entries e)"
    using card_mono [of "set (map fst (entries e))"] card_length [of "map fst (entries e)"]
    by (metis List.finite_set length_map order_trans)
  also have "\<dots> \<le> usize_max"
    using entries_le_memory [OF assms(1)] memory_bounded [OF assms(1)] assms(1)
    by (simp add: engine_inv_upto_def memory_inv_def ENTRY_OVERHEAD_BYTES_def)
  finally have few: "card (due (clk env 0) e) \<le> usize_max" .
  obtain gone where gone: "card gone \<le> usize_max"
    "\<forall>eid. map_of (entries (snd (remove_expired (clk env 0) usize_max e))) eid =
       (if eid \<in> gone then None else map_of (entries e) eid)"
    "gone \<subseteq> due (clk env 0) e" "card gone < usize_max \<longrightarrow> gone = due (clk env 0) e"
    using remove_expired_spec [OF assms(1), of "clk env 0" usize_max] by blast
  have "gone = due (clk env 0) e"
    using gone few card_subset_eq [OF finite_due gone(3)] card_mono [OF finite_due gone(3)]
    by (cases "card gone < usize_max") auto
  then have "map_of (entries (snd (remove_expired (clk env 0) usize_max e))) (EntryId ns key) = None"
    using gone(2) assms(2,3) by (auto simp: due_def)
  then show ?thesis
    using served by (simp add: engine_get_def get_ref_def get_ref_inner_unfold engine_entry_state_def)
qed

section \<open>The cost total\<close>

definition cost_exact :: "engine \<Rightarrow> bool" where
  "cost_exact e \<longleftrightarrow> distinct (map fst (entries e)) \<and> unat (cost_score_total e) = cost_total e"

lemma cost_exact_remove_entry: "cost_exact e \<Longrightarrow> cost_exact (snd (remove_entry eid e))"
proof (cases "map_of (entries e) eid")
  case (Some en)
  assume "cost_exact e"
  then have dist: "distinct (map fst (entries e))" and total: "unat (cost_score_total e) = cost_total e"
    by (auto simp: cost_exact_def)
  have "cost_total e = unat (cost_of en) + cost_total (snd (remove_entry eid e))"
    using sum_list_delete [OF dist Some, of "\<lambda>(_, en). unat (cost_of en)"]
    by (simp add: cost_total_def)
  moreover have "cost_score_total (snd (remove_entry eid e)) =
      u64_saturating_sub (cost_score_total e) (cost_of en)"
    using Some by (simp add: remove_entry_def cost_of_def)
  ultimately show ?thesis
    using total dist by (simp add: cost_exact_def u64_unat alist)
qed (simp add: remove_entry_None)

interpretation cost: removal_closed cost_exact
  by unfold_locales (rule cost_exact_remove_entry, assumption, simp_all add: cost_exact_def cost_total_def)

lemma cost_exact_put_store:
  assumes "cost_exact e" "map_of (entries e) (put_id cmd) = None"
    and "cost_total (put_store now b cmd e) < 2 ^ 64"
  shows "cost_exact (put_store now b cmd e)"
proof -
  have "cost_total (put_store now b cmd e) = cost_total e + unat (cost_of (stored_entry now b cmd (next_access e)))"
    using assms(2) by (simp add: cost_total_def put_store_fields sum_list_update_fresh)
  then show ?thesis
    using assms by (simp add: cost_exact_def put_store_fields alist u64_unat)
qed

lemma cost_exact_put:
  assumes "cost_exact e" "cost_total (snd (engine_put env cmd e)) < 2 ^ 64"
  shows "cost_exact (snd (engine_put env cmd e))"
proof -
  have "cost_exact (snd (put_prepare env cmd e))"
    using assms(1) by (intro cost.closed_put_prepare cost_exact_remove_entry)
  then show ?thesis
    using assms cost_exact_put_store [OF _ put_prepare_fresh]
    by (auto simp: engine_put_unfold case_prod_beta split: if_splits)
qed

lemma cost_exact_touch: "cost_exact (touch eid e) = cost_exact e"
proof -
  have "distinct (map fst (entries (touch eid e))) = distinct (map fst (entries e))"
    by (auto simp: touch_def alist update_keys split: option.split dest: map_of_SomeD)
  then show ?thesis
    by (simp add: cost_exact_def)
qed

lemma cost_exact_leases [simp]:
  "cost_exact (e\<lparr>leases := ls\<rparr>) = cost_exact e"
  "cost_exact (snd (create_lease now eid ttl e)) = cost_exact e"
  by (simp_all add: cost_exact_def cost_total_def create_lease_def Let_def)

lemma cost_exact_get_ref_inner: "cost_exact e \<Longrightarrow> cost_exact (snd (get_ref_inner env ns key upd f e))"
  by (simp add: get_ref_inner_unfold cost_exact_touch cost_exact_remove_entry split: entry_state.split)

lemma cost_exact_batch_get: "cost_exact e \<Longrightarrow> cost_exact (snd (engine_batch_get env ns keys e))"
proof (induction keys arbitrary: env e)
  case (Cons key keys)
  then show ?case
    using cost_exact_get_ref_inner [OF Cons.prems, of env ns key True outcome_of_ref]
    by (simp add: engine_get_def get_ref_def case_prod_beta Let_def)
qed simp

lemma cost_exact_step:
  assumes "cost_exact e" "cost_total (engine_step op e) < 2 ^ 64"
  shows "cost_exact (engine_step op e)"
proof (cases op)
  case (OpCompleteLease env cmd)
  then show ?thesis
    using assms by (auto simp: engine_step_def engine_complete_lease_def Let_def case_prod_beta
        intro!: cost_exact_put split: option.splits if_splits)
next
  case (OpStartLease env ns key ttl)
  then show ?thesis
    using assms(1)
    by (auto simp: engine_step_def engine_start_lease_def start_lease_for_missing_def Let_def
        record_access_touch case_prod_beta cost_exact_touch cost_exact_remove_entry
        split: entry_state.split option.split)
qed (use assms in \<open>simp_all add: engine_step_def cost_exact_put engine_get_def get_ref_def
    get_ref_without_access_update_def cost_exact_get_ref_inner cost_exact_batch_get
    engine_delete_def Let_def cost_exact_remove_entry cost.closed_invalidate_tag
    cost.closed_remove_expired\<close>)

text \<open>The running cost total is the sum of the cost hints of the entries held, after every
  sequence of calls along which that sum stays below the range of the counter.\<close>

lemma cost_total_exact:
  assumes "\<forall>k \<le> length ops. cost_total (fold engine_step (take k ops) (engine_with_limits lim)) < 2 ^ 64"
  shows "unat (cost_score_total (fold engine_step ops (engine_with_limits lim))) =
    cost_total (fold engine_step ops (engine_with_limits lim))"
proof -
  have "cost_exact (fold engine_step ops (engine_with_limits lim))"
    using assms
  proof (induction ops rule: rev_induct)
    case Nil
    then show ?case
      by (simp add: cost_exact_def engine_with_limits_def cost_total_def)
  next
    case (snoc op ops)
    have "\<forall>k \<le> length ops. cost_total (fold engine_step (take k ops) (engine_with_limits lim)) < 2 ^ 64"
    proof (intro allI impI)
      fix k
      assume "k \<le> length ops"
      then show "cost_total (fold engine_step (take k ops) (engine_with_limits lim)) < 2 ^ 64"
        using snoc.prems [rule_format, of k] by simp
    qed
    then have "cost_exact (fold engine_step ops (engine_with_limits lim))"
      by (rule snoc.IH)
    then show ?case
      using snoc.prems [rule_format, of "Suc (length ops)"] by (simp add: cost_exact_step)
  qed
  then show ?thesis
    by (simp add: cost_exact_def)
qed

definition saturating_puts :: "engine_op list" where
  "saturating_puts =
     [OpPut (sample_env 1) (sample_put\<lparr>pc_cost := Some (- 1)\<rparr>),
      OpPut (sample_env 1) (sample_put\<lparr>pc_key := [2], pc_cost := Some (- 1)\<rparr>),
      OpDelete ''ns'' [1]]"

text \<open>Once the sum has left that range the total no longer matches: two entries with the
  largest cost saturate the counter, and after one of them is deleted it reads zero.\<close>

lemma cost_total_drifts_after_saturation:
  "cost_score_total (fold engine_step saturating_puts (engine_with_limits sample_limits)) = 0 \<and>
   cost_total (fold engine_step saturating_puts (engine_with_limits sample_limits)) = 2 ^ 64 - 1"
  by (simp add: saturating_puts_def engine_step_def engine_put_def engine_delete_def Let_def
      sample_put_def sample_limits_def engine_with_limits_def estimate_entry_memory_def
      ENTRY_OVERHEAD_BYTES_def usize_saturating_add_def usize_max_def remove_entry_def
      evict_until_fits.simps put_store_def bump_access_def u64_saturating_add_def
      u64_saturating_sub_def cost_total_def cost_of_def unat_max_u64)

end
