(* ===== verification/Cache_Spec.thy ===== *)
theory Cache_Spec
  imports Engine_Leases Engine_Expiry
begin

text \<open>
  What the cache promises, without shards, indexes, limits or access numbers: a map from keys to
  values with their times and tags, which a lossy cache may forget from but never contradict.
  The engine refines it: whatever it returns is the last value written that is still in its time
  window and has been neither deleted nor invalidated.
\<close>

section \<open>The specification\<close>

record spec_entry =
  sp_value :: bytes
  sp_expires_at :: "u64 option"
  sp_stale_until :: "u64 option"
  sp_tags :: "tag_id set"

type_synonym cache = "entry_id \<rightharpoonup> spec_entry"

definition spec_read :: "u64 \<Rightarrow> spec_entry option \<Rightarrow> get_outcome" where
  "spec_read now s =
     (case s of
        None \<Rightarrow> OutMiss
      | Some sp \<Rightarrow>
          (case sp_expires_at sp of
             None \<Rightarrow> OutHit (sp_value sp)
           | Some x \<Rightarrow>
               if now \<le> x then OutHit (sp_value sp)
               else (case sp_stale_until sp of
                       None \<Rightarrow> OutMiss
                     | Some y \<Rightarrow> if now \<le> y then OutStale (sp_value sp) else OutMiss)))"

definition spec_write :: "u64 \<Rightarrow> put_command \<Rightarrow> cache \<Rightarrow> cache" where
  "spec_write now cmd m =
     m(put_id cmd \<mapsto>
        \<lparr>sp_value = pc_value cmd, sp_expires_at = expires_at_of now cmd,
         sp_stale_until = stale_until_of now cmd,
         sp_tags = set (tag_ids (pc_namespace cmd) (pc_tags cmd))\<rparr>)"

definition spec_tagged :: "tag_id \<Rightarrow> cache \<Rightarrow> entry_id set" where
  "spec_tagged t m = {eid. \<exists>sp. m eid = Some sp \<and> t \<in> sp_tags sp}"

text \<open>The effect of a call on the specification depends only on whether a write was accepted.\<close>

definition spec_next :: "engine_op \<Rightarrow> engine_result \<Rightarrow> cache \<Rightarrow> cache" where
  "spec_next op r m =
     (case op of
        OpPut env cmd \<Rightarrow>
          (case r of ResPut (Inr ok) \<Rightarrow> spec_write (clk env 0) cmd m | _ \<Rightarrow> m)
      | OpCompleteLease env cmd \<Rightarrow>
          (case r of ResComplete (Inr ok) \<Rightarrow> spec_write (clk env 1) (lease_put cmd) m | _ \<Rightarrow> m)
      | OpDelete ns key \<Rightarrow> m(EntryId ns key := None)
      | OpInvalidateTag env ns tag \<Rightarrow> m |` (- spec_tagged (TagId ns tag) m)
      | _ \<Rightarrow> m)"

text \<open>The results that the specification allows: a read may miss, but what it returns is the
  specified value in the specified state.\<close>

definition spec_lease_answer :: "get_outcome \<Rightarrow> start_lease_outcome \<Rightarrow> bool" where
  "spec_lease_answer expected out =
     (case out of
        SlHit v \<Rightarrow> expected = OutHit v
      | SlStale v \<Rightarrow> expected = OutStale v
      | SlLeaseGranted token (Some v) \<Rightarrow> expected = OutStale v
      | _ \<Rightarrow> True)"

fun spec_answer :: "engine_op \<Rightarrow> engine_result \<Rightarrow> cache \<Rightarrow> bool" where
  "spec_answer (OpGet env ns key) r m =
     (r \<in> ResGet ` {OutMiss, spec_read (clk env 0) (m (EntryId ns key))})"
| "spec_answer (OpGetQuiet env ns key) r m =
     (\<exists>out. r = ResRef out \<and>
        outcome_of_ref out \<in> {OutMiss, spec_read (clk env 0) (m (EntryId ns key))})"
| "spec_answer (OpBatchGet env ns keys) r m =
     (\<exists>outs. r = ResBatch outs \<and> length outs = length keys \<and>
        (\<forall>i < length keys.
           outs ! i \<in> {OutMiss, spec_read (clk env i) (m (EntryId ns (keys ! i)))}))"
| "spec_answer (OpStartLease env ns key ttl) r m =
     (\<exists>out. r = ResLease out \<and> spec_lease_answer (spec_read (clk env 1) (m (EntryId ns key))) out)"
| "spec_answer (OpDelete ns key) r m =
     (\<exists>b. r = ResDeleted b \<and> (b \<longrightarrow> m (EntryId ns key) \<noteq> None))"
| "spec_answer (OpInvalidateTag env ns tag) r m =
     (\<exists>n. r = ResCount n \<and> n \<le> card (spec_tagged (TagId ns tag) m))"
| "spec_answer (OpPut env cmd) r m = (\<exists>out. r = ResPut out)"
| "spec_answer (OpCompleteLease env cmd) r m = (\<exists>out. r = ResComplete out)"
| "spec_answer (OpReclaim env n) r m = (\<exists>k. r = ResCount k \<and> k \<le> n)"

section \<open>The abstraction\<close>

definition spec_entry_of :: "entry_id \<Rightarrow> entry \<Rightarrow> spec_entry" where
  "spec_entry_of eid en =
     \<lparr>sp_value = en_value en, sp_expires_at = en_expires_at_ms en,
      sp_stale_until = en_stale_until_ms en,
      sp_tags = set (tag_ids (id_namespace eid) (en_tags en))\<rparr>"

definition cache_of :: "engine \<Rightarrow> cache" where
  "cache_of e = (\<lambda>eid. map_option (spec_entry_of eid) (map_of (entries e) eid))"

definition refines :: "engine \<Rightarrow> cache \<Rightarrow> bool" where
  "refines e m \<longleftrightarrow> engine_inv e \<and> cache_of e \<subseteq>\<^sub>m m \<and> finite (dom m)"

lemma refines_SomeD:
  "refines e m \<Longrightarrow> map_of (entries e) eid = Some en \<Longrightarrow> m eid = Some (spec_entry_of eid en)"
  by (auto simp: refines_def cache_of_def map_le_def dom_def)

lemma cache_of_shrinks: "shrinks e' e \<Longrightarrow> cache_of e' \<subseteq>\<^sub>m cache_of e"
  using shrinks_SomeD by (fastforce simp: cache_of_def map_le_def)

lemma cache_of_touch [simp]: "cache_of (touch eid e) = cache_of e"
  by (rule ext) (simp add: cache_of_def touch_entries option.map_comp comp_def spec_entry_of_def [abs_def])

lemma cache_of_leases [simp]: "cache_of (e\<lparr>leases := ls\<rparr>) = cache_of e"
  by (simp add: cache_of_def)

lemma cache_of_create_lease [simp]: "cache_of (snd (create_lease now eid ttl e)) = cache_of e"
  by (simp add: cache_of_def create_lease_def Let_def)

lemma cache_of_remove_entry: "cache_of (snd (remove_entry eid e)) \<subseteq>\<^sub>m cache_of e"
  by (rule cache_of_shrinks [OF remove_entry_shrinks_engine])

lemma cache_of_put_store:
  "cache_of (put_store now b cmd e) = spec_write now cmd (cache_of e)"
  by (auto simp: cache_of_def put_store_fields alist spec_write_def spec_entry_of_def
      stored_entry_def put_id_def fun_eq_iff)

lemma spec_write_mono: "m \<subseteq>\<^sub>m m' \<Longrightarrow> spec_write now cmd m \<subseteq>\<^sub>m spec_write now cmd m'"
  by (auto simp: spec_write_def map_le_def)

lemma cache_of_put:
  "cache_of (snd (engine_put env cmd e)) \<subseteq>\<^sub>m
     (case fst (engine_put env cmd e) of
        Inl err \<Rightarrow> cache_of e | Inr ok \<Rightarrow> spec_write (clk env 0) cmd (cache_of e))"
  using cache_of_shrinks [OF put_prepare_shrinks_engine, of env cmd e]
  by (simp add: engine_put_unfold case_prod_beta cache_of_put_store spec_write_mono Let_def)

lemma cache_of_get_ref_inner: "cache_of (snd (get_ref_inner env ns key upd f e)) \<subseteq>\<^sub>m cache_of e"
  by (simp add: get_ref_inner_unfold cache_of_remove_entry split: entry_state.split)

lemma cache_of_batch_get: "cache_of (snd (engine_batch_get env ns keys e)) \<subseteq>\<^sub>m cache_of e"
proof (induction keys arbitrary: env e)
  case (Cons key keys)
  then show ?case
    using map_le_trans [OF Cons.IH cache_of_get_ref_inner]
    by (simp add: engine_get_def get_ref_def case_prod_beta Let_def)
qed simp

lemma spec_tagged_mono: "m \<subseteq>\<^sub>m m' \<Longrightarrow> spec_tagged t m \<subseteq> spec_tagged t m'"
  by (force simp: spec_tagged_def map_le_def)

lemma spec_tagged_cache_of: "spec_tagged t (cache_of e) = {eid. has_tag e eid t}"
  by (auto simp: spec_tagged_def cache_of_def has_tag_def spec_entry_of_def split: option.splits)

lemma finite_spec_tagged: "finite (dom m) \<Longrightarrow> finite (spec_tagged t m)"
  by (rule finite_subset [of _ "dom m"]) (auto simp: spec_tagged_def)

lemma cache_of_invalidate_tag:
  assumes "refines e m" "env_ok env"
  shows "cache_of (snd (engine_invalidate_tag env ns tag e)) \<subseteq>\<^sub>m m |` (- spec_tagged (TagId ns tag) m)"
proof -
  have inv: "engine_inv e"
    using assms(1) by (simp add: refines_def)
  have entries: "map_of (entries (snd (engine_invalidate_tag env ns tag e))) eid =
      (if has_tag e eid (TagId ns tag) then None else map_of (entries e) eid)" for eid
    by (rule invalidate_tag_entries [OF inv assms(2)])
  have "m eid = Some (spec_entry_of eid en) \<and> eid \<notin> spec_tagged (TagId ns tag) m"
    if "map_of (entries e) eid = Some en" "\<not> has_tag e eid (TagId ns tag)" for eid en
    using refines_SomeD [OF assms(1) that(1)] that
    by (auto simp: spec_tagged_def has_tag_def spec_entry_of_def)
  then show ?thesis
    by (auto simp: map_le_def cache_of_def entries restrict_map_def dom_def split: if_splits)
qed

lemma spec_read_engine:
  assumes "refines e m"
  shows "fst (get_ref_inner env ns key upd outcome_of_ref e) \<in>
    {OutMiss, spec_read (clk env 0) (m (EntryId ns key))}"
proof (cases "map_of (entries e) (EntryId ns key)")
  case (Some en)
  then show ?thesis
    using refines_SomeD [OF assms Some]
    by (auto simp: get_ref_inner_unfold engine_entry_state_def entry_state_at_def spec_read_def
        spec_entry_of_def split: option.split)
qed (simp add: get_ref_inner_unfold engine_entry_state_def)

lemma refines_le: "refines e m \<Longrightarrow> engine_inv e' \<Longrightarrow> cache_of e' \<subseteq>\<^sub>m cache_of e \<Longrightarrow> refines e' m"
  by (auto simp: refines_def intro: map_le_trans)

lemma spec_answer_batch_get:
  assumes "refines e m"
  shows "spec_answer (OpBatchGet env ns keys) (ResBatch (fst (engine_batch_get env ns keys e))) m"
  using assms
proof (induction keys arbitrary: env e)
  case (Cons key keys)
  let ?e1 = "snd (engine_get env ns key e)"
  have inv: "engine_inv e"
    using Cons.prems by (simp add: refines_def)
  have "refines ?e1 m"
    by (rule refines_le [OF Cons.prems engine_get_inv [OF inv]])
      (simp add: engine_get_def get_ref_def cache_of_get_ref_inner)
  note IH = Cons.IH [OF this, of "env_tick 1 env"]
  have "fst (engine_get env ns key e) \<in> {OutMiss, spec_read (clk env 0) (m (EntryId ns key))}"
    using spec_read_engine [OF Cons.prems] by (simp add: engine_get_def get_ref_def)
  then show ?case
    using IH by (auto simp: case_prod_beta Let_def env_tick_def All_less_Suc2)
qed simp

lemma spec_answer_start_lease:
  assumes "refines e m"
  shows "spec_answer (OpStartLease env ns key ttl) (ResLease (fst (engine_start_lease env ns key ttl e))) m"
proof (cases "map_of (entries e) (EntryId ns key)")
  case None
  then show ?thesis
    by (simp add: engine_start_lease_def engine_entry_state_def start_lease_for_missing_def
        case_prod_beta Let_def spec_lease_answer_def)
next
  case (Some en)
  then have touched: "map_of (entries (touch (EntryId ns key) e)) (EntryId ns key) =
      Some (en\<lparr>en_last_access := next_access e\<rparr>)"
    by (simp add: touch_entries)
  have "spec_read (clk env 1) (m (EntryId ns key)) =
      (case entry_state_at en (clk env 1) of
         StFresh \<Rightarrow> OutHit (en_value en) | StStale \<Rightarrow> OutStale (en_value en) | _ \<Rightarrow> OutMiss)"
    using refines_SomeD [OF assms Some]
    by (auto simp: spec_read_def spec_entry_of_def entry_state_at_def split: option.split)
  then show ?thesis
    using Some touched
    by (cases "entry_state_at en (clk env 1)")
      (simp_all add: engine_start_lease_def engine_entry_state_def start_lease_for_missing_def
        case_prod_beta Let_def record_access_touch spec_lease_answer_def)
qed

section \<open>The engine refines the specification\<close>

lemma cache_of_start_lease: "cache_of (snd (engine_start_lease env ns key ttl e)) \<subseteq>\<^sub>m cache_of e"
  by (simp add: engine_start_lease_def start_lease_for_missing_def Let_def record_access_touch
      case_prod_beta cache_of_remove_entry split: entry_state.split option.split)

lemma cache_of_step:
  assumes "refines e m" "op_ok op"
  shows "cache_of (engine_step op e) \<subseteq>\<^sub>m spec_next op (fst (engine_exec op e)) m"
proof -
  have le: "cache_of e \<subseteq>\<^sub>m m"
    using assms(1) by (simp add: refines_def)
  have put: "cache_of (snd (engine_put env cmd e')) \<subseteq>\<^sub>m
      (case fst (engine_put env cmd e') of Inl err \<Rightarrow> m | Inr ok \<Rightarrow> spec_write (clk env 0) cmd m)"
    if "cache_of e' = cache_of e" for env cmd e'
    using cache_of_put [of env cmd e'] that le
    by (auto split: sum.splits intro: map_le_trans spec_write_mono)
  show ?thesis
  proof (cases op)
    case (OpPut env cmd)
    then show ?thesis
      using put [of e env cmd] by (auto simp: engine_step_def spec_next_def split: sum.splits)
  next
    case (OpCompleteLease env cmd)
    let ?e1 = "e\<lparr>leases := AList.delete (EntryId (cl_namespace cmd) (cl_key cmd)) (leases e)\<rparr>"
    show ?thesis
      using put [of ?e1 "env_tick 1 env" "lease_put cmd"] le OpCompleteLease
      by (auto simp: engine_step_def engine_complete_lease_def Let_def case_prod_beta env_tick_def
          lease_put_def spec_next_def split: sum.splits option.splits)
  next
    case (OpInvalidateTag env ns tag)
    then show ?thesis
      using cache_of_invalidate_tag [OF assms(1)] assms(2) by (simp add: engine_step_def spec_next_def)
  next
    case (OpDelete ns key)
    then show ?thesis
      using le by (auto simp: engine_step_def engine_delete_def Let_def cache_of_def map_le_def
          alist dom_def spec_next_def split: if_splits)
  next
    case (OpReclaim env n)
    then show ?thesis
      using map_le_trans [OF cache_of_shrinks [OF remove_expired_shrinks] le]
      by (simp add: engine_step_def spec_next_def)
  qed (use le in \<open>auto simp: engine_step_def spec_next_def engine_get_def get_ref_def
      get_ref_without_access_update_def
      intro: map_le_trans [OF cache_of_get_ref_inner] map_le_trans [OF cache_of_batch_get]
        map_le_trans [OF cache_of_start_lease]\<close>)
qed

lemma finite_dom_spec_next: "finite (dom m) \<Longrightarrow> finite (dom (spec_next op r m))"
  by (auto simp: spec_next_def spec_write_def split: engine_op.split engine_result.split sum.split)

lemma refines_step:
  "refines e m \<Longrightarrow> op_ok op \<Longrightarrow> refines (snd (engine_exec op e)) (spec_next op (fst (engine_exec op e)) m)"
  using cache_of_step [of e m op] engine_step_inv [of e op]
  by (simp add: refines_def finite_dom_spec_next engine_step_def)

lemma reclaim_count_le: "engine_inv e \<Longrightarrow> fst (remove_expired now budget e) \<le> budget"
  using remove_expired_spec [of e now budget] by auto

lemma spec_answer_step:
  assumes "refines e m" "op_ok op"
  shows "spec_answer op (fst (engine_exec op e)) m"
proof (cases op)
  case (OpInvalidateTag env ns tag)
  have "card {eid. has_tag e eid (TagId ns tag)} \<le> card (spec_tagged (TagId ns tag) m)"
    using assms(1) spec_tagged_mono [of "cache_of e" m "TagId ns tag"]
    by (auto simp: refines_def spec_tagged_cache_of intro!: card_mono finite_spec_tagged)
  then show ?thesis
    using OpInvalidateTag assms invalidate_tag_count [of e env ns tag] by (simp add: refines_def)
next
  case (OpDelete ns key)
  then show ?thesis
    using refines_SomeD [OF assms(1), of "EntryId ns key"]
    by (auto simp: engine_delete_def Let_def remove_entry_fst)
next
  case (OpGetQuiet env ns key)
  have "outcome_of_ref (fst (get_ref_inner env ns key False (\<lambda>r. r) e)) =
      fst (get_ref_inner env ns key False outcome_of_ref e)"
    by (simp add: get_ref_inner_unfold split: entry_state.split)
  then show ?thesis
    using OpGetQuiet spec_read_engine [OF assms(1), of env ns key False]
    by (simp add: get_ref_without_access_update_def)
next
  case (OpGet env ns key)
  then show ?thesis
    using spec_read_engine [OF assms(1)] by (simp add: engine_get_def get_ref_def)
next
  case (OpReclaim env n)
  then show ?thesis
    using assms(1) by (simp add: refines_def reclaim_count_le)
next
  case (OpBatchGet env ns keys)
  then show ?thesis
    using spec_answer_batch_get [OF assms(1)] by simp
next
  case (OpStartLease env ns key ttl)
  then show ?thesis
    using spec_answer_start_lease [OF assms(1)] by simp
qed simp_all

interpretation cache: simulation engine_exec op_ok spec_answer spec_next refines
  by unfold_locales (simp_all add: refines_step spec_answer_step)

lemma refines_empty: "max_memory_bytes lim < usize_max \<Longrightarrow> refines (engine_with_limits lim) Map.empty"
  using engine_with_limits_inv [of lim] by (simp add: refines_def cache_of_def engine_with_limits_def map_le_def)

text \<open>C11. The engine is coherent: in every sequence of calls on a fresh engine, each result is one
  that the specification allows after the calls before it. A read, single, batched or of a lease,
  returns only the value last written under the key, in the state that its TTL and stale TTL
  give it at the time of the read, and never a value that was deleted or invalidated since.\<close>

theorem engine_coherent:
  assumes "max_memory_bytes lim < usize_max" "list_all op_ok ops"
  shows "trace_ok spec_answer spec_next (fst (trace engine_exec ops (engine_with_limits lim))) Map.empty"
  by (rule cache.sim_trace_ok [OF refines_empty [OF assms(1)] assms(2)])

theorem engine_coherent_witness:
  "trace_ok spec_answer spec_next
     (fst (trace engine_exec
        [OpPut (sample_env 100) sample_put, OpInvalidateTag (sample_env 101) ''ns'' ''t'',
         OpGet (sample_env 102) ''ns'' [1]] (engine_with_limits sample_limits))) Map.empty"
  by (rule engine_coherent) (simp_all add: sample_limits_def usize_max_def)

end
