(* ===== verification/Sharded.thy ===== *)
theory Sharded
  imports Cache_Spec
begin

text \<open>
  The sharded cache of src/engine.rs: engines behind locks, a key hashed to its shard, and a
  directory from tags to the shards that may hold an entry with the tag. Here each call runs
  alone; the interleaving of its two critical sections is the subject of \<open>Sharded_Races\<close>. The
  hash function is a parameter, since the standard library leaves it unspecified.
\<close>

section \<open>State and operations\<close>

type_synonym hasher = "string \<Rightarrow> bytes \<Rightarrow> u64"

definition DEFAULT_SHARD_COUNT :: usize where
  "DEFAULT_SHARD_COUNT = 16"

record sharded_engine =
  shards :: "engine list"
  tag_directory :: "(tag_id \<times> nat list) list"
  sharded_limits :: engine_limits

definition div_ceil :: "usize \<Rightarrow> usize \<Rightarrow> usize" where
  "div_ceil a b = (if a mod b = 0 then a div b else a div b + 1)"

text \<open>The assertion on the shard count is a branch: the constructor panics without a shard.\<close>

definition sharded_with_clock_and_limits :: "engine_limits \<Rightarrow> usize \<Rightarrow> sharded_engine option" where
  "sharded_with_clock_and_limits lim shard_count =
     (if shard_count > 0
      then (let shard_limits = \<lparr>max_memory_bytes = div_ceil (max_memory_bytes lim) shard_count,
                                max_value_bytes = max_value_bytes lim\<rparr>
            in Some \<lparr>shards = map (\<lambda>_. engine_with_limits shard_limits) [0..<shard_count],
                     tag_directory = [], sharded_limits = lim\<rparr>)
      else None)"

definition sharded_with_limits :: "engine_limits \<Rightarrow> sharded_engine option" where
  "sharded_with_limits lim = sharded_with_clock_and_limits lim DEFAULT_SHARD_COUNT"

definition shard_index_for :: "hasher \<Rightarrow> string \<Rightarrow> bytes \<Rightarrow> sharded_engine \<Rightarrow> usize" where
  "shard_index_for h ns key s = unat (h ns key) mod length (shards s)"

definition update_tag_routes ::
  "usize \<Rightarrow> tag_id list \<Rightarrow> tag_id list \<Rightarrow> sharded_engine \<Rightarrow> sharded_engine" where
  "update_tag_routes shard_index add_tags remove_tags s =
     (if add_tags = [] \<and> remove_tags = [] then s
      else s\<lparr>tag_directory :=
               fold (\<lambda>t. mi_insert t shard_index) add_tags
                 (fold (\<lambda>t. mi_remove t shard_index) remove_tags (tag_directory s))\<rparr>)"

text \<open>A call on one shard, under its lock.\<close>

definition with_shard :: "usize \<Rightarrow> (engine \<Rightarrow> 'r \<times> engine) \<Rightarrow> sharded_engine \<Rightarrow> 'r \<times> sharded_engine" where
  "with_shard i f s =
     (let (r, shard) = f (shards s ! i) in (r, s\<lparr>shards := (shards s)[i := shard]\<rparr>))"

definition sharded_put ::
  "hasher \<Rightarrow> env \<Rightarrow> put_command \<Rightarrow> sharded_engine \<Rightarrow> (put_error + put_outcome) \<times> sharded_engine" where
  "sharded_put h env cmd s =
     (let new_tags = tag_ids (pc_namespace cmd) (pc_tags cmd);
          shard_index = shard_index_for h (pc_namespace cmd) (pc_key cmd) s;
          old_tags = tag_ids_for_entry (pc_namespace cmd) (pc_key cmd) (shards s ! shard_index);
          (result, s1) = with_shard shard_index (engine_put env cmd) s;
          old_tags_without_entries = filter (\<lambda>t. \<not> has_tag_id t (shards s1 ! shard_index)) old_tags;
          add_tags = (case result of Inr ok \<Rightarrow> new_tags | Inl err \<Rightarrow> [])
      in (result, update_tag_routes shard_index add_tags old_tags_without_entries s1))"

definition sharded_get ::
  "hasher \<Rightarrow> env \<Rightarrow> string \<Rightarrow> bytes \<Rightarrow> sharded_engine \<Rightarrow> get_outcome \<times> sharded_engine" where
  "sharded_get h env ns key s = with_shard (shard_index_for h ns key s) (engine_get env ns key) s"

definition sharded_get_ref ::
  "hasher \<Rightarrow> env \<Rightarrow> string \<Rightarrow> bytes \<Rightarrow> (get_outcome_ref \<Rightarrow> 'r) \<Rightarrow> sharded_engine \<Rightarrow> 'r \<times> sharded_engine" where
  "sharded_get_ref h env ns key f s =
     with_shard (shard_index_for h ns key s) (get_ref env ns key f) s"

definition sharded_get_ref_without_access_update ::
  "hasher \<Rightarrow> env \<Rightarrow> string \<Rightarrow> bytes \<Rightarrow> (get_outcome_ref \<Rightarrow> 'r) \<Rightarrow> sharded_engine \<Rightarrow> 'r \<times> sharded_engine" where
  "sharded_get_ref_without_access_update h env ns key f s =
     with_shard (shard_index_for h ns key s) (get_ref_without_access_update env ns key f) s"

definition sharded_delete ::
  "hasher \<Rightarrow> string \<Rightarrow> bytes \<Rightarrow> sharded_engine \<Rightarrow> bool \<times> sharded_engine" where
  "sharded_delete h ns key s =
     (let shard_index = shard_index_for h ns key s;
          old_tags = tag_ids_for_entry ns key (shards s ! shard_index);
          (removed, s1) = with_shard shard_index (engine_delete ns key) s;
          old_tags_without_entries = filter (\<lambda>t. \<not> has_tag_id t (shards s1 ! shard_index)) old_tags
      in (removed,
          if removed then update_tag_routes shard_index [] old_tags_without_entries s1 else s1))"

fun sharded_batch_get ::
  "hasher \<Rightarrow> env \<Rightarrow> string \<Rightarrow> bytes list \<Rightarrow> sharded_engine \<Rightarrow> get_outcome list \<times> sharded_engine" where
  "sharded_batch_get h env ns [] s = ([], s)"
| "sharded_batch_get h env ns (key # keys) s =
     (let (out, s1) = sharded_get h env ns key s;
          (outs, s2) = sharded_batch_get h (env_tick 1 env) ns keys s1
      in (out # outs, s2))"

text \<open>The shards that the directory routes the tag to, one after the other.\<close>

fun invalidate_shards :: "env \<Rightarrow> string \<Rightarrow> string \<Rightarrow> nat list \<Rightarrow> sharded_engine \<Rightarrow> usize \<times> sharded_engine" where
  "invalidate_shards env ns tag [] s = (0, s)"
| "invalidate_shards env ns tag (i # ixs) s =
     (let (n, s1) = with_shard i (engine_invalidate_tag env ns tag) s;
          (k, s2) = invalidate_shards env ns tag ixs s1
      in (n + k, s2))"

definition sharded_invalidate_tag ::
  "env \<Rightarrow> string \<Rightarrow> string \<Rightarrow> sharded_engine \<Rightarrow> usize \<times> sharded_engine" where
  "sharded_invalidate_tag env ns tag s =
     (let t = TagId ns tag;
          shard_indices = (case map_of (tag_directory s) t of
                             None \<Rightarrow> [] | Some ixs \<Rightarrow> shard_order env ixs)
      in invalidate_shards env ns tag shard_indices
           (s\<lparr>tag_directory := AList.delete t (tag_directory s)\<rparr>))"

definition sharded_start_lease ::
  "hasher \<Rightarrow> env \<Rightarrow> string \<Rightarrow> bytes \<Rightarrow> u64 \<Rightarrow> sharded_engine \<Rightarrow> start_lease_outcome \<times> sharded_engine" where
  "sharded_start_lease h env ns key lease_ttl_ms s =
     with_shard (shard_index_for h ns key s) (engine_start_lease env ns key lease_ttl_ms) s"

definition sharded_complete_lease ::
  "hasher \<Rightarrow> env \<Rightarrow> complete_lease_command \<Rightarrow> sharded_engine \<Rightarrow>
     (complete_lease_error + put_outcome) \<times> sharded_engine" where
  "sharded_complete_lease h env cmd s =
     (let new_tags = tag_ids (cl_namespace cmd) (cl_tags cmd);
          shard_index = shard_index_for h (cl_namespace cmd) (cl_key cmd) s;
          old_tags = tag_ids_for_entry (cl_namespace cmd) (cl_key cmd) (shards s ! shard_index);
          (result, s1) = with_shard shard_index (engine_complete_lease env cmd) s;
          old_tags_without_entries = filter (\<lambda>t. \<not> has_tag_id t (shards s1 ! shard_index)) old_tags;
          add_tags = (case result of Inr ok \<Rightarrow> new_tags | Inl err \<Rightarrow> [])
      in (result, update_tag_routes shard_index add_tags old_tags_without_entries s1))"

definition sharded_len :: "sharded_engine \<Rightarrow> usize" where
  "sharded_len s = sum_list (map engine_len (shards s))"

definition sharded_is_empty :: "sharded_engine \<Rightarrow> bool" where
  "sharded_is_empty s \<longleftrightarrow> sharded_len s = 0"

text \<open>The sums of bytes and costs are plain machine sums and wrap; the statistics saturate.\<close>

definition sharded_memory_used_bytes :: "sharded_engine \<Rightarrow> usize" where
  "sharded_memory_used_bytes s = sum_list (map memory_used_bytes (shards s)) mod 2 ^ 64"

definition sharded_cost_score_total :: "sharded_engine \<Rightarrow> u64" where
  "sharded_cost_score_total s = sum_list (map cost_score_total (shards s))"

definition sharded_stats :: "sharded_engine \<Rightarrow> engine_stats" where
  "sharded_stats s =
     fold (\<lambda>st total. \<lparr>expirations = u64_saturating_add (expirations total) (expirations st),
                       evictions = u64_saturating_add (evictions total) (evictions st)\<rparr>)
       (map stats (shards s)) engine_stats_default"

text \<open>The loop of the expiration worker: each shard gets what the shards before it left of the
  budget and reads the clock anew.\<close>

fun reclaim_shards :: "env \<Rightarrow> usize \<Rightarrow> engine list \<Rightarrow> usize \<times> engine list" where
  "reclaim_shards env remaining [] = (0, [])"
| "reclaim_shards env remaining (shard # rest) =
     (if remaining = 0 then (0, shard # rest)
      else (let (n, shard1) = engine_reclaim_expired_budget (clk env 0) remaining shard;
                (k, rest1) = reclaim_shards (env_tick 1 env) (remaining - n) rest
            in (n + k, shard1 # rest1)))"

definition sharded_reclaim_expired_budget ::
  "env \<Rightarrow> usize \<Rightarrow> sharded_engine \<Rightarrow> usize \<times> sharded_engine" where
  "sharded_reclaim_expired_budget env max_entries s =
     (if max_entries = 0 then (0, s)
      else (let (n, es) = reclaim_shards env max_entries (shards s) in (n, s\<lparr>shards := es\<rparr>)))"

section \<open>Public calls\<close>

fun sharded_exec :: "hasher \<Rightarrow> engine_op \<Rightarrow> sharded_engine \<Rightarrow> engine_result \<times> sharded_engine" where
  "sharded_exec h (OpPut env cmd) s = map_prod ResPut (\<lambda>s. s) (sharded_put h env cmd s)"
| "sharded_exec h (OpGet env ns key) s = map_prod ResGet (\<lambda>s. s) (sharded_get h env ns key s)"
| "sharded_exec h (OpGetQuiet env ns key) s =
     map_prod ResRef (\<lambda>s. s) (sharded_get_ref_without_access_update h env ns key (\<lambda>r. r) s)"
| "sharded_exec h (OpBatchGet env ns keys) s =
     map_prod ResBatch (\<lambda>s. s) (sharded_batch_get h env ns keys s)"
| "sharded_exec h (OpDelete ns key) s = map_prod ResDeleted (\<lambda>s. s) (sharded_delete h ns key s)"
| "sharded_exec h (OpInvalidateTag env ns tag) s =
     map_prod ResCount (\<lambda>s. s) (sharded_invalidate_tag env ns tag s)"
| "sharded_exec h (OpStartLease env ns key ttl) s =
     map_prod ResLease (\<lambda>s. s) (sharded_start_lease h env ns key ttl s)"
| "sharded_exec h (OpCompleteLease env cmd) s =
     map_prod ResComplete (\<lambda>s. s) (sharded_complete_lease h env cmd s)"
| "sharded_exec h (OpReclaim env n) s =
     map_prod ResCount (\<lambda>s. s) (sharded_reclaim_expired_budget env n s)"

section \<open>The invariant\<close>

definition shard_of :: "hasher \<Rightarrow> sharded_engine \<Rightarrow> entry_id \<Rightarrow> nat" where
  "shard_of h s eid = shard_index_for h (id_namespace eid) (id_key eid) s"

text \<open>Every entry lives in the shard of its key, and every shard that holds an entry with a tag is
  in the directory under that tag; \<open>T\<close> is a set of tags taken out of the directory.\<close>

definition placed :: "hasher \<Rightarrow> sharded_engine \<Rightarrow> bool" where
  "placed h s \<longleftrightarrow> (\<forall>i < length (shards s). \<forall>eid \<in> dom (cache_of (shards s ! i)). shard_of h s eid = i)"

definition routed_upto :: "tag_id set \<Rightarrow> sharded_engine \<Rightarrow> bool" where
  "routed_upto T s \<longleftrightarrow>
     mi_wf (tag_directory s) \<and> (\<forall>t i. mi_mem (tag_directory s) t i \<longrightarrow> i < length (shards s)) \<and>
     (\<forall>i < length (shards s). \<forall>t. t \<notin> T \<longrightarrow> spec_tagged t (cache_of (shards s ! i)) \<noteq> {} \<longrightarrow>
        mi_mem (tag_directory s) t i)"

definition sharded_inv_upto :: "tag_id set \<Rightarrow> hasher \<Rightarrow> sharded_engine \<Rightarrow> bool" where
  "sharded_inv_upto T h s \<longleftrightarrow>
     shards s \<noteq> [] \<and> (\<forall>shard \<in> set (shards s). engine_inv shard) \<and> placed h s \<and> routed_upto T s"

abbreviation sharded_inv :: "hasher \<Rightarrow> sharded_engine \<Rightarrow> bool" where
  "sharded_inv h s \<equiv> sharded_inv_upto {} h s"

lemma shard_of_less: "shards s \<noteq> [] \<Longrightarrow> shard_of h s eid < length (shards s)"
  by (simp add: shard_of_def shard_index_for_def)

lemma shard_of_cong: "length (shards s') = length (shards s) \<Longrightarrow> shard_of h s' = shard_of h s"
  by (simp add: shard_of_def shard_index_for_def fun_eq_iff)

lemma shard_index_for_shard_of: "shard_index_for h ns key s = shard_of h s (EntryId ns key)"
  by (simp add: shard_of_def)

lemma has_tag_id_iff: "engine_inv e \<Longrightarrow> has_tag_id t e \<longleftrightarrow> spec_tagged t (cache_of e) \<noteq> {}"
proof -
  assume inv: "engine_inv e"
  then have wf: "mi_wf (tag_index e)" and mem: "\<And>eid. mi_mem (tag_index e) t eid \<longleftrightarrow> has_tag e eid t"
    by (auto simp: engine_inv_upto_def tag_inv_def)
  have "has_tag_id t e \<longleftrightarrow> (\<exists>eid. mi_mem (tag_index e) t eid)"
    by (cases "map_of (tag_index e) t") (simp_all add: has_tag_id_def mi_mem_def ex_in_conv)
  then show ?thesis
    by (auto simp: mem spec_tagged_cache_of)
qed

lemma spec_tagged_le: "m \<subseteq>\<^sub>m m' \<Longrightarrow> spec_tagged t m \<noteq> {} \<Longrightarrow> spec_tagged t m' \<noteq> {}"
  using spec_tagged_mono by blast

lemma update_tag_routes_fields [simp]:
  "shards (update_tag_routes i add rem s) = shards s"
  "sharded_limits (update_tag_routes i add rem s) = sharded_limits s"
  "tag_directory (update_tag_routes i add rem s) =
     fold (\<lambda>t. mi_insert t i) add (fold (\<lambda>t. mi_remove t i) rem (tag_directory s))"
  by (simp_all add: update_tag_routes_def)

text \<open>The one step that writes to a shard and then to the directory.\<close>

lemma write_shard_inv:
  assumes inv: "sharded_inv_upto T h s" and i: "i < length (shards s)"
    and shard: "engine_inv shard"
    and dom: "\<And>eid. eid \<in> dom (cache_of shard) \<Longrightarrow> eid \<in> dom (cache_of (shards s ! i)) \<or> shard_of h s eid = i"
    and tags: "\<And>t. spec_tagged t (cache_of shard) \<noteq> {} \<Longrightarrow>
      spec_tagged t (cache_of (shards s ! i)) \<noteq> {} \<or> t \<in> set add"
    and gone: "\<And>t. t \<in> set rem \<Longrightarrow> spec_tagged t (cache_of shard) = {}"
  shows "sharded_inv_upto T h (update_tag_routes i add rem (s\<lparr>shards := (shards s)[i := shard]\<rparr>))"
    (is "sharded_inv_upto T h ?s")
proof -
  have "placed h ?s"
    using inv i dom shard_of_cong [of ?s s h]
    by (fastforce simp: sharded_inv_upto_def placed_def nth_list_update)
  moreover have "routed_upto T ?s"
  proof -
    have mem: "mi_mem (tag_directory ?s) t j \<longleftrightarrow>
        (t \<in> set add \<and> j = i) \<or> (mi_mem (tag_directory s) t j \<and> \<not> (t \<in> set rem \<and> j = i))" for t j
      by (simp add: mi.mem_fold_ins mi.mem_fold_rem)
    have old: "mi_mem (tag_directory s) t j"
      if "j < length (shards s)" "t \<notin> T" "spec_tagged t (cache_of (shards s ! j)) \<noteq> {}" for t j
      using inv that by (simp add: sharded_inv_upto_def routed_upto_def)
    have "mi_mem (tag_directory ?s) t j"
      if "j < length (shards s)" "t \<notin> T" "spec_tagged t (cache_of (shards ?s ! j)) \<noteq> {}" for t j
      using that old [OF that(1,2)] tags [of t] gone [of t] i unfolding mem
      by (cases "j = i") auto
    then show ?thesis
      using inv i by (auto simp: sharded_inv_upto_def routed_upto_def mi.mem_fold_ins mi.mem_fold_rem
          mi.wf_fold_ins mi.wf_fold_rem)
  qed
  moreover have "\<forall>e \<in> set (shards ?s). engine_inv e"
    using inv shard set_update_subset_insert [of "shards s" i shard] by (auto simp: sharded_inv_upto_def)
  ultimately show ?thesis
    using inv by (auto simp: sharded_inv_upto_def)
qed

lemma shrink_shards_inv:
  assumes "sharded_inv_upto T h s" "length es = length (shards s)"
    and "\<And>i. i < length es \<Longrightarrow> engine_inv (es ! i) \<and> cache_of (es ! i) \<subseteq>\<^sub>m cache_of (shards s ! i)"
  shows "sharded_inv_upto T h (s\<lparr>shards := es\<rparr>)"
proof -
  have "shard_of h (s\<lparr>shards := es\<rparr>) = shard_of h s"
    using assms(2) by (intro shard_of_cong) simp
  then have "placed h (s\<lparr>shards := es\<rparr>)"
    using assms map_le_implies_dom_le by (fastforce simp: sharded_inv_upto_def placed_def)
  moreover have "routed_upto T (s\<lparr>shards := es\<rparr>)"
    using assms spec_tagged_le unfolding sharded_inv_upto_def routed_upto_def by simp metis
  moreover have "\<forall>e \<in> set es. engine_inv e"
    using assms(3) by (auto simp: in_set_conv_nth)
  ultimately show ?thesis
    using assms(1,2) by (auto simp: sharded_inv_upto_def)
qed

section \<open>Calls on one key\<close>

fun op_key :: "engine_op \<Rightarrow> entry_id option" where
  "op_key (OpPut env cmd) = Some (put_id cmd)"
| "op_key (OpGet env ns key) = Some (EntryId ns key)"
| "op_key (OpGetQuiet env ns key) = Some (EntryId ns key)"
| "op_key (OpDelete ns key) = Some (EntryId ns key)"
| "op_key (OpStartLease env ns key ttl) = Some (EntryId ns key)"
| "op_key (OpCompleteLease env cmd) = Some (EntryId (cl_namespace cmd) (cl_key cmd))"
| "op_key op = None"

definition new_tags :: "engine_op \<Rightarrow> engine_result \<Rightarrow> tag_id list" where
  "new_tags op r =
     (case op of
        OpPut env cmd \<Rightarrow>
          (case r of ResPut (Inr ok) \<Rightarrow> tag_ids (pc_namespace cmd) (pc_tags cmd) | _ \<Rightarrow> [])
      | OpCompleteLease env cmd \<Rightarrow>
          (case r of ResComplete (Inr ok) \<Rightarrow> tag_ids (cl_namespace cmd) (cl_tags cmd) | _ \<Rightarrow> [])
      | _ \<Rightarrow> [])"

lemma lease_put_id: "put_id (lease_put cmd) = EntryId (cl_namespace cmd) (cl_key cmd)"
  by (simp add: put_id_def lease_put_def)

text \<open>On the specification a call on one key changes that key only, and can add only its tags.\<close>

lemma spec_next_keyed:
  assumes "op_key op = Some eid"
  shows "eid' \<noteq> eid \<Longrightarrow> spec_next op r m eid' = m eid'"
    and "spec_tagged t (spec_next op r m) \<noteq> {} \<Longrightarrow> spec_tagged t m \<noteq> {} \<or> t \<in> set (new_tags op r)"
proof -
  show "spec_next op r m eid' = m eid'" if "eid' \<noteq> eid"
    using assms that
    by (cases op) (auto simp: spec_next_def spec_write_def lease_put_id split: engine_result.split sum.split)
  have other: "spec_tagged t m \<noteq> {}" if "spec_tagged t (m(eid := None)) \<noteq> {}"
    using that by (auto simp: spec_tagged_def split: if_splits)
  have wr: "spec_tagged t m \<noteq> {} \<or> t \<in> set (tag_ids (pc_namespace cmd) (pc_tags cmd))"
    if "spec_tagged t (spec_write now cmd m) \<noteq> {}" for now cmd
    using that by (auto simp: spec_tagged_def spec_write_def split: if_splits)
  show "spec_tagged t m \<noteq> {} \<or> t \<in> set (new_tags op r)" if "spec_tagged t (spec_next op r m) \<noteq> {}"
    using assms that other wr [of _ "lease_put _"] wr
    by (cases op) (auto simp: spec_next_def new_tags_def lease_put_def split: engine_result.splits sum.splits)
qed

lemma cache_of_exec:
  assumes "engine_inv e" "op_ok op"
  shows "cache_of (engine_step op e) \<subseteq>\<^sub>m spec_next op (fst (engine_exec op e)) (cache_of e)"
proof (rule cache_of_step [OF _ assms(2)])
  have "dom (cache_of e) \<subseteq> fst ` set (entries e)"
    by (force simp: cache_of_def dest: map_of_SomeD)
  then have "finite (dom (cache_of e))"
    by (rule finite_subset) simp
  then show "refines e (cache_of e)"
    using assms(1) by (simp add: refines_def)
qed

lemma sharded_exec_keyed:
  assumes "op_key op = Some eid" "shards s \<noteq> []" "shard = shards s ! shard_of h s eid"
  shows "fst (sharded_exec h op s) = fst (engine_exec op shard) \<and>
    (\<exists>rem. (\<forall>t \<in> set rem. \<not> has_tag_id t (engine_step op shard)) \<and>
       snd (sharded_exec h op s) =
         update_tag_routes (shard_of h s eid) (new_tags op (fst (engine_exec op shard))) rem
           (s\<lparr>shards := (shards s)[shard_of h s eid := engine_step op shard]\<rparr>))"
proof -
  have i: "shard_of h s eid < length (shards s)"
    by (rule shard_of_less [OF assms(2)])
  have none: "update_tag_routes j [] [] s' = s'" for j s'
    by (simp add: update_tag_routes_def)
  show ?thesis
  proof (cases op)
    case (OpPut env cmd)
    let ?rem = "filter (\<lambda>t. \<not> has_tag_id t (engine_step op shard))
      (tag_ids_for_entry (pc_namespace cmd) (pc_key cmd) shard)"
    have "fst (sharded_exec h op s) = fst (engine_exec op shard) \<and> snd (sharded_exec h op s) =
        update_tag_routes (shard_of h s eid) (new_tags op (fst (engine_exec op shard))) ?rem
          (s\<lparr>shards := (shards s)[shard_of h s eid := engine_step op shard]\<rparr>)"
      using OpPut assms i
      by (simp add: sharded_put_def with_shard_def case_prod_beta Let_def engine_step_def put_id_def
          shard_index_for_shard_of new_tags_def split: sum.split)
    then show ?thesis
      by (intro conjI exI [of _ ?rem]) simp_all
  next
    case (OpCompleteLease env cmd)
    let ?rem = "filter (\<lambda>t. \<not> has_tag_id t (engine_step op shard))
      (tag_ids_for_entry (cl_namespace cmd) (cl_key cmd) shard)"
    have "fst (sharded_exec h op s) = fst (engine_exec op shard) \<and> snd (sharded_exec h op s) =
        update_tag_routes (shard_of h s eid) (new_tags op (fst (engine_exec op shard))) ?rem
          (s\<lparr>shards := (shards s)[shard_of h s eid := engine_step op shard]\<rparr>)"
      using OpCompleteLease assms i
      by (simp add: sharded_complete_lease_def with_shard_def case_prod_beta Let_def engine_step_def
          shard_index_for_shard_of new_tags_def split: sum.split)
    then show ?thesis
      by (intro conjI exI [of _ ?rem]) simp_all
  next
    case (OpDelete ns key)
    let ?rem = "if fst (engine_delete ns key shard)
      then filter (\<lambda>t. \<not> has_tag_id t (engine_step op shard)) (tag_ids_for_entry ns key shard)
      else []"
    have "fst (sharded_exec h op s) = fst (engine_exec op shard) \<and> snd (sharded_exec h op s) =
        update_tag_routes (shard_of h s eid) (new_tags op (fst (engine_exec op shard))) ?rem
          (s\<lparr>shards := (shards s)[shard_of h s eid := engine_step op shard]\<rparr>)"
      using OpDelete assms i none
      by (simp add: sharded_delete_def with_shard_def case_prod_beta Let_def engine_step_def
          shard_index_for_shard_of new_tags_def)
    then show ?thesis
      by (intro conjI exI [of _ ?rem]) simp_all
  qed (use assms i none in \<open>auto simp: sharded_get_def sharded_get_ref_without_access_update_def
      sharded_start_lease_def with_shard_def case_prod_beta Let_def engine_step_def
      shard_index_for_shard_of new_tags_def intro!: exI [of _ "[]"]\<close>)
qed

section \<open>The sharded cache refines the specification\<close>

definition srefines :: "hasher \<Rightarrow> sharded_engine \<Rightarrow> cache \<Rightarrow> bool" where
  "srefines h s m \<longleftrightarrow> sharded_inv h s \<and> (\<forall>shard \<in> set (shards s). refines shard m)"

lemma srefines_shard:
  "srefines h s m \<Longrightarrow> i < length (shards s) \<Longrightarrow> refines (shards s ! i) m"
  by (simp add: srefines_def)

lemma sharded_exec_keyed_inv:
  assumes "sharded_inv h s" "op_key op = Some eid" "op_ok op"
  shows "sharded_inv h (snd (sharded_exec h op s))"
proof -
  define shard where "shard = shards s ! shard_of h s eid"
  have ne: "shards s \<noteq> []"
    using assms(1) by (simp add: sharded_inv_upto_def)
  note i = shard_of_less [OF ne, of h eid]
  obtain rem where rem: "\<forall>t \<in> set rem. \<not> has_tag_id t (engine_step op shard)"
    and s': "snd (sharded_exec h op s) =
      update_tag_routes (shard_of h s eid) (new_tags op (fst (engine_exec op shard))) rem
        (s\<lparr>shards := (shards s)[shard_of h s eid := engine_step op shard]\<rparr>)"
    using sharded_exec_keyed [OF assms(2) ne shard_def] by blast
  have inv: "engine_inv shard"
    using assms(1) i by (simp add: shard_def sharded_inv_upto_def)
  note inv' = engine_step_inv [OF inv assms(3)]
  note le = cache_of_exec [OF inv assms(3)]
  show ?thesis
    unfolding s'
  proof (rule write_shard_inv [OF assms(1) i inv'], fold shard_def)
    show "eid' \<in> dom (cache_of shard) \<or> shard_of h s eid' = shard_of h s eid"
      if "eid' \<in> dom (cache_of (engine_step op shard))" for eid'
    proof (cases "eid' = eid")
      case False
      have "eid' \<in> dom (spec_next op (fst (engine_exec op shard)) (cache_of shard))"
        using that map_le_implies_dom_le [OF le] by (rule rev_subsetD)
      then show ?thesis
        unfolding domIff spec_next_keyed(1) [OF assms(2) False] by (rule disjI1)
    qed simp
    show "spec_tagged t (cache_of shard) \<noteq> {} \<or> t \<in> set (new_tags op (fst (engine_exec op shard)))"
      if "spec_tagged t (cache_of (engine_step op shard)) \<noteq> {}" for t
      using spec_next_keyed(2) [OF assms(2)] spec_tagged_le [OF le that] by blast
    show "spec_tagged t (cache_of (engine_step op shard)) = {}" if "t \<in> set rem" for t
      using rem that has_tag_id_iff [OF inv'] by blast
  qed
qed

lemma srefines_keyed:
  assumes "srefines h s m" "op_key op = Some eid" "op_ok op"
  shows "srefines h (snd (sharded_exec h op s)) (spec_next op (fst (sharded_exec h op s)) m)"
    and "spec_answer op (fst (sharded_exec h op s)) m"
proof -
  define shard where "shard = shards s ! shard_of h s eid"
  have inv: "sharded_inv h s" and ne: "shards s \<noteq> []"
    using assms(1) by (auto simp: srefines_def sharded_inv_upto_def)
  note i = shard_of_less [OF ne, of h eid]
  note exec = sharded_exec_keyed [OF assms(2) ne shard_def]
  let ?r = "fst (engine_exec op shard)"
  have shard: "refines shard m"
    using srefines_shard [OF assms(1) i] by (simp add: shard_def)
  show "spec_answer op (fst (sharded_exec h op s)) m"
    using exec spec_answer_step [OF shard assms(3)] by simp
  have shards': "shards (snd (sharded_exec h op s)) = (shards s)[shard_of h s eid := engine_step op shard]"
    using exec by auto
  have "refines ((shards s)[shard_of h s eid := engine_step op shard] ! j) (spec_next op ?r m)"
    if "j < length (shards s)" for j
  proof (cases "j = shard_of h s eid")
    case True
    then show ?thesis
      using refines_step [OF shard assms(3)] that by (simp add: engine_step_def)
  next
    case False
    have "eid \<notin> dom (cache_of (shards s ! j))"
      using inv that False unfolding sharded_inv_upto_def placed_def by metis
    then have "cache_of (shards s ! j) \<subseteq>\<^sub>m spec_next op ?r m"
      using srefines_shard [OF assms(1) that] spec_next_keyed(1) [OF assms(2), of _ ?r m]
      unfolding refines_def map_le_def by metis
    then show ?thesis
      using False that srefines_shard [OF assms(1) that] by (simp add: refines_def finite_dom_spec_next)
  qed
  then show "srefines h (snd (sharded_exec h op s)) (spec_next op (fst (sharded_exec h op s)) m)"
    using exec sharded_exec_keyed_inv [OF inv assms(2,3)]
    by (auto simp: srefines_def shards' in_set_conv_nth)
qed

lemma srefines_batch_get:
  assumes "srefines h s m"
  shows "srefines h (snd (sharded_batch_get h env ns keys s)) m \<and>
    spec_answer (OpBatchGet env ns keys) (ResBatch (fst (sharded_batch_get h env ns keys s))) m"
  using assms
proof (induction keys arbitrary: env s)
  case (Cons key keys)
  have step: "srefines h (snd (sharded_get h env ns key s)) m"
    "fst (sharded_get h env ns key s) \<in> {OutMiss, spec_read (clk env 0) (m (EntryId ns key))}"
    using srefines_keyed [OF Cons.prems, of "OpGet env ns key"] by (auto simp: spec_next_def)
  show ?case
    using Cons.IH [OF step(1), of "env_tick 1 env"] step(2)
    by (auto simp: case_prod_beta Let_def env_tick_def All_less_Suc2)
qed simp

lemma reclaim_shards_spec:
  assumes "\<forall>e \<in> set es. engine_inv e"
  shows "fst (reclaim_shards env n es) \<le> n \<and>
    list_all2 (\<lambda>e' e. engine_inv e' \<and> cache_of e' \<subseteq>\<^sub>m cache_of e) (snd (reclaim_shards env n es)) es"
  using assms
proof (induction env n es rule: reclaim_shards.induct)
  case (2 env n e es)
  show ?case
  proof (cases "n = 0")
    case True
    then show ?thesis
      using "2.prems" by (auto simp: list_all2_same)
  next
    case False
    let ?r = "remove_expired (clk env 0) n e"
    have "fst ?r \<le> n"
      using "2.prems" by (simp add: reclaim_count_le)
    moreover have "engine_inv (snd ?r)" "cache_of (snd ?r) \<subseteq>\<^sub>m cache_of e"
      using "2.prems" by (simp_all add: remove_expired_inv cache_of_shrinks [OF remove_expired_shrinks])
    ultimately show ?thesis
      using "2.IH" [OF False, of ?r "fst ?r" "snd ?r"] "2.prems" False
      by (auto simp: case_prod_beta Let_def)
  qed
qed simp

lemma srefines_reclaim:
  assumes "srefines h s m"
  shows "srefines h (snd (sharded_reclaim_expired_budget env n s)) m \<and>
    fst (sharded_reclaim_expired_budget env n s) \<le> n"
proof -
  let ?es = "snd (reclaim_shards env n (shards s))"
  have "\<forall>e \<in> set (shards s). engine_inv e"
    using assms by (simp add: srefines_def sharded_inv_upto_def)
  note spec = reclaim_shards_spec [OF this, of env n]
  then have len: "length ?es = length (shards s)"
    and each: "\<And>i. i < length ?es \<Longrightarrow> engine_inv (?es ! i) \<and> cache_of (?es ! i) \<subseteq>\<^sub>m cache_of (shards s ! i)"
    by (auto simp: list_all2_conv_all_nth)
  have "refines (?es ! i) m" if "i < length ?es" for i
    using refines_le [OF srefines_shard [OF assms, of i]] each [OF that] that len by simp
  then have "srefines h (s\<lparr>shards := ?es\<rparr>) m"
    using assms shrink_shards_inv [OF _ len each]
    by (auto simp: srefines_def in_set_conv_nth)
  then show ?thesis
    using assms spec by (simp add: sharded_reclaim_expired_budget_def case_prod_beta)
qed

section \<open>Tag invalidation across shards\<close>

text \<open>The whole cache: every key as its shard has it.\<close>

definition scache_of :: "hasher \<Rightarrow> sharded_engine \<Rightarrow> cache" where
  "scache_of h s = (\<lambda>eid. cache_of (shards s ! shard_of h s eid) eid)"

lemma invalidate_shards_spec:
  assumes "distinct ixs" "\<forall>i \<in> set ixs. i < length (shards s)"
  shows "tag_directory (snd (invalidate_shards env ns tag ixs s)) = tag_directory s \<and>
    sharded_limits (snd (invalidate_shards env ns tag ixs s)) = sharded_limits s \<and>
    length (shards (snd (invalidate_shards env ns tag ixs s))) = length (shards s) \<and>
    (\<forall>j < length (shards s). shards (snd (invalidate_shards env ns tag ixs s)) ! j =
       (if j \<in> set ixs then snd (engine_invalidate_tag env ns tag (shards s ! j)) else shards s ! j)) \<and>
    fst (invalidate_shards env ns tag ixs s) =
      (\<Sum>j \<in> set ixs. fst (engine_invalidate_tag env ns tag (shards s ! j)))"
  using assms
proof (induction ixs arbitrary: s)
  case (Cons i ixs)
  let ?s1 = "snd (with_shard i (engine_invalidate_tag env ns tag) s)"
  have s1: "shards ?s1 = (shards s)[i := snd (engine_invalidate_tag env ns tag (shards s ! i))]"
    "tag_directory ?s1 = tag_directory s" "sharded_limits ?s1 = sharded_limits s"
    "fst (with_shard i (engine_invalidate_tag env ns tag) s) =
       fst (engine_invalidate_tag env ns tag (shards s ! i))"
    by (simp_all add: with_shard_def case_prod_beta Let_def)
  have "(\<Sum>j \<in> set ixs. fst (engine_invalidate_tag env ns tag (shards ?s1 ! j))) =
      (\<Sum>j \<in> set ixs. fst (engine_invalidate_tag env ns tag (shards s ! j)))"
    using Cons.prems by (intro sum.cong refl) (auto simp: s1 nth_list_update)
  moreover have "\<forall>j \<in> set ixs. j < length (shards ?s1)"
    using Cons.prems by (simp add: s1)
  ultimately show ?case
    using Cons.IH [of ?s1] Cons.prems by (auto simp: case_prod_beta Let_def s1 nth_list_update)
qed simp

lemma set_shard_order: "env_ok env \<Longrightarrow> set (shard_order env ixs) = set ixs"
  by (metis env_ok_def set_mset_mset)

lemma distinct_shard_order: "env_ok env \<Longrightarrow> distinct (shard_order env ixs) = distinct ixs"
  by (metis env_ok_def mset_eq_imp_distinct_iff)

text \<open>Since the directory routes the tag to every shard that holds it, the call amounts to
  invalidating the tag in every shard.\<close>

lemma invalidate_tag_untagged:
  assumes "engine_inv e" "env_ok env" "spec_tagged (TagId ns tag) (cache_of e) = {}"
  shows "engine_invalidate_tag env ns tag e = (0, e)"
proof -
  have "\<not> has_tag_id (TagId ns tag) e"
    using has_tag_id_iff [OF assms(1)] assms(3) by simp
  moreover have "ids \<noteq> []" if "map_of (tag_index e) (TagId ns tag) = Some ids" for ids
    using assms(1) map_of_SomeD [OF that] by (auto simp: engine_inv_upto_def tag_inv_def mi_wf_def)
  ultimately show ?thesis
    by (auto simp: has_tag_id_def engine_invalidate_tag_def split: option.splits)
qed

lemma sharded_invalidate_spec:
  fixes ns tag :: string
  assumes "sharded_inv h s" "env_ok env"
  defines "s' \<equiv> snd (sharded_invalidate_tag env ns tag s)"
  shows "tag_directory s' = AList.delete (TagId ns tag) (tag_directory s) \<and>
    length (shards s') = length (shards s) \<and>
    (\<forall>j < length (shards s). shards s' ! j = snd (engine_invalidate_tag env ns tag (shards s ! j))) \<and>
    fst (sharded_invalidate_tag env ns tag s) =
      (\<Sum>j < length (shards s). fst (engine_invalidate_tag env ns tag (shards s ! j)))"
proof -
  let ?t = "TagId ns tag"
  define ixs where "ixs = (case map_of (tag_directory s) ?t of None \<Rightarrow> [] | Some ixs \<Rightarrow> shard_order env ixs)"
  have dir: "mi_wf (tag_directory s)" "\<And>i. mi_mem (tag_directory s) ?t i \<Longrightarrow> i < length (shards s)"
    "\<And>i. i < length (shards s) \<Longrightarrow> spec_tagged ?t (cache_of (shards s ! i)) \<noteq> {} \<Longrightarrow>
       mi_mem (tag_directory s) ?t i"
    using assms(1) by (auto simp: sharded_inv_upto_def routed_upto_def)
  have mem: "i \<in> set ixs \<longleftrightarrow> mi_mem (tag_directory s) ?t i" for i
    by (auto simp: ixs_def mi_mem_def set_shard_order [OF assms(2)] split: option.split)
  let ?s1 = "s\<lparr>tag_directory := AList.delete ?t (tag_directory s)\<rparr>"
  have "distinct ixs"
    using dir(1) by (auto simp: ixs_def mi_wf_def distinct_shard_order [OF assms(2)]
        split: option.split dest: map_of_SomeD)
  moreover have "\<forall>i \<in> set ixs. i < length (shards ?s1)"
    using dir(2) mem by simp
  ultimately have spec: "tag_directory (snd (invalidate_shards env ns tag ixs ?s1)) = tag_directory ?s1"
    "length (shards (snd (invalidate_shards env ns tag ixs ?s1))) = length (shards s)"
    "\<And>j. j < length (shards s) \<Longrightarrow> shards (snd (invalidate_shards env ns tag ixs ?s1)) ! j =
       (if j \<in> set ixs then snd (engine_invalidate_tag env ns tag (shards s ! j)) else shards s ! j)"
    "fst (invalidate_shards env ns tag ixs ?s1) =
       (\<Sum>j \<in> set ixs. fst (engine_invalidate_tag env ns tag (shards s ! j)))"
    using invalidate_shards_spec [of ixs ?s1 env ns tag] by simp_all
  have sub: "set ixs \<subseteq> {..< length (shards s)}"
    using dir(2) mem by auto
  have out: "engine_invalidate_tag env ns tag (shards s ! j) = (0, shards s ! j)"
    if "j < length (shards s)" "j \<notin> set ixs" for j
    using that dir(3) [of j] mem [of j] assms(1)
    by (intro invalidate_tag_untagged assms(2)) (auto simp: sharded_inv_upto_def)
  have "(\<Sum>j \<in> set ixs. fst (engine_invalidate_tag env ns tag (shards s ! j))) =
      (\<Sum>j < length (shards s). fst (engine_invalidate_tag env ns tag (shards s ! j)))"
    by (rule sum.mono_neutral_left) (use sub out in auto)
  moreover have "sharded_invalidate_tag env ns tag s = invalidate_shards env ns tag ixs ?s1"
    by (simp add: sharded_invalidate_tag_def Let_def ixs_def)
  ultimately show ?thesis
    using spec out by (simp add: s'_def)
qed

lemma invalidate_shards_limits:
  "sharded_limits (snd (invalidate_shards env ns tag ixs s)) = sharded_limits s"
  by (induction ixs arbitrary: s) (auto simp: with_shard_def case_prod_beta Let_def)

lemma sharded_invalidate_limits:
  "sharded_limits (snd (sharded_invalidate_tag env ns tag s)) = sharded_limits s"
  by (simp add: sharded_invalidate_tag_def Let_def invalidate_shards_limits)

lemma routed_upto_complete:
  "routed_upto T s \<Longrightarrow>
   (\<And>i t. i < length (shards s) \<Longrightarrow> t \<in> T \<Longrightarrow> spec_tagged t (cache_of (shards s ! i)) = {}) \<Longrightarrow>
   routed_upto {} s"
  unfolding routed_upto_def by blast

lemma spec_tagged_invalidate_tag:
  assumes "engine_inv e" "env_ok env"
  shows "spec_tagged (TagId ns tag) (cache_of (snd (engine_invalidate_tag env ns tag e))) = {}"
  using invalidate_tag_entries [OF assms, of ns tag]
  by (auto simp: spec_tagged_cache_of has_tag_def split: option.splits if_splits)

lemma sharded_invalidate_inv:
  assumes "sharded_inv h s" "env_ok env"
  shows "sharded_inv h (snd (sharded_invalidate_tag env ns tag s))"
proof -
  let ?t = "TagId ns tag"
  let ?s1 = "s\<lparr>tag_directory := AList.delete ?t (tag_directory s)\<rparr>"
  let ?s2 = "snd (sharded_invalidate_tag env ns tag s)"
  note spec = sharded_invalidate_spec [OF assms, of ns tag]
  have inv: "engine_inv (shards s ! i)" if "i < length (shards s)" for i
    using assms(1) that by (auto simp: sharded_inv_upto_def)
  have s2: "?s2 = ?s1\<lparr>shards := shards ?s2\<rparr>"
    using spec by (simp add: sharded_invalidate_limits)
  have "sharded_inv_upto {?t} h ?s1"
    using assms(1) shard_of_cong [of ?s1 s h]
    by (auto simp: sharded_inv_upto_def placed_def routed_upto_def mi_wf_def mi_mem_def alist
        set_delete_iff)
  then have inv2: "sharded_inv_upto {?t} h ?s2"
    by (subst s2, intro shrink_shards_inv)
      (use spec inv engine_invalidate_tag_inv [OF _ assms(2)] cache_of_shrinks [OF invalidate_tag_shrinks]
        in auto)
  moreover have "routed_upto {} ?s2"
    by (rule routed_upto_complete [of "{?t}"])
      (use inv2 spec spec_tagged_invalidate_tag [OF inv assms(2)] in \<open>auto simp: sharded_inv_upto_def\<close>)
  ultimately show ?thesis
    by (simp add: sharded_inv_upto_def)
qed

lemma finite_dom_cache_of: "finite (dom (cache_of e))"
proof -
  have "dom (cache_of e) \<subseteq> fst ` set (entries e)"
    by (force simp: cache_of_def dest: map_of_SomeD)
  then show ?thesis
    by (rule finite_subset) simp
qed

lemma cache_of_invalidate_tag_eq:
  assumes "engine_inv e" "env_ok env"
  shows "cache_of (snd (engine_invalidate_tag env ns tag e)) =
    cache_of e |` (- spec_tagged (TagId ns tag) (cache_of e))"
  unfolding spec_tagged_cache_of using invalidate_tag_entries [OF assms, of ns tag]
  by (auto simp: fun_eq_iff cache_of_def restrict_map_def)

lemma placed_shard_of:
  "sharded_inv_upto T h s \<Longrightarrow> j < length (shards s) \<Longrightarrow> cache_of (shards s ! j) eid = Some sp \<Longrightarrow>
   shard_of h s eid = j"
  unfolding sharded_inv_upto_def placed_def by blast

lemma spec_tagged_scache:
  assumes "sharded_inv_upto T h s"
  shows "spec_tagged t (scache_of h s) = (\<Union>j < length (shards s). spec_tagged t (cache_of (shards s ! j)))"
proof (intro set_eqI iffI)
  fix eid
  have "shards s \<noteq> []"
    using assms by (simp add: sharded_inv_upto_def)
  then show "eid \<in> spec_tagged t (scache_of h s) \<Longrightarrow>
      eid \<in> (\<Union>j < length (shards s). spec_tagged t (cache_of (shards s ! j)))"
    using shard_of_less [of s h eid] by (auto simp: spec_tagged_def scache_of_def)
  show "eid \<in> (\<Union>j < length (shards s). spec_tagged t (cache_of (shards s ! j))) \<Longrightarrow>
      eid \<in> spec_tagged t (scache_of h s)"
    using placed_shard_of [OF assms] by (fastforce simp: spec_tagged_def scache_of_def)
qed

lemma card_spec_tagged_scache:
  assumes "sharded_inv_upto T h s"
  shows "card (spec_tagged t (scache_of h s)) =
    (\<Sum>j < length (shards s). card (spec_tagged t (cache_of (shards s ! j))))"
  unfolding spec_tagged_scache [OF assms]
proof (rule card_UN_disjoint)
  show "\<forall>i \<in> {..< length (shards s)}. finite (spec_tagged t (cache_of (shards s ! i)))"
    by (simp add: finite_spec_tagged finite_dom_cache_of)
  have home: "shard_of h s eid = j"
    if "j \<in> {..< length (shards s)}" "eid \<in> spec_tagged t (cache_of (shards s ! j))" for eid j
    using placed_shard_of [OF assms] that by (auto simp: spec_tagged_def)
  show "\<forall>i \<in> {..< length (shards s)}. \<forall>j \<in> {..< length (shards s)}. i \<noteq> j \<longrightarrow>
      spec_tagged t (cache_of (shards s ! i)) \<inter> spec_tagged t (cache_of (shards s ! j)) = {}"
    unfolding disjoint_iff using home by metis
qed simp

lemma sharded_invalidate_count:
  assumes "sharded_inv h s" "env_ok env"
  shows "fst (sharded_invalidate_tag env ns tag s) = card (spec_tagged (TagId ns tag) (scache_of h s))"
proof -
  have "fst (engine_invalidate_tag env ns tag (shards s ! j)) =
      card (spec_tagged (TagId ns tag) (cache_of (shards s ! j)))" if "j < length (shards s)" for j
    using assms(1) that
    by (simp add: invalidate_tag_count [OF _ assms(2)] spec_tagged_cache_of sharded_inv_upto_def)
  then show ?thesis
    using sharded_invalidate_spec [OF assms, of ns tag] card_spec_tagged_scache [OF assms(1)] by simp
qed

lemma sharded_invalidate_cache:
  assumes "sharded_inv h s" "env_ok env"
  shows "scache_of h (snd (sharded_invalidate_tag env ns tag s)) =
    scache_of h s |` (- spec_tagged (TagId ns tag) (scache_of h s))"
proof (rule ext)
  fix eid
  let ?s' = "snd (sharded_invalidate_tag env ns tag s)" and ?t = "TagId ns tag"
  have ne: "shards s \<noteq> []"
    using assms(1) by (simp add: sharded_inv_upto_def)
  note i = shard_of_less [OF ne, of h eid]
  have "shard_of h ?s' = shard_of h s"
    using sharded_invalidate_spec [OF assms, of ns tag] by (intro shard_of_cong) simp
  then have "scache_of h ?s' eid =
      (cache_of (shards s ! shard_of h s eid) |` (- spec_tagged ?t (cache_of (shards s ! shard_of h s eid)))) eid"
    using sharded_invalidate_spec [OF assms, of ns tag] i assms(1)
      cache_of_invalidate_tag_eq [OF _ assms(2)]
    by (simp add: scache_of_def sharded_inv_upto_def)
  moreover have "eid \<in> spec_tagged ?t (cache_of (shards s ! shard_of h s eid)) \<longleftrightarrow>
      eid \<in> spec_tagged ?t (scache_of h s)"
    by (simp add: spec_tagged_def scache_of_def)
  ultimately show "scache_of h ?s' eid = (scache_of h s |` (- spec_tagged ?t (scache_of h s))) eid"
    by (simp add: restrict_map_def scache_of_def)
qed

lemma srefines_invalidate:
  assumes "srefines h s m" "env_ok env"
  shows "srefines h (snd (sharded_invalidate_tag env ns tag s)) (m |` (- spec_tagged (TagId ns tag) m)) \<and>
    fst (sharded_invalidate_tag env ns tag s) \<le> card (spec_tagged (TagId ns tag) m)"
proof -
  have inv: "sharded_inv h s" and ne: "shards s \<noteq> []"
    using assms(1) by (auto simp: srefines_def sharded_inv_upto_def)
  note spec = sharded_invalidate_spec [OF inv assms(2), of ns tag]
  have fin: "finite (dom m)"
    using srefines_shard [OF assms(1), of 0] ne by (simp add: refines_def)
  have "refines (snd (engine_invalidate_tag env ns tag (shards s ! j))) (m |` (- spec_tagged (TagId ns tag) m))"
    if "j < length (shards s)" for j
    using cache_of_invalidate_tag [OF srefines_shard [OF assms(1) that] assms(2)]
      srefines_shard [OF assms(1) that] engine_invalidate_tag_inv [OF _ assms(2)]
    by (simp add: refines_def)
  moreover have "scache_of h s \<subseteq>\<^sub>m m"
    using srefines_shard [OF assms(1) shard_of_less [OF ne]]
    by (auto simp: scache_of_def refines_def map_le_def dom_def)
  then have "card (spec_tagged (TagId ns tag) (scache_of h s)) \<le> card (spec_tagged (TagId ns tag) m)"
    by (intro card_mono finite_spec_tagged fin spec_tagged_mono)
  ultimately show ?thesis
    using spec sharded_invalidate_inv [OF inv assms(2)] sharded_invalidate_count [OF inv assms(2)]
    by (auto simp: srefines_def in_set_conv_nth)
qed

section \<open>Every call\<close>

lemma srefines_exec:
  assumes "srefines h s m" "op_ok op"
  shows "srefines h (snd (sharded_exec h op s)) (spec_next op (fst (sharded_exec h op s)) m) \<and>
    spec_answer op (fst (sharded_exec h op s)) m"
proof (cases "op_key op")
  case None
  then show ?thesis
    using assms srefines_batch_get [OF assms(1)] srefines_invalidate [OF assms(1)]
      srefines_reclaim [OF assms(1)]
    by (cases op) (auto simp: spec_next_def)
next
  case (Some eid)
  then show ?thesis
    using srefines_keyed [OF assms(1) Some assms(2)] by blast
qed

interpretation sharded_cache: simulation "sharded_exec h" op_ok spec_answer spec_next "srefines h" for h
  by unfold_locales (use srefines_exec in blast)+

lemma div_ceil_le: "0 < n \<Longrightarrow> div_ceil a n \<le> a"
proof -
  assume "0 < n"
  have "a div n + 1 \<le> a" if "a mod n \<noteq> 0"
  proof (cases "n = 1")
    case False
    then have "2 * (a div n) \<le> n * (a div n)"
      using \<open>0 < n\<close> by simp
    then have "2 * (a div n) + a mod n \<le> a"
      using mult_div_mod_eq [of n a] by linarith
    then show ?thesis
      using that by linarith
  qed (use that in simp)
  then show ?thesis
    by (auto simp: div_ceil_def)
qed

lemma cache_of_empty: "cache_of (engine_with_limits lim) = Map.empty"
  by (simp add: cache_of_def engine_with_limits_def)

lemma srefines_fresh:
  assumes "sharded_with_clock_and_limits lim n = Some s" "max_memory_bytes lim < usize_max"
  shows "srefines h s Map.empty"
proof -
  have n: "0 < n"
    using assms(1) by (auto simp: sharded_with_clock_and_limits_def split: if_splits)
  let ?lim = "\<lparr>max_memory_bytes = div_ceil (max_memory_bytes lim) n, max_value_bytes = max_value_bytes lim\<rparr>"
  have s: "s = \<lparr>shards = map (\<lambda>_. engine_with_limits ?lim) [0..<n], tag_directory = [], sharded_limits = lim\<rparr>"
    using assms(1) n by (simp add: sharded_with_clock_and_limits_def)
  have ref: "refines (engine_with_limits ?lim) Map.empty"
    using div_ceil_le [OF n, of "max_memory_bytes lim"] assms(2) by (intro refines_empty) simp
  have "sharded_inv h s"
    using n ref
    by (auto simp: sharded_inv_upto_def placed_def routed_upto_def refines_def s mi_wf_def
        spec_tagged_def cache_of_empty)
  then show ?thesis
    using ref by (auto simp: srefines_def s)
qed

text \<open>The limits never change.\<close>

definition all_limits :: "sharded_engine \<Rightarrow> engine_limits \<times> engine_limits list" where
  "all_limits s = (sharded_limits s, map limits (shards s))"

definition sharded_step :: "hasher \<Rightarrow> engine_op \<Rightarrow> sharded_engine \<Rightarrow> sharded_engine" where
  "sharded_step h op s = snd (sharded_exec h op s)"

lemma map_limits_update: "limits e = limits (es ! i) \<Longrightarrow> map limits (es[i := e]) = map limits es"
  by (metis list_update_id map_update)

lemma with_shard_limits:
  "(\<And>e. limits (snd (f e)) = limits e) \<Longrightarrow> all_limits (snd (with_shard i f s)) = all_limits s"
  by (simp add: with_shard_def case_prod_beta all_limits_def map_limits_update)

lemma all_limits_update_tag_routes [simp]: "all_limits (update_tag_routes i add rem s) = all_limits s"
  by (simp add: all_limits_def)

lemma engine_call_limits [simp]:
  "limits (snd (engine_get env ns key e)) = limits e"
  "limits (snd (get_ref_without_access_update env ns key f e)) = limits e"
  "limits (snd (engine_delete ns key e)) = limits e"
  "limits (snd (engine_invalidate_tag env ns tag e)) = limits e"
  "limits (snd (engine_start_lease env ns key ttl e)) = limits e"
  "limits (snd (engine_complete_lease env cmd' e)) = limits e"
  "limits (snd (remove_expired now n e)) = limits e"
  using engine_step_limits [of "OpGet env ns key" e] engine_step_limits [of "OpDelete ns key" e]
    engine_step_limits [of "OpInvalidateTag env ns tag" e]
    engine_step_limits [of "OpStartLease env ns key ttl" e]
    engine_step_limits [of "OpCompleteLease env cmd'" e]
  by (simp_all add: engine_step_def get_ref_without_access_update_def
      shrinks_limits [OF remove_expired_shrinks])

lemma sharded_batch_get_limits: "all_limits (snd (sharded_batch_get h env ns keys s)) = all_limits s"
  by (induction keys arbitrary: env s) (auto simp: case_prod_beta Let_def sharded_get_def with_shard_limits)

lemma invalidate_shards_all_limits: "all_limits (snd (invalidate_shards env ns tag ixs s)) = all_limits s"
  by (induction ixs arbitrary: s) (auto simp: case_prod_beta Let_def with_shard_limits)

lemma reclaim_shards_limits: "map limits (snd (reclaim_shards env n es)) = map limits es"
  by (induction es arbitrary: env n) (auto simp: case_prod_beta Let_def)

lemma sharded_step_limits: "all_limits (sharded_step h op s) = all_limits s"
proof (cases op)
  case (OpInvalidateTag env ns tag)
  then show ?thesis
    using invalidate_shards_all_limits
    by (auto simp: sharded_step_def sharded_invalidate_tag_def Let_def) (simp add: all_limits_def)
next
  case (OpReclaim env n)
  then show ?thesis
    by (simp add: sharded_step_def sharded_reclaim_expired_budget_def case_prod_beta all_limits_def
        reclaim_shards_limits)
qed (simp_all add: sharded_step_def sharded_put_def sharded_get_def sharded_delete_def
    sharded_get_ref_without_access_update_def sharded_start_lease_def sharded_complete_lease_def
    case_prod_beta Let_def with_shard_limits sharded_batch_get_limits)

text \<open>A state that keeps the invariant refines the specification state that it holds itself.\<close>

lemma srefines_scache:
  assumes "sharded_inv h s"
  shows "srefines h s (scache_of h s)"
proof -
  have "cache_of (shards s ! i) \<subseteq>\<^sub>m scache_of h s" if "i < length (shards s)" for i
    using placed_shard_of [OF assms that] by (auto simp: scache_of_def map_le_def)
  moreover have "dom (scache_of h s) \<subseteq> (\<Union>i < length (shards s). dom (cache_of (shards s ! i)))"
    using assms shard_of_less [of s h] by (auto simp: scache_of_def sharded_inv_upto_def)
  then have "finite (dom (scache_of h s))"
    by (rule finite_subset) (simp add: finite_dom_cache_of)
  ultimately show ?thesis
    using assms by (auto simp: srefines_def refines_def sharded_inv_upto_def in_set_conv_nth)
qed

lemma sharded_step_inv: "sharded_inv h s \<Longrightarrow> op_ok op \<Longrightarrow> sharded_inv h (sharded_step h op s)"
  using srefines_exec [OF srefines_scache] by (auto simp: srefines_def sharded_step_def)

interpretation smach: invariant_machine "sharded_inv h" op_ok "sharded_step h" all_limits for h
  by unfold_locales (simp_all add: sharded_step_inv sharded_step_limits)

end
