(* ===== verification/Sharded_Props.thy ===== *)
theory Sharded_Props
  imports Sharded
begin

text \<open>
  The properties of the sharded cache when calls run one after the other: it refines the same
  specification as a single engine, invalidation is exact across shards, memory stays within
  the rounded-up share of every shard, and what that share means for large values.
\<close>

definition sample_hasher :: hasher where
  "sample_hasher ns key = (case key of [] \<Rightarrow> 0 | b # bs \<Rightarrow> ucast b)"

definition sample_sharded :: sharded_engine where
  "sample_sharded =
     \<lparr>shards = map (\<lambda>_. engine_with_limits \<lparr>max_memory_bytes = 500, max_value_bytes = 100\<rparr>) [0..<2],
      tag_directory = [], sharded_limits = sample_limits\<rparr>"

lemma sample_sharded_eq: "sharded_with_clock_and_limits sample_limits 2 = Some sample_sharded"
  by (simp add: sharded_with_clock_and_limits_def sample_limits_def sample_sharded_def div_ceil_def)

lemma sample_limits_bounded: "max_memory_bytes sample_limits < usize_max"
  by (simp add: sample_limits_def usize_max_def)

lemma fresh_sharded_inv:
  "sharded_with_clock_and_limits lim n = Some s \<Longrightarrow> max_memory_bytes lim < usize_max \<Longrightarrow> sharded_inv h s"
  using srefines_fresh [of lim n s h] by (simp add: srefines_def)

lemma sample_sharded_inv: "sharded_inv h sample_sharded"
  by (rule fresh_sharded_inv [OF sample_sharded_eq sample_limits_bounded])

text \<open>C7. The sharded cache is coherent: with any hash function, any number of shards and any
  sequence of calls on a fresh cache, each result is one that the specification allows after the
  calls before it, as for a single engine.\<close>

theorem sharded_coherent:
  assumes "sharded_with_clock_and_limits lim shard_count = Some s"
    and "max_memory_bytes lim < usize_max" "list_all op_ok ops"
  shows "trace_ok spec_answer spec_next (fst (trace (sharded_exec h) ops s)) Map.empty"
  by (rule sharded_cache.sim_trace_ok [OF srefines_fresh [OF assms(1,2)] assms(3)])

theorem sharded_coherent_witness:
  "trace_ok spec_answer spec_next
     (fst (trace (sharded_exec sample_hasher)
        [OpPut (sample_env 100) sample_put, OpBatchGet (sample_env 101) ''ns'' [[1], [2]],
         OpInvalidateTag (sample_env 101) ''ns'' ''t''] sample_sharded)) Map.empty"
  by (rule sharded_coherent [OF sample_sharded_eq sample_limits_bounded]) simp

text \<open>C15. After any sequence of calls, invalidating a tag removes exactly the entries with the tag
  from the whole cache, in every shard, and returns their number: the directory of tags never
  misses a shard when calls run one after the other.\<close>

theorem sharded_invalidate_tag_exact:
  assumes "sharded_with_clock_and_limits lim shard_count = Some s0"
    and "max_memory_bytes lim < usize_max" "list_all op_ok ops" "env_ok env"
    and "s = fold (sharded_step h) ops s0"
  shows "fst (sharded_invalidate_tag env ns tag s) = card (spec_tagged (TagId ns tag) (scache_of h s)) \<and>
    scache_of h (snd (sharded_invalidate_tag env ns tag s)) =
      scache_of h s |` (- spec_tagged (TagId ns tag) (scache_of h s))"
proof -
  have "sharded_inv h s"
    unfolding assms(5) by (intro smach.inv_run fresh_sharded_inv [OF assms(1,2)] assms(3))
  then show ?thesis
    using sharded_invalidate_count sharded_invalidate_cache assms(4) by blast
qed

theorem sharded_invalidate_tag_exact_witness:
  "fst (sharded_invalidate_tag (sample_env 1) ''ns'' ''t'' sample_sharded) = 0"
proof -
  have "scache_of sample_hasher sample_sharded = Map.empty"
    using shard_of_less [of sample_sharded sample_hasher]
    by (auto simp: scache_of_def sample_sharded_def cache_of_empty fun_eq_iff nth_append)
  then show ?thesis
    using sharded_invalidate_tag_exact [OF sample_sharded_eq sample_limits_bounded,
        of "[]" "sample_env 1" sample_sharded sample_hasher "''ns''" "''t''"]
    by (simp add: spec_tagged_def)
qed

text \<open>A write that the sharded cache accepts is what the next read of the key sees, according
  to its TTLs and the clock, whichever shard the key is in.\<close>

lemma sharded_get_after_put:
  assumes "sharded_inv h s" "env_ok env" "fst (sharded_put h env cmd s) = Inr ok"
  shows "fst (sharded_get h env' (pc_namespace cmd) (pc_key cmd) (snd (sharded_put h env cmd s))) =
    promised (clk env 0) cmd (clk env' 0)"
proof -
  let ?shard = "shards s ! shard_of h s (put_id cmd)"
  have ne: "shards s \<noteq> []"
    using assms(1) by (simp add: sharded_inv_upto_def)
  note i = shard_of_less [OF ne, of h "put_id cmd"]
  have put: "fst (sharded_put h env cmd s) = fst (engine_put env cmd ?shard)"
    "shards (snd (sharded_put h env cmd s)) =
       (shards s)[shard_of h s (put_id cmd) := snd (engine_put env cmd ?shard)]"
    using sharded_exec_keyed [of "OpPut env cmd" "put_id cmd" s ?shard h] ne
    by (auto simp: engine_step_def)
  have "engine_inv ?shard"
    using assms(1) i by (simp add: sharded_inv_upto_def)
  then show ?thesis
    using get_put_outcome [of ?shard env cmd ok env'] assms(2,3) put i
      shard_of_cong [of "snd (sharded_put h env cmd s)" s h]
    by (simp add: sharded_get_def with_shard_def case_prod_beta Let_def shard_index_for_shard_of put_id_def)
qed

section \<open>Limits\<close>

lemma run_limits:
  assumes "sharded_with_clock_and_limits lim n = Some s0" "s = fold (sharded_step h) ops s0"
  shows "map limits (shards s) =
    replicate n \<lparr>max_memory_bytes = div_ceil (max_memory_bytes lim) n, max_value_bytes = max_value_bytes lim\<rparr>"
proof -
  have "all_limits s = all_limits s0"
    unfolding assms(2) by (rule smach.fixed_run)
  moreover have "map limits (shards s0) =
      replicate n \<lparr>max_memory_bytes = div_ceil (max_memory_bytes lim) n, max_value_bytes = max_value_bytes lim\<rparr>"
    using assms(1)
    by (auto simp: sharded_with_clock_and_limits_def Let_def engine_with_limits_def comp_def
        map_replicate_const split: if_splits)
  ultimately show ?thesis
    by (simp add: all_limits_def)
qed

lemma div_ceil_mult_less: "0 < n \<Longrightarrow> n * div_ceil a n < a + n"
proof -
  assume "0 < n"
  have eq: "n * (a div n) + a mod n = a"
    by (rule mult_div_mod_eq)
  have "n * (a div n + 1) < a + n" if "a mod n \<noteq> 0"
    unfolding distrib_left mult_1_right using eq that by linarith
  moreover have "n * (a div n) < a + n"
    using eq \<open>0 < n\<close> by linarith
  ultimately show ?thesis
    by (simp add: div_ceil_def)
qed

lemma sum_list_le_replicate:
  "\<forall>x \<in> set xs. f x \<le> g x \<Longrightarrow> map g xs = replicate n c \<Longrightarrow> sum_list (map f xs) \<le> n * (c :: nat)"
proof (induction xs arbitrary: n)
  case (Cons x xs)
  then show ?case
    by (cases n) fastforce+
qed simp

lemma shards_memory_bound:
  assumes "sharded_inv_upto T h s" "0 < n"
    and "map limits (shards s) =
      replicate n \<lparr>max_memory_bytes = div_ceil limit n, max_value_bytes = value_limit\<rparr>"
  shows "sum_list (map memory_used_bytes (shards s)) < limit + n"
proof -
  have "\<forall>e \<in> set (shards s). memory_used_bytes e \<le> max_memory_bytes (limits e)"
    using assms(1) by (auto simp: sharded_inv_upto_def engine_inv_upto_def memory_inv_def)
  moreover have "map (\<lambda>e. max_memory_bytes (limits e)) (shards s) = replicate n (div_ceil limit n)"
    using arg_cong [OF assms(3), of "map max_memory_bytes"] by (simp add: comp_def)
  ultimately have "sum_list (map memory_used_bytes (shards s)) \<le> n * div_ceil limit n"
    by (rule sum_list_le_replicate)
  then show ?thesis
    using div_ceil_mult_less [OF assms(2), of limit] by linarith
qed

text \<open>The memory accounted over all shards stays below the configured limit plus the number of
  shards after every sequence of calls: each shard is held to its share of the limit, rounded
  up. As long as that bound fits the machine word the reported sum is exact.\<close>

lemma sharded_memory_bound:
  assumes "sharded_with_clock_and_limits lim shard_count = Some s0"
    and "max_memory_bytes lim < usize_max" "list_all op_ok ops"
    and "s = fold (sharded_step h) ops s0" "max_memory_bytes lim + shard_count \<le> 2 ^ 64"
  shows "sharded_memory_used_bytes s = sum_list (map memory_used_bytes (shards s)) \<and>
    sharded_memory_used_bytes s < max_memory_bytes lim + shard_count"
proof -
  have n: "0 < shard_count"
    using assms(1) by (auto simp: sharded_with_clock_and_limits_def split: if_splits)
  have "sharded_inv h s"
    unfolding assms(4) by (intro smach.inv_run fresh_sharded_inv [OF assms(1,2)] assms(3))
  then have "sum_list (map memory_used_bytes (shards s)) < max_memory_bytes lim + shard_count"
    using n run_limits [OF assms(1,4)] by (rule shards_memory_bound)
  then show ?thesis
    using assms(5) by (simp add: sharded_memory_used_bytes_def)
qed

text \<open>With the default limits the value limit is out of reach: the share of one of the sixteen
  shards is four mebibytes, so every value longer than that is refused although the value limit
  is eight mebibytes, however empty the cache is.\<close>

lemma default_limits_refuse_large_values:
  assumes "sharded_with_limits engine_limits_default = Some s0"
    and "s = fold (sharded_step h) ops s0" "4 * 1024 * 1024 < length (pc_value cmd)"
  shows "\<exists>err. fst (sharded_put h env cmd s) = Inl err"
proof -
  have lim: "map limits (shards s) = replicate 16
      \<lparr>max_memory_bytes = 4 * 1024 * 1024, max_value_bytes = 8 * 1024 * 1024\<rparr>"
    using run_limits [of engine_limits_default 16 s0 s h ops] assms(1,2)
    by (simp add: sharded_with_limits_def DEFAULT_SHARD_COUNT_def engine_limits_default_def div_ceil_def)
  then have len: "length (shards s) = 16"
    by (metis length_map length_replicate)
  let ?i = "shard_of h s (put_id cmd)"
  have ne: "shards s \<noteq> []"
    using len by auto
  have "limits (shards s ! ?i) = map limits (shards s) ! ?i"
    using shard_of_less [OF ne] by simp
  then have "max_memory_bytes (limits (shards s ! ?i)) = 4 * 1024 * 1024"
    using shard_of_less [OF ne, of h "put_id cmd"] len by (simp add: lim)
  moreover have "4 * 1024 * 1024 < put_bytes cmd"
    using assms(3)
    by (simp add: put_bytes_def estimate_entry_memory_def usize_saturating_add_def usize_max_def)
  ultimately have "\<exists>err. fst (engine_put env cmd (shards s ! ?i)) = Inl err"
    by (simp add: engine_put_unfold)
  then show ?thesis
    using sharded_exec_keyed [of "OpPut env cmd" "put_id cmd" s "shards s ! ?i" h] ne by simp
qed

end
