(* ===== verification/Sharded_Races.thy ===== *)
theory Sharded_Races
  imports Sharded_Props
begin

text \<open>
  The sharded cache under concurrent calls. A call that writes takes two locks one after the
  other: first its shard, then the tag directory; invalidation takes the directory first and
  then shard by shard. Each critical section is one atomic step, and the work a call still has to
  do is kept in a list of pending sections that any step can pick from.
\<close>

section \<open>Critical sections\<close>

datatype pending =
    PendRoutes (pend_shard: nat) (pend_add: "tag_id list") (pend_remove: "tag_id list")
  | PendInvalidate (pend_ns: string) (pend_tag: string) (pend_shards: "nat list")

type_synonym race = "sharded_engine \<times> pending list"

text \<open>What the three writing calls do under the lock of the shard, and what they leave to do.\<close>

definition put_section ::
  "hasher \<Rightarrow> env \<Rightarrow> put_command \<Rightarrow> sharded_engine \<Rightarrow>
     (put_error + put_outcome) \<times> pending \<times> sharded_engine" where
  "put_section h env cmd s =
     (let shard_index = shard_index_for h (pc_namespace cmd) (pc_key cmd) s;
          old_tags = tag_ids_for_entry (pc_namespace cmd) (pc_key cmd) (shards s ! shard_index);
          (result, s1) = with_shard shard_index (engine_put env cmd) s
      in (result,
          PendRoutes shard_index
            (case result of Inr ok \<Rightarrow> tag_ids (pc_namespace cmd) (pc_tags cmd) | Inl err \<Rightarrow> [])
            (filter (\<lambda>t. \<not> has_tag_id t (shards s1 ! shard_index)) old_tags),
          s1))"

definition complete_section ::
  "hasher \<Rightarrow> env \<Rightarrow> complete_lease_command \<Rightarrow> sharded_engine \<Rightarrow>
     (complete_lease_error + put_outcome) \<times> pending \<times> sharded_engine" where
  "complete_section h env cmd s =
     (let shard_index = shard_index_for h (cl_namespace cmd) (cl_key cmd) s;
          old_tags = tag_ids_for_entry (cl_namespace cmd) (cl_key cmd) (shards s ! shard_index);
          (result, s1) = with_shard shard_index (engine_complete_lease env cmd) s
      in (result,
          PendRoutes shard_index
            (case result of Inr ok \<Rightarrow> tag_ids (cl_namespace cmd) (cl_tags cmd) | Inl err \<Rightarrow> [])
            (filter (\<lambda>t. \<not> has_tag_id t (shards s1 ! shard_index)) old_tags),
          s1))"

definition delete_section ::
  "hasher \<Rightarrow> string \<Rightarrow> bytes \<Rightarrow> sharded_engine \<Rightarrow> bool \<times> pending \<times> sharded_engine" where
  "delete_section h ns key s =
     (let shard_index = shard_index_for h ns key s;
          old_tags = tag_ids_for_entry ns key (shards s ! shard_index);
          (removed, s1) = with_shard shard_index (engine_delete ns key) s
      in (removed,
          PendRoutes shard_index []
            (if removed then filter (\<lambda>t. \<not> has_tag_id t (shards s1 ! shard_index)) old_tags else []),
          s1))"

fun run_pending :: "pending \<Rightarrow> sharded_engine \<Rightarrow> sharded_engine" where
  "run_pending (PendRoutes i add rem) s = update_tag_routes i add rem s"
| "run_pending (PendInvalidate ns tag ixs) s = s"

text \<open>One section after the other is the sequential call.\<close>

lemma put_section_then_routes:
  "sharded_put h env cmd s =
     (case put_section h env cmd s of (r, p, s1) \<Rightarrow> (r, run_pending p s1))"
  by (simp add: sharded_put_def put_section_def case_prod_beta Let_def)

lemma complete_section_then_routes:
  "sharded_complete_lease h env cmd s =
     (case complete_section h env cmd s of (r, p, s1) \<Rightarrow> (r, run_pending p s1))"
  by (simp add: sharded_complete_lease_def complete_section_def case_prod_beta Let_def)

lemma delete_section_then_routes:
  "sharded_delete h ns key s =
     (case delete_section h ns key s of (r, p, s1) \<Rightarrow> (r, run_pending p s1))"
  by (simp add: sharded_delete_def delete_section_def case_prod_beta Let_def update_tag_routes_def)

section \<open>Interleavings\<close>

inductive race_step :: "hasher \<Rightarrow> race \<Rightarrow> race \<Rightarrow> bool" for h :: hasher where
  race_put:
    "put_section h env cmd s = (r, p, s1) \<Longrightarrow> race_step h (s, ps) (s1, ps @ [p])"
| race_complete:
    "complete_section h env cmd s = (r, p, s1) \<Longrightarrow> race_step h (s, ps) (s1, ps @ [p])"
| race_delete:
    "delete_section h ns key s = (r, p, s1) \<Longrightarrow> race_step h (s, ps) (s1, ps @ [p])"
| race_routes:
    "race_step h (s, ps @ PendRoutes i add rem # qs) (update_tag_routes i add rem s, ps @ qs)"
| race_get:
    "race_step h (s, ps) (snd (sharded_get h env ns key s), ps)"
| race_get_quiet:
    "race_step h (s, ps) (snd (sharded_get_ref_without_access_update h env ns key (\<lambda>r. r) s), ps)"
| race_start_lease:
    "race_step h (s, ps) (snd (sharded_start_lease h env ns key ttl s), ps)"
| race_reclaim:
    "i < length (shards s) \<Longrightarrow>
     race_step h (s, ps) (snd (with_shard i (engine_reclaim_expired_budget now n) s), ps)"
| race_invalidate:
    "env_ok env \<Longrightarrow>
     ixs = (case map_of (tag_directory s) (TagId ns tag) of None \<Rightarrow> [] | Some ixs \<Rightarrow> shard_order env ixs) \<Longrightarrow>
     race_step h (s, ps)
       (s\<lparr>tag_directory := AList.delete (TagId ns tag) (tag_directory s)\<rparr>, ps @ [PendInvalidate ns tag ixs])"
| race_invalidate_shard:
    "env_ok env \<Longrightarrow>
     race_step h (s, ps @ PendInvalidate ns tag (i # ixs) # qs)
       (snd (with_shard i (engine_invalidate_tag env ns tag) s), ps @ PendInvalidate ns tag ixs # qs)"
| race_invalidate_done:
    "race_step h (s, ps @ PendInvalidate ns tag [] # qs) (s, ps @ qs)"

abbreviation race_reaches :: "hasher \<Rightarrow> race \<Rightarrow> race \<Rightarrow> bool" where
  "race_reaches h \<equiv> (race_step h)\<^sup>*\<^sup>*"

section \<open>What survives\<close>

text \<open>Every shard keeps its own invariant and its own keys; the directory keeps its shape.\<close>

fun pending_ok :: "nat \<Rightarrow> pending \<Rightarrow> bool" where
  "pending_ok n (PendRoutes i add rem) = (i < n)"
| "pending_ok n (PendInvalidate ns tag ixs) = list_all (\<lambda>i. i < n) ixs"

definition race_inv :: "hasher \<Rightarrow> race \<Rightarrow> bool" where
  "race_inv h r \<longleftrightarrow>
     (case r of (s, ps) \<Rightarrow>
        shards s \<noteq> [] \<and> (\<forall>e \<in> set (shards s). engine_inv e) \<and> placed h s \<and>
        mi_wf (tag_directory s) \<and> (\<forall>t i. mi_mem (tag_directory s) t i \<longrightarrow> i < length (shards s)) \<and>
        list_all (pending_ok (length (shards s))) ps)"

text \<open>Without the claim that routes are complete, this is the invariant of the sequential cache up
  to all tags.\<close>

lemma race_inv_iff:
  "race_inv h (s, ps) \<longleftrightarrow> sharded_inv_upto UNIV h s \<and> list_all (pending_ok (length (shards s))) ps"
  by (auto simp: race_inv_def sharded_inv_upto_def routed_upto_def)

lemma with_shard_race_inv:
  assumes "sharded_inv_upto UNIV h s" "i < length (shards s)"
    and "\<And>e. engine_inv e \<Longrightarrow> engine_inv (snd (f e))"
    and "\<And>eid. eid \<in> dom (cache_of (snd (f (shards s ! i)))) \<Longrightarrow>
      eid \<in> dom (cache_of (shards s ! i)) \<or> shard_of h s eid = i"
  shows "sharded_inv_upto UNIV h (snd (with_shard i f s))"
proof -
  let ?e = "snd (f (shards s ! i))"
  have inv: "engine_inv ?e"
    using assms(1-3) by (simp add: sharded_inv_upto_def)
  let ?s' = "s\<lparr>shards := (shards s)[i := ?e]\<rparr>"
  have "placed h ?s'"
    using assms(1,2,4) shard_of_cong [of ?s' s h]
    by (fastforce simp: sharded_inv_upto_def placed_def nth_list_update)
  moreover have "\<forall>e \<in> set (shards ?s'). engine_inv e"
    using assms(1) inv set_update_subset_insert [of "shards s" i ?e] by (auto simp: sharded_inv_upto_def)
  ultimately show ?thesis
    using assms(1) by (simp add: with_shard_def case_prod_beta sharded_inv_upto_def routed_upto_def)
qed

lemma with_shard_length [simp]: "length (shards (snd (with_shard i f s))) = length (shards s)"
  by (simp add: with_shard_def case_prod_beta)

lemma keyed_race_inv:
  assumes "sharded_inv_upto UNIV h s" "op_key op = Some eid" "op_ok op"
    and "\<And>e. snd (f e) = engine_step op e"
  shows "sharded_inv_upto UNIV h (snd (with_shard (shard_of h s eid) f s))"
proof (rule with_shard_race_inv [OF assms(1)])
  have ne: "shards s \<noteq> []"
    using assms(1) by (simp add: sharded_inv_upto_def)
  then show "shard_of h s eid < length (shards s)"
    by (rule shard_of_less)
  then have inv: "engine_inv (shards s ! shard_of h s eid)"
    using assms(1) by (simp add: sharded_inv_upto_def)
  show "engine_inv (snd (f e))" if "engine_inv e" for e
    using engine_step_inv [OF that assms(3)] assms(4) by simp
  fix eid'
  assume "eid' \<in> dom (cache_of (snd (f (shards s ! shard_of h s eid))))"
  then have dom: "eid' \<in> dom (spec_next op (fst (engine_exec op (shards s ! shard_of h s eid)))
      (cache_of (shards s ! shard_of h s eid)))"
    using map_le_implies_dom_le [OF cache_of_exec [OF inv assms(3)]] assms(4) by auto
  show "eid' \<in> dom (cache_of (shards s ! shard_of h s eid)) \<or> shard_of h s eid' = shard_of h s eid"
  proof (cases "eid' = eid")
    case False
    show ?thesis
      using dom unfolding domIff spec_next_keyed(1) [OF assms(2) False] by (rule disjI1)
  qed simp
qed

lemma put_section_inv:
  assumes "sharded_inv_upto UNIV h s" "put_section h env cmd s = (r, p, s1)"
  shows "sharded_inv_upto UNIV h s1 \<and> length (shards s1) = length (shards s) \<and>
    pending_ok (length (shards s)) p"
  using keyed_race_inv [OF assms(1), of "OpPut env cmd" "put_id cmd" "engine_put env cmd"] assms
    shard_of_less [of s h "put_id cmd"]
  by (auto simp: put_section_def case_prod_beta Let_def engine_step_def put_id_def
      shard_index_for_shard_of sharded_inv_upto_def)

lemma complete_section_inv:
  assumes "sharded_inv_upto UNIV h s" "complete_section h env cmd s = (r, p, s1)"
  shows "sharded_inv_upto UNIV h s1 \<and> length (shards s1) = length (shards s) \<and>
    pending_ok (length (shards s)) p"
  using keyed_race_inv [OF assms(1), of "OpCompleteLease env cmd"
      "EntryId (cl_namespace cmd) (cl_key cmd)" "engine_complete_lease env cmd"] assms
    shard_of_less [of s h "EntryId (cl_namespace cmd) (cl_key cmd)"]
  by (auto simp: complete_section_def case_prod_beta Let_def engine_step_def
      shard_index_for_shard_of sharded_inv_upto_def)

lemma delete_section_inv:
  assumes "sharded_inv_upto UNIV h s" "delete_section h ns key s = (r, p, s1)"
  shows "sharded_inv_upto UNIV h s1 \<and> length (shards s1) = length (shards s) \<and>
    pending_ok (length (shards s)) p"
  using keyed_race_inv [OF assms(1), of "OpDelete ns key" "EntryId ns key" "engine_delete ns key"] assms
    shard_of_less [of s h "EntryId ns key"]
  by (auto simp: delete_section_def case_prod_beta Let_def engine_step_def
      shard_index_for_shard_of sharded_inv_upto_def)

lemma update_tag_routes_race_inv:
  "sharded_inv_upto UNIV h s \<Longrightarrow> i < length (shards s) \<Longrightarrow>
   sharded_inv_upto UNIV h (update_tag_routes i add rem s)"
  using shard_of_cong [of "update_tag_routes i add rem s" s h]
  by (auto simp: sharded_inv_upto_def placed_def routed_upto_def mi.mem_fold_ins mi.mem_fold_rem
      mi.wf_fold_ins mi.wf_fold_rem)

lemma drop_tag_race_inv:
  "sharded_inv_upto UNIV h s \<Longrightarrow>
   sharded_inv_upto UNIV h (s\<lparr>tag_directory := AList.delete t (tag_directory s)\<rparr>)"
  using shard_of_cong [of "s\<lparr>tag_directory := AList.delete t (tag_directory s)\<rparr>" s h]
  by (auto simp: sharded_inv_upto_def placed_def routed_upto_def mi_wf_def mi_mem_def alist set_delete_iff)

lemma shrinking_race_inv:
  assumes "sharded_inv_upto UNIV h s" "i < length (shards s)"
    and "\<And>e. engine_inv e \<Longrightarrow> engine_inv (snd (f e))" "\<And>e. cache_of (snd (f e)) \<subseteq>\<^sub>m cache_of e"
  shows "sharded_inv_upto UNIV h (snd (with_shard i f s))"
proof (rule with_shard_race_inv [OF assms(1,2)])
  show "eid \<in> dom (cache_of (shards s ! i)) \<or> shard_of h s eid = i"
    if "eid \<in> dom (cache_of (snd (f (shards s ! i))))" for eid
    using that map_le_implies_dom_le [OF assms(4)] by auto
qed (rule assms(3))

lemma race_step_inv: "race_step h r r' \<Longrightarrow> race_inv h r \<Longrightarrow> race_inv h r'"
proof (induction rule: race_step.induct)
  case (race_put env cmd s r p s1 ps)
  then show ?case
    using put_section_inv [of h s env cmd r p s1] by (simp add: race_inv_iff)
next
  case (race_complete env cmd s r p s1 ps)
  then show ?case
    using complete_section_inv [of h s env cmd r p s1] by (simp add: race_inv_iff)
next
  case (race_delete ns key s r p s1 ps)
  then show ?case
    using delete_section_inv [of h s ns key r p s1] by (simp add: race_inv_iff)
next
  case (race_routes s ps i add rem qs)
  then show ?case
    by (simp add: race_inv_iff update_tag_routes_race_inv)
next
  case (race_get s ps env ns key)
  then show ?case
    using keyed_race_inv [of h s "OpGet env ns key" "EntryId ns key" "engine_get env ns key"]
    by (simp add: race_inv_iff sharded_get_def shard_index_for_shard_of engine_step_def)
next
  case (race_get_quiet s ps env ns key)
  then show ?case
    using keyed_race_inv [of h s "OpGetQuiet env ns key" "EntryId ns key"
        "get_ref_without_access_update env ns key (\<lambda>r. r)"]
    by (simp add: race_inv_iff sharded_get_ref_without_access_update_def shard_index_for_shard_of
        engine_step_def)
next
  case (race_start_lease s ps env ns key ttl)
  then show ?case
    using keyed_race_inv [of h s "OpStartLease env ns key ttl" "EntryId ns key"
        "engine_start_lease env ns key ttl"]
    by (simp add: race_inv_iff sharded_start_lease_def shard_index_for_shard_of engine_step_def)
next
  case (race_reclaim i s ps now n)
  then show ?case
    using shrinking_race_inv [of h s i "engine_reclaim_expired_budget now n"]
    by (simp add: race_inv_iff remove_expired_inv cache_of_shrinks [OF remove_expired_shrinks])
next
  case (race_invalidate env ixs s ns tag ps)
  have "list_all (\<lambda>i. i < length (shards s)) ixs"
    using race_invalidate
    by (auto simp: race_inv_def mi_mem_def list_all_iff set_shard_order split: option.splits)
  then show ?case
    using race_invalidate by (simp add: race_inv_iff drop_tag_race_inv)
next
  case (race_invalidate_shard env s ps ns tag i ixs qs)
  then show ?case
    using shrinking_race_inv [of h s i "engine_invalidate_tag env ns tag"]
    by (simp add: race_inv_iff engine_invalidate_tag_inv cache_of_shrinks [OF invalidate_tag_shrinks])
next
  case (race_invalidate_done s ps ns tag qs)
  then show ?case
    by (simp add: race_inv_iff)
qed

lemma race_reaches_inv: "race_reaches h r r' \<Longrightarrow> race_inv h r \<Longrightarrow> race_inv h r'"
  by (induction rule: rtranclp_induct) (auto intro: race_step_inv)

definition shards_consistent :: "hasher \<Rightarrow> sharded_engine \<Rightarrow> bool" where
  "shards_consistent h s \<longleftrightarrow>
     list_all (\<lambda>e. engine_inv e) (shards s) \<and> placed h s \<and>
     (\<forall>t i. mi_mem (tag_directory s) t i \<longrightarrow> i < length (shards s))"

text \<open>C10. Under any interleaving of the critical sections of concurrent calls every shard keeps its
  invariant, so its memory bound and exact indexes, and every entry stays in the shard of its
  key; the directory names only existing shards.\<close>

theorem race_keeps_shards_consistent:
  assumes "sharded_with_clock_and_limits lim shard_count = Some s0" "max_memory_bytes lim < usize_max"
    and "race_reaches h (s0, []) (s, ps)"
  shows "shards_consistent h s"
proof -
  have "race_inv h (s0, [])"
    using fresh_sharded_inv [OF assms(1,2), of h]
    by (simp add: race_inv_iff sharded_inv_upto_def routed_upto_def)
  then have "race_inv h (s, ps)"
    by (rule race_reaches_inv [OF assms(3)])
  then show ?thesis
    by (simp add: race_inv_def shards_consistent_def list_all_iff)
qed

theorem race_keeps_shards_consistent_witness:
  "shards_consistent sample_hasher
     (snd (snd (put_section sample_hasher (sample_env 100) sample_put sample_sharded)))"
proof -
  let ?r = "put_section sample_hasher (sample_env 100) sample_put sample_sharded"
  have "race_step sample_hasher (sample_sharded, []) (snd (snd ?r), [] @ [fst (snd ?r)])"
    by (rule race_put [of _ _ _ _ "fst ?r"]) simp
  then show ?thesis
    by (intro race_keeps_shards_consistent [OF sample_sharded_eq sample_limits_bounded] r_into_rtranclp)
qed

section \<open>A lost route\<close>

text \<open>One shard, one tag: a \<open>delete\<close> of the last entry with the tag leaves the removal of the route
  pending, a \<open>put\<close> stores a new entry with the tag and adds the route, and then the removal is
  carried out.\<close>

definition one_shard :: "engine \<Rightarrow> (tag_id \<times> nat list) list \<Rightarrow> sharded_engine" where
  "one_shard e dir = \<lparr>shards = [e], tag_directory = dir, sharded_limits = sample_limits\<rparr>"

definition race_put2 :: put_command where
  "race_put2 = sample_put\<lparr>pc_key := [2]\<rparr>"

definition race_deleted :: engine where
  "race_deleted = snd (engine_delete ''ns'' [1] sample_engine)"

definition race_stored :: engine where
  "race_stored = snd (engine_put (sample_env 100) race_put2 race_deleted)"

lemma one_shard_index: "shard_index_for h ns key (one_shard e dir) = 0"
  by (simp add: shard_index_for_def one_shard_def)

lemma race_deleted_inv: "engine_inv race_deleted"
  by (simp add: race_deleted_def engine_delete_inv)

lemma race_deleted_entries: "entries race_deleted = []" "limits race_deleted = sample_limits"
  by (simp_all add: race_deleted_def engine_delete_def Let_def sample_engine_entries)

lemma race_put2_accepted:
  "fst (engine_put (sample_env 100) race_put2 race_deleted) = Inr \<lparr>po_evicted = 0\<rparr>"
  "entries race_stored = [(EntryId ''ns'' [2], stored_entry 100 102 race_put2 (next_access race_deleted))]"
proof -
  have mem: "memory_used_bytes race_deleted = 0"
    using race_deleted_inv race_deleted_entries
    by (simp add: engine_inv_upto_def memory_inv_def memory_total_def)
  have bytes: "put_bytes race_put2 = 102" and eid: "put_id race_put2 = EntryId ''ns'' [2]"
    and len: "length (pc_value race_put2) = 2"
    by (simp_all add: race_put2_def put_bytes_def put_id_def sample_put_def estimate_entry_memory_def
        ENTRY_OVERHEAD_BYTES_def usize_saturating_add_def usize_max_def)
  have "remove_entry (put_id race_put2) race_deleted = (False, race_deleted)"
    by (simp add: remove_entry_None race_deleted_entries)
  then have room: "put_prepare (sample_env 100) race_put2 race_deleted = (0, race_deleted)"
    by (subst put_prepare_room) (simp_all add: mem bytes race_deleted_entries sample_limits_def)
  show ok: "fst (engine_put (sample_env 100) race_put2 race_deleted) = Inr \<lparr>po_evicted = 0\<rparr>"
    by (simp add: put_cases race_deleted_inv room bytes len race_deleted_entries sample_limits_def)
  show "entries race_stored = [(EntryId ''ns'' [2], stored_entry 100 102 race_put2 (next_access race_deleted))]"
    using put_accepted(1) [OF race_deleted_inv sample_env_ok ok]
    by (simp add: race_stored_def room put_store_fields bytes eid race_deleted_entries)
qed

lemma race_tags:
  "\<not> has_tag_id t race_deleted" "has_tag_id (TagId ''ns'' ''t'') sample_engine"
  "tag_ids_for_entry ''ns'' [1] sample_engine = [TagId ''ns'' ''t'']"
  "tag_ids_for_entry ns key race_deleted = []"
  by (auto simp: has_tag_id_iff race_deleted_inv spec_tagged_def cache_of_def race_deleted_entries
      sample_engine_entries spec_entry_of_def stored_entry_def sample_put_def tag_ids_def
      tag_ids_for_entry_def)

lemma race_sections:
  "put_section h (sample_env 100) sample_put (one_shard (engine_with_limits sample_limits) dir) =
     (Inr \<lparr>po_evicted = 0\<rparr>, PendRoutes 0 [TagId ''ns'' ''t''] [], one_shard sample_engine dir)"
  "delete_section h ''ns'' [1] (one_shard sample_engine dir) =
     (True, PendRoutes 0 [] [TagId ''ns'' ''t''], one_shard race_deleted dir)"
  "put_section h (sample_env 100) race_put2 (one_shard race_deleted dir) =
     (Inr \<lparr>po_evicted = 0\<rparr>, PendRoutes 0 [TagId ''ns'' ''t''] [], one_shard race_stored dir)"
proof -
  have "fst (engine_delete ''ns'' [1] sample_engine)"
    by (simp add: engine_delete_def Let_def remove_entry_fst sample_engine_entries)
  then show "delete_section h ''ns'' [1] (one_shard sample_engine dir) =
      (True, PendRoutes 0 [] [TagId ''ns'' ''t''], one_shard race_deleted dir)"
    using race_tags
    by (simp add: delete_section_def one_shard_index with_shard_def case_prod_beta Let_def)
      (simp add: one_shard_def race_deleted_def)
  show "put_section h (sample_env 100) race_put2 (one_shard race_deleted dir) =
      (Inr \<lparr>po_evicted = 0\<rparr>, PendRoutes 0 [TagId ''ns'' ''t''] [], one_shard race_stored dir)"
    using race_put2_accepted(1) race_tags(4)
    by (simp add: put_section_def one_shard_index with_shard_def case_prod_beta Let_def)
      (simp add: one_shard_def race_stored_def race_put2_def sample_put_def tag_ids_def)
  have "tag_ids_for_entry ''ns'' [1] (engine_with_limits sample_limits) = []"
    by (simp add: tag_ids_for_entry_def engine_with_limits_def)
  then show "put_section h (sample_env 100) sample_put (one_shard (engine_with_limits sample_limits) dir) =
      (Inr \<lparr>po_evicted = 0\<rparr>, PendRoutes 0 [TagId ''ns'' ''t''] [], one_shard sample_engine dir)"
    using sample_put_accepted [of 100]
    by (simp add: put_section_def one_shard_index with_shard_def case_prod_beta Let_def)
      (simp add: one_shard_def sample_engine_def sample_put_def tag_ids_def)
qed

lemma race_routes_one_shard:
  "update_tag_routes 0 [TagId ''ns'' ''t''] [] (one_shard e []) = one_shard e [(TagId ''ns'' ''t'', [0])]"
  "update_tag_routes 0 [TagId ''ns'' ''t''] [] (one_shard e [(TagId ''ns'' ''t'', [0])]) =
     one_shard e [(TagId ''ns'' ''t'', [0])]"
  "update_tag_routes 0 [] [TagId ''ns'' ''t''] (one_shard e [(TagId ''ns'' ''t'', [0])]) = one_shard e []"
  by (simp_all add: update_tag_routes_def one_shard_def mi_insert_def mi_remove_def)

lemma lost_route_run:
  "race_reaches h (one_shard (engine_with_limits sample_limits) [], []) (one_shard race_stored [], [])"
proof -
  let ?add = "PendRoutes 0 [TagId ''ns'' ''t''] []" and ?rem = "PendRoutes 0 [] [TagId ''ns'' ''t'']"
  let ?dir = "[(TagId ''ns'' ''t'', [0 :: nat])]"
  have "race_step h (one_shard (engine_with_limits sample_limits) [], []) (one_shard sample_engine [], [?add])"
    using race_put [OF race_sections(1), of h "[]" "[]"] by simp
  moreover have "race_step h (one_shard sample_engine [], [?add]) (one_shard sample_engine ?dir, [])"
    using race_routes [of h "one_shard sample_engine []" "[]" 0 _ _ "[]"]
    by (metis append_Nil race_routes_one_shard(1))
  moreover have "race_step h (one_shard sample_engine ?dir, []) (one_shard race_deleted ?dir, [?rem])"
    using race_delete [OF race_sections(2), of h ?dir "[]"] by simp
  moreover have "race_step h (one_shard race_deleted ?dir, [?rem]) (one_shard race_stored ?dir, [?rem, ?add])"
    using race_put [OF race_sections(3), of h ?dir "[?rem]"] by simp
  moreover have "race_step h (one_shard race_stored ?dir, [?rem, ?add]) (one_shard race_stored ?dir, [?rem])"
    using race_routes [of h "one_shard race_stored ?dir" "[?rem]" 0 "[TagId ''ns'' ''t'']" "[]" "[]"]
    by (simp add: race_routes_one_shard)
  moreover have "race_step h (one_shard race_stored ?dir, [?rem]) (one_shard race_stored [], [])"
    using race_routes [of h "one_shard race_stored ?dir" "[]" 0 "[]" "[TagId ''ns'' ''t'']" "[]"]
    by (simp add: race_routes_one_shard)
  ultimately show ?thesis
    by (meson converse_rtranclp_into_rtranclp rtranclp.rtrancl_refl)
qed

text \<open>C21. Concurrent calls can lose the route of a tag for good: from a fresh cache a \<open>put\<close> that
  overlaps a \<open>delete\<close> in the same shard leads to a state with nothing pending in which a live entry
  carries a tag that the directory does not know. Invalidating the tag then reports no entry, and
  the entry is still served afterwards.\<close>

theorem concurrent_put_delete_loses_tag_route:
  "\<exists>s0 s. sharded_with_clock_and_limits sample_limits 1 = Some s0 \<and> race_reaches h (s0, []) (s, []) \<and>
     fst (sharded_invalidate_tag (sample_env 101) ''ns'' ''t'' s) = 0 \<and>
     EntryId ''ns'' [2] \<in> spec_tagged (TagId ''ns'' ''t'') (scache_of h s) \<and>
     fst (sharded_get h (sample_env 101) ''ns'' [2]
       (snd (sharded_invalidate_tag (sample_env 101) ''ns'' ''t'' s))) = OutHit [7, 8]"
proof (intro exI conjI)
  show "sharded_with_clock_and_limits sample_limits 1 = Some (one_shard (engine_with_limits sample_limits) [])"
    by (simp add: sharded_with_clock_and_limits_def one_shard_def sample_limits_def div_ceil_def)
  show "race_reaches h (one_shard (engine_with_limits sample_limits) [], []) (one_shard race_stored [], [])"
    by (rule lost_route_run)
  have inv: "sharded_invalidate_tag (sample_env 101) ''ns'' ''t'' (one_shard race_stored []) =
      (0, one_shard race_stored [])"
    by (simp add: sharded_invalidate_tag_def one_shard_def)
  then show "fst (sharded_invalidate_tag (sample_env 101) ''ns'' ''t'' (one_shard race_stored [])) = 0"
    by simp
  show "EntryId ''ns'' [2] \<in> spec_tagged (TagId ''ns'' ''t'') (scache_of h (one_shard race_stored []))"
    by (simp add: spec_tagged_def scache_of_def shard_of_def one_shard_index)
      (simp add: one_shard_def cache_of_def race_put2_accepted spec_entry_of_def stored_entry_def
        race_put2_def sample_put_def tag_ids_def)
  have "fst (engine_get (sample_env 101) ''ns'' [2] race_stored) = promised 100 race_put2 101"
    using get_stored [of race_stored "''ns''" "[2]" 100 102 race_put2 "next_access race_deleted" "sample_env 101"]
    by (simp add: race_put2_accepted)
  also have "\<dots> = OutHit [7, 8]"
    by (simp add: promised_def race_put2_def sample_put_def expires_at_of_def u64_saturating_add_def)
  finally show "fst (sharded_get h (sample_env 101) ''ns'' [2]
      (snd (sharded_invalidate_tag (sample_env 101) ''ns'' ''t'' (one_shard race_stored [])))) = OutHit [7, 8]"
    by (simp add: inv sharded_get_def one_shard_index with_shard_def case_prod_beta)
      (simp add: one_shard_def)
qed

end
