(* ===== verification/Wire.thy ===== *)
theory Wire
  imports Protocol_Types
begin

text \<open>
  The byte level of the native protocol (crates/cachebox-protocol/src/lib.rs): big-endian
  integers, the check of UTF-8 that the standard library performs, the \<open>Cursor\<close> with its readers
  and the writers. A reader takes a cursor to a decode error or to a value and the cursor behind
  it; a writer is the bytes it appends. The locale \<open>codec\<close> is what a reader and a writer promise
  to each other, and every field of the protocol is an interpretation of it.
\<close>

section \<open>Integers and strings\<close>

text \<open>\<open>to_be_bytes\<close> and \<open>from_be_bytes\<close>, on the number the word stands for.\<close>

fun be_bytes :: "nat \<Rightarrow> nat \<Rightarrow> bytes" where
  "be_bytes 0 n = []"
| "be_bytes (Suc k) n = be_bytes k (n div 256) @ [word_of_nat (n mod 256)]"

definition from_be :: "bytes \<Rightarrow> nat" where
  "from_be bs = foldl (\<lambda>acc b. acc * 256 + unat b) 0 bs"

definition string_bytes :: "string \<Rightarrow> bytes" where
  "string_bytes s = map (\<lambda>c. word_of_nat (of_char c)) s"

definition bytes_string :: "bytes \<Rightarrow> string" where
  "bytes_string bs = map (\<lambda>b. char_of (unat b)) bs"

text \<open>\<open>str::from_utf8\<close>: no overlong forms, no surrogates, nothing above U+10FFFF.\<close>

definition utf8_cont :: "u8 \<Rightarrow> bool" where
  "utf8_cont b \<longleftrightarrow> 0x80 \<le> b \<and> b \<le> 0xBF"

definition utf8_second3 :: "u8 \<Rightarrow> u8 \<Rightarrow> bool" where
  "utf8_second3 b c \<longleftrightarrow>
     (if b = 0xE0 then 0xA0 \<le> c \<and> c \<le> 0xBF
      else if b = 0xED then 0x80 \<le> c \<and> c \<le> 0x9F
      else utf8_cont c)"

definition utf8_second4 :: "u8 \<Rightarrow> u8 \<Rightarrow> bool" where
  "utf8_second4 b c \<longleftrightarrow>
     (if b = 0xF0 then 0x90 \<le> c \<and> c \<le> 0xBF
      else if b = 0xF4 then 0x80 \<le> c \<and> c \<le> 0x8F
      else utf8_cont c)"

fun utf8_valid :: "bytes \<Rightarrow> bool" where
  "utf8_valid [] = True"
| "utf8_valid (b # bs) =
     (if b < 0x80 then utf8_valid bs
      else if 0xC2 \<le> b \<and> b \<le> 0xDF
      then (case bs of c # cs \<Rightarrow> utf8_cont c \<and> utf8_valid cs | _ \<Rightarrow> False)
      else if 0xE0 \<le> b \<and> b \<le> 0xEF
      then (case bs of c # d # cs \<Rightarrow> utf8_second3 b c \<and> utf8_cont d \<and> utf8_valid cs | _ \<Rightarrow> False)
      else if 0xF0 \<le> b \<and> b \<le> 0xF4
      then (case bs of
              c # d # f # cs \<Rightarrow> utf8_second4 b c \<and> utf8_cont d \<and> utf8_cont f \<and> utf8_valid cs
            | _ \<Rightarrow> False)
      else False)"

section \<open>The cursor\<close>

record cursor =
  cu_input :: bytes
  cu_offset :: usize

type_synonym 'a reader = "cursor \<Rightarrow> decode_error + ('a \<times> cursor)"

definition cursor_new :: "bytes \<Rightarrow> cursor" where
  "cursor_new bs = \<lparr>cu_input = bs, cu_offset = 0\<rparr>"

text \<open>Returning a value, failing, and running one reader after another, which is the question-mark
  operator on the cursor's methods.\<close>

definition rd_return :: "'a \<Rightarrow> 'a reader" where
  "rd_return a c = Inr (a, c)"

definition rd_fail :: "decode_error \<Rightarrow> 'a reader" where
  "rd_fail err c = Inl err"

definition rd_bind :: "'a reader \<Rightarrow> ('a \<Rightarrow> 'b reader) \<Rightarrow> 'b reader" where
  "rd_bind m f c = rbind (m c) (\<lambda>(a, c1). f a c1)"

definition read_exact :: "usize \<Rightarrow> bytes reader" where
  "read_exact len c =
     (if cu_offset c + len > usize_max then Inl (InvalidPayload ''length overflow'')
      else if cu_offset c + len > length (cu_input c) then Inl (InvalidPayload ''truncated field'')
      else Inr (take len (drop (cu_offset c) (cu_input c)), c\<lparr>cu_offset := cu_offset c + len\<rparr>))"

definition read_u8 :: "u8 reader" where
  "read_u8 c =
     (if cu_offset c < length (cu_input c)
      then Inr (cu_input c ! cu_offset c, c\<lparr>cu_offset := cu_offset c + 1\<rparr>)
      else Inl (InvalidPayload ''truncated u8''))"

definition read_u16 :: "u16 reader" where
  "read_u16 = rd_bind (read_exact 2) (\<lambda>bs. rd_return (word_of_nat (from_be bs)))"

definition read_u32 :: "u32 reader" where
  "read_u32 = rd_bind (read_exact 4) (\<lambda>bs. rd_return (word_of_nat (from_be bs)))"

definition read_u64 :: "u64 reader" where
  "read_u64 = rd_bind (read_exact 8) (\<lambda>bs. rd_return (word_of_nat (from_be bs)))"

definition read_bool :: "bool reader" where
  "read_bool =
     rd_bind read_u8 (\<lambda>b. if b = 0 then rd_return False else if b = 1 then rd_return True
                          else rd_fail (InvalidBool b))"

definition read_bytes :: "bytes reader" where
  "read_bytes = rd_bind read_u32 (\<lambda>len. read_exact (unat len))"

definition read_string :: "string reader" where
  "read_string =
     rd_bind read_bytes (\<lambda>bs. if utf8_valid bs then rd_return (bytes_string bs) else rd_fail InvalidUtf8)"

text \<open>The borrowed readers return slices of the input instead of copies.\<close>

definition read_borrowed_bytes :: "bytes reader" where
  "read_borrowed_bytes = rd_bind read_u32 (\<lambda>len. read_exact (unat len))"

definition read_borrowed_string :: "string reader" where
  "read_borrowed_string =
     rd_bind read_borrowed_bytes
       (\<lambda>bs. if utf8_valid bs then rd_return (bytes_string bs) else rd_fail InvalidUtf8)"

definition expect_empty :: "cursor \<Rightarrow> decode_error + unit" where
  "expect_empty c =
     (if cu_offset c = length (cu_input c) then Inr ()
      else Inl (TrailingBytes (length (cu_input c) - cu_offset c)))"

text \<open>The \<open>for _ in 0..n\<close> loops that push what they read.\<close>

fun read_many :: "nat \<Rightarrow> 'a reader \<Rightarrow> 'a list reader" where
  "read_many 0 rd = rd_return []"
| "read_many (Suc n) rd = rd_bind rd (\<lambda>a. rd_bind (read_many n rd) (\<lambda>as. rd_return (a # as)))"

section \<open>Writers\<close>

definition write_u16 :: "u16 \<Rightarrow> bytes" where
  "write_u16 v = be_bytes 2 (unat v)"

definition write_u32 :: "u32 \<Rightarrow> bytes" where
  "write_u32 v = be_bytes 4 (unat v)"

definition write_u64 :: "u64 \<Rightarrow> bytes" where
  "write_u64 v = be_bytes 8 (unat v)"

definition write_bool :: "bool \<Rightarrow> bytes" where
  "write_bool v = [if v then 1 else 0]"

text \<open>The length is cast to \<open>u32\<close>, which truncates.\<close>

definition write_bytes :: "bytes \<Rightarrow> bytes" where
  "write_bytes v = write_u32 (word_of_nat (length v)) @ v"

definition write_string :: "string \<Rightarrow> bytes" where
  "write_string v = write_bytes (string_bytes v)"

section \<open>Namespaces and tags\<close>

definition is_ascii_alphanumeric :: "u8 \<Rightarrow> bool" where
  "is_ascii_alphanumeric b \<longleftrightarrow>
     (48 \<le> b \<and> b \<le> 57) \<or> (65 \<le> b \<and> b \<le> 90) \<or> (97 \<le> b \<and> b \<le> 122)"

definition is_valid_namespace :: "string \<Rightarrow> bool" where
  "is_valid_namespace ns \<longleftrightarrow>
     ns \<noteq> [] \<and> list_all (\<lambda>b. is_ascii_alphanumeric b \<or> b = 45 \<or> b = 95) (string_bytes ns)"

definition is_valid_tag :: "string \<Rightarrow> bool" where
  "is_valid_tag tag \<longleftrightarrow>
     tag \<noteq> [] \<and>
     list_all (\<lambda>b. is_ascii_alphanumeric b \<or> b \<in> {45, 95, 58, 46, 47}) (string_bytes tag)"

definition read_namespace :: "string reader" where
  "read_namespace =
     rd_bind read_string (\<lambda>ns. if is_valid_namespace ns then rd_return ns else rd_fail InvalidNamespace)"

definition read_tag :: "string reader" where
  "read_tag = rd_bind read_string (\<lambda>tag. if is_valid_tag tag then rd_return tag else rd_fail InvalidTag)"

definition read_borrowed_namespace :: "string reader" where
  "read_borrowed_namespace =
     rd_bind read_borrowed_string
       (\<lambda>ns. if is_valid_namespace ns then rd_return ns else rd_fail InvalidNamespace)"

definition read_borrowed_tag :: "string reader" where
  "read_borrowed_tag =
     rd_bind read_borrowed_string (\<lambda>tag. if is_valid_tag tag then rd_return tag else rd_fail InvalidTag)"

section \<open>What readers and writers promise\<close>

definition cursor_ok :: "cursor \<Rightarrow> bool" where
  "cursor_ok c \<longleftrightarrow> cu_offset c \<le> length (cu_input c) \<and> length (cu_input c) \<le> usize_max"

definition rest :: "cursor \<Rightarrow> bytes" where
  "rest c = drop (cu_offset c) (cu_input c)"

definition skip :: "usize \<Rightarrow> cursor \<Rightarrow> cursor" where
  "skip n c = c\<lparr>cu_offset := cu_offset c + n\<rparr>"

text \<open>The reader turns these bytes into this value, whatever follows them.\<close>

definition reads :: "'a reader \<Rightarrow> bytes \<Rightarrow> 'a \<Rightarrow> bool" where
  "reads rd bs a \<longleftrightarrow>
     (\<forall>c xs. cursor_ok c \<longrightarrow> rest c = bs @ xs \<longrightarrow> rd c = Inr (a, skip (length bs) c))"

text \<open>What the reader returns is well-formed, and it stays within the input.\<close>

definition sound :: "'a reader \<Rightarrow> ('a \<Rightarrow> bool) \<Rightarrow> bool" where
  "sound rd ok \<longleftrightarrow>
     (\<forall>c a c'. cursor_ok c \<longrightarrow> rd c = Inr (a, c') \<longrightarrow>
        ok a \<and> cursor_ok c' \<and> cu_input c' = cu_input c \<and> cu_offset c \<le> cu_offset c')"

named_theorems reads_intros \<open>what a reader returns on the bytes of a writer\<close>
named_theorems sound_intros \<open>what a reader can return\<close>

lemma skip_ok: "cursor_ok c \<Longrightarrow> rest c = bs @ xs \<Longrightarrow> cursor_ok (skip (length bs) c) \<and> rest (skip (length bs) c) = xs"
proof -
  assume ok: "cursor_ok c" and r: "rest c = bs @ xs"
  have "length (rest c) = length (cu_input c) - cu_offset c"
    by (simp add: rest_def)
  then have "cu_offset c + length bs \<le> length (cu_input c)"
    using ok r by (auto simp: cursor_ok_def)
  moreover have "rest (skip (length bs) c) = drop (length bs) (rest c)"
    by (simp add: rest_def skip_def add.commute)
  ultimately show ?thesis
    using ok r by (simp add: cursor_ok_def skip_def)
qed

lemma skip_skip [simp]: "skip m (skip n c) = skip (n + m) c"
  by (simp add: skip_def add.assoc)

lemma reads_return [reads_intros]: "reads (rd_return a) [] a"
  by (simp add: reads_def rd_return_def skip_def)

lemma reads_bind: "reads rd bs a \<Longrightarrow> reads (f a) cs b \<Longrightarrow> reads (rd_bind rd f) (bs @ cs) b"
proof -
  assume m: "reads rd bs a" and f: "reads (f a) cs b"
  have "rd_bind rd f c = Inr (b, skip (length (bs @ cs)) c)"
    if "cursor_ok c" "rest c = (bs @ cs) @ xs" for c xs
  proof -
    have r: "rest c = bs @ (cs @ xs)"
      using that(2) by simp
    have "rd c = Inr (a, skip (length bs) c)"
      using m that(1) r by (simp add: reads_def)
    moreover have "f a (skip (length bs) c) = Inr (b, skip (length cs) (skip (length bs) c))"
      using f skip_ok [OF that(1) r] by (simp add: reads_def)
    ultimately show ?thesis
      by (simp add: rd_bind_def rbind_def)
  qed
  then show ?thesis
    by (simp add: reads_def)
qed

lemma reads_bind_return: "reads rd bs a \<Longrightarrow> f a = rd_return b \<Longrightarrow> reads (rd_bind rd f) bs b"
  using reads_bind [of rd bs a f "[]" b] by (simp add: reads_return)

lemma sound_return [sound_intros]: "ok a \<Longrightarrow> sound (rd_return a) ok"
  by (simp add: sound_def rd_return_def)

lemma sound_fail [sound_intros]: "sound (rd_fail e) ok"
  by (simp add: sound_def rd_fail_def)

lemma sound_bind: "sound rd okm \<Longrightarrow> (\<And>a. okm a \<Longrightarrow> sound (f a) ok) \<Longrightarrow> sound (rd_bind rd f) ok"
proof -
  assume m: "sound rd okm" and f: "\<And>a. okm a \<Longrightarrow> sound (f a) ok"
  have "ok b \<and> cursor_ok c' \<and> cu_input c' = cu_input c \<and> cu_offset c \<le> cu_offset c'"
    if c: "cursor_ok c" and run: "rd_bind rd f c = Inr (b, c')" for c b c'
  proof -
    obtain a c1 where a: "rd c = Inr (a, c1)" and b: "f a c1 = Inr (b, c')"
      using run by (auto simp: rd_bind_def rbind_def split: sum.splits)
    have 1: "okm a" "cursor_ok c1" "cu_input c1 = cu_input c" "cu_offset c \<le> cu_offset c1"
      using m c a unfolding sound_def by blast+
    then have "ok b \<and> cursor_ok c' \<and> cu_input c' = cu_input c1 \<and> cu_offset c1 \<le> cu_offset c'"
      using f b unfolding sound_def by blast
    then show ?thesis
      using 1 by simp
  qed
  then show ?thesis
    unfolding sound_def by blast
qed

lemma sound_mono: "sound rd ok \<Longrightarrow> (\<And>a. ok a \<Longrightarrow> ok' a) \<Longrightarrow> sound rd ok'"
  unfolding sound_def by blast

locale codec =
  fixes rd :: "'a reader" and wr :: "'a \<Rightarrow> bytes" and ok :: "'a \<Rightarrow> bool"
  assumes reads_wr: "ok a \<Longrightarrow> reads rd (wr a) a"
    and sound_rd: "sound rd ok"
begin

lemma reads_many: "list_all ok as \<Longrightarrow> reads (read_many (length as) rd) (concat (map wr as)) as"
proof (induction as)
  case (Cons a as)
  have "reads (rd_bind (read_many (length as) rd) (\<lambda>as. rd_return (a # as))) (concat (map wr as)) (a # as)"
    by (rule reads_bind_return) (use Cons in auto)
  then show ?case
    using Cons.prems by (simp add: reads_bind [OF reads_wr])
qed (simp add: reads_return)

lemma sound_many: "sound (read_many n rd) (\<lambda>as. length as = n \<and> list_all ok as)"
proof (induction n)
  case (Suc n)
  have "sound (rd_bind (read_many n rd) (\<lambda>as. rd_return (a # as))) (\<lambda>as. length as = Suc n \<and> list_all ok as)"
    if "ok a" for a
    by (rule sound_bind [OF Suc]) (use that in \<open>simp add: sound_return\<close>)
  then show ?case
    by (simp add: sound_bind [OF sound_rd])
qed (simp add: sound_return)

text \<open>A reader that checks what it read is a codec for the values that pass.\<close>

lemma reads_checked:
  "ok a \<Longrightarrow> P a \<Longrightarrow> reads (rd_bind rd (\<lambda>a. if P a then rd_return a else rd_fail e)) (wr a) a"
  by (rule reads_bind_return [OF reads_wr]) simp_all

lemma sound_checked:
  "sound (rd_bind rd (\<lambda>a. if P a then rd_return a else rd_fail e)) (\<lambda>a. ok a \<and> P a)"
  by (rule sound_bind [OF sound_rd]) (simp add: sound_return sound_fail)

end

section \<open>Integers\<close>

lemma length_be_bytes [simp]: "length (be_bytes k n) = k"
  by (induction k arbitrary: n) simp_all

lemma from_be_snoc: "from_be (bs @ [b]) = from_be bs * 256 + unat b"
  by (simp add: from_be_def)

lemma from_be_be_bytes: "n < 256 ^ k \<Longrightarrow> from_be (be_bytes k n) = n"
proof (induction k arbitrary: n)
  case (Suc k)
  then have "n div 256 < 256 ^ k"
    by (simp add: less_mult_imp_div_less mult.commute)
  then show ?case
    using Suc.IH by (simp add: from_be_snoc unat_of_nat)
qed (simp add: from_be_def)

lemma from_be_less: "from_be bs < 256 ^ length bs"
proof (induction bs rule: rev_induct)
  case (snoc b bs)
  have "unat b < 256"
    using unsigned_less [of b, where ?'a = nat] by simp
  then show ?case
    using snoc by (simp add: from_be_snoc)
qed (simp add: from_be_def)

lemma be_bytes_from_be: "be_bytes (length bs) (from_be bs) = bs"
proof (induction bs rule: rev_induct)
  case (snoc b bs)
  have "unat b < 256"
    using unsigned_less [of b, where ?'a = nat] by simp
  then show ?case
    using snoc by (simp add: from_be_snoc)
qed simp

lemma reads_exact: "length bs = n \<Longrightarrow> reads (read_exact n) bs bs"
proof -
  assume n: "length bs = n"
  have "read_exact n c = Inr (bs, skip (length bs) c)" if "cursor_ok c" "rest c = bs @ xs" for c xs
  proof -
    have "cu_offset c + n \<le> length (cu_input c)" "take n (rest c) = bs"
      using skip_ok [OF that] that(2) n by (simp_all add: cursor_ok_def skip_def)
    then show ?thesis
      using that(1) n by (simp add: read_exact_def cursor_ok_def rest_def skip_def)
  qed
  then show ?thesis
    by (simp add: reads_def)
qed

lemma sound_exact: "sound (read_exact n) (\<lambda>bs. length bs = n)"
  by (auto simp: sound_def read_exact_def cursor_ok_def split: if_splits)

lemma reads_be:
  assumes "LENGTH('a) = 8 * k"
  shows "reads (rd_bind (read_exact k) (\<lambda>bs. rd_return (word_of_nat (from_be bs))))
    (be_bytes k (unat (w :: 'a :: len word))) w"
proof -
  have "unat w < 256 ^ k"
    using unsigned_less [of w, where ?'a = nat] by (simp add: assms power_mult)
  then have "word_of_nat (from_be (be_bytes k (unat w))) = w"
    by (simp add: from_be_be_bytes)
  then show ?thesis
    by (intro reads_bind_return [OF reads_exact]) simp_all
qed

interpretation u16: codec read_u16 write_u16 "\<lambda>_. True"
  by unfold_locales (simp_all add: read_u16_def write_u16_def reads_be
      sound_bind [OF sound_exact] sound_return)

interpretation u32: codec read_u32 write_u32 "\<lambda>_. True"
  by unfold_locales (simp_all add: read_u32_def write_u32_def reads_be
      sound_bind [OF sound_exact] sound_return)

interpretation u64: codec read_u64 write_u64 "\<lambda>_. True"
  by unfold_locales (simp_all add: read_u64_def write_u64_def reads_be
      sound_bind [OF sound_exact] sound_return)

section \<open>Fields\<close>

lemma reads_u8: "reads read_u8 [b] b"
proof -
  have "read_u8 c = Inr (b, skip 1 c)" if "cursor_ok c" "rest c = b # xs" for c xs
  proof -
    have "cu_offset c < length (cu_input c)"
      using that(2) by (metis drop_all leI list.distinct(1) rest_def)
    then show ?thesis
      using that(2) by (simp add: read_u8_def rest_def skip_def Cons_nth_drop_Suc [symmetric])
  qed
  then show ?thesis
    by (simp add: reads_def)
qed

lemma sound_u8: "sound read_u8 (\<lambda>_. True)"
  by (auto simp: sound_def read_u8_def cursor_ok_def split: if_splits)

interpretation bool: codec read_bool write_bool "\<lambda>_. True"
proof
  show "reads read_bool (write_bool b) b" for b
    unfolding read_bool_def write_bool_def by (rule reads_bind_return [OF reads_u8]) simp
  show "sound read_bool (\<lambda>_. True)"
    unfolding read_bool_def by (rule sound_bind [OF sound_u8]) (simp add: sound_return sound_fail)
qed

definition short :: "bytes \<Rightarrow> bool" where
  "short bs \<longleftrightarrow> length bs < 2 ^ 32"

lemma unat_u32_of_nat: "n < 2 ^ 32 \<Longrightarrow> unat (word_of_nat n :: u32) = n"
  by (simp add: unat_of_nat)

lemma unat_u32_less: "unat (w :: u32) < 2 ^ 32"
  using unsigned_less [of w, where ?'a = nat] by simp

interpretation bytes: codec read_bytes write_bytes short
proof
  show "reads read_bytes (write_bytes bs) bs" if "short bs" for bs
    unfolding read_bytes_def write_bytes_def
    by (rule reads_bind [OF u32.reads_wr reads_exact])
      (use that in \<open>simp_all add: short_def unat_u32_of_nat\<close>)
  show "sound read_bytes short"
    unfolding read_bytes_def
    by (rule sound_bind [OF u32.sound_rd])
      (rule sound_mono [OF sound_exact], simp add: short_def unat_u32_less [simplified])
qed

lemma bytes_string_string_bytes [simp]: "bytes_string (string_bytes s) = s"
  by (simp add: bytes_string_def string_bytes_def comp_def unat_of_nat)

lemma string_bytes_bytes_string [simp]: "string_bytes (bytes_string bs) = bs"
proof -
  have "unat (b :: u8) mod 256 = unat b" for b
    using unsigned_less [of b, where ?'a = nat] by simp
  then show ?thesis
    by (simp add: bytes_string_def string_bytes_def comp_def of_char_of)
qed

lemma length_string_bytes [simp]: "length (string_bytes s) = length s"
  by (simp add: string_bytes_def)

definition rust_string :: "string \<Rightarrow> bool" where
  "rust_string s \<longleftrightarrow> short (string_bytes s) \<and> utf8_valid (string_bytes s)"

lemma read_borrowed_eq [simp]:
  "read_borrowed_bytes = read_bytes" "read_borrowed_string = read_string"
  "read_borrowed_namespace = read_namespace" "read_borrowed_tag = read_tag"
  by (simp_all add: read_borrowed_bytes_def read_bytes_def read_borrowed_string_def read_string_def
      read_borrowed_namespace_def read_namespace_def read_borrowed_tag_def read_tag_def)

interpretation str: codec read_string write_string rust_string
proof
  show "reads read_string (write_string s) s" if "rust_string s" for s
    unfolding read_string_def write_string_def
    by (rule reads_bind_return [OF bytes.reads_wr]) (use that in \<open>simp_all add: rust_string_def\<close>)
  show "sound read_string rust_string"
    unfolding read_string_def
    by (rule sound_bind [OF bytes.sound_rd]) (simp add: sound_return sound_fail rust_string_def)
qed

lemma utf8_valid_ascii: "list_all (\<lambda>b. b < 0x80) bs \<Longrightarrow> utf8_valid bs"
  by (induction bs) simp_all

lemma alphanumeric_ascii: "is_ascii_alphanumeric b \<Longrightarrow> b < 0x80"
  by (auto simp: is_ascii_alphanumeric_def elim: order_le_less_trans)

lemma valid_namespace_ascii: "is_valid_namespace ns \<Longrightarrow> list_all (\<lambda>b. b < 0x80) (string_bytes ns)"
  by (auto simp: is_valid_namespace_def alphanumeric_ascii elim!: list.pred_mono_strong)

lemma valid_tag_ascii: "is_valid_tag tag \<Longrightarrow> list_all (\<lambda>b. b < 0x80) (string_bytes tag)"
  by (auto simp: is_valid_tag_def alphanumeric_ascii elim!: list.pred_mono_strong)

definition namespace_ok :: "string \<Rightarrow> bool" where
  "namespace_ok ns \<longleftrightarrow> length ns < 2 ^ 32 \<and> is_valid_namespace ns"

definition tag_ok :: "string \<Rightarrow> bool" where
  "tag_ok tag \<longleftrightarrow> length tag < 2 ^ 32 \<and> is_valid_tag tag"

lemma namespace_ok_iff: "namespace_ok ns \<longleftrightarrow> rust_string ns \<and> is_valid_namespace ns"
  by (auto simp: namespace_ok_def rust_string_def short_def utf8_valid_ascii valid_namespace_ascii)

lemma tag_ok_iff: "tag_ok tag \<longleftrightarrow> rust_string tag \<and> is_valid_tag tag"
  by (auto simp: tag_ok_def rust_string_def short_def utf8_valid_ascii valid_tag_ascii)

interpretation namespace: codec read_namespace write_string namespace_ok
  by unfold_locales (simp_all add: namespace_ok_iff read_namespace_def str.reads_checked
      sound_mono [OF str.sound_checked])

interpretation tag: codec read_tag write_string tag_ok
  by unfold_locales (simp_all add: tag_ok_iff read_tag_def str.reads_checked
      sound_mono [OF str.sound_checked])

end
