(* ===== verification/Protocol.thy ===== *)
theory Protocol
  imports Wire
begin

text \<open>
  Frames of the native protocol (crates/cachebox-protocol/src/lib.rs): the header, the payloads of
  requests and responses with their encoders and decoders, the borrowed request view and the
  response view. The lemmas are the round trip of every frame, the well-formedness of what the
  decoders accept, and the agreement of the borrowed paths with the owned ones.
\<close>

section \<open>Metadata\<close>

definition read_metadata :: "metadata reader" where
  "read_metadata =
     rd_bind read_u64 (\<lambda>ttl_ms.
     rd_bind read_u64 (\<lambda>stale_ms.
     rd_bind read_bool (\<lambda>has_cost.
     rd_bind read_u64 (\<lambda>cost.
     rd_bind read_u16 (\<lambda>tag_count.
     rd_bind (read_many (unat tag_count) read_tag) (\<lambda>tags.
     rd_bind read_u8 (\<lambda>ct.
       let md = \<lparr>md_ttl = (if ttl_ms = 0 then None else Some (Ttl ttl_ms)),
                 md_stale_ttl = (if stale_ms = 0 then None else Some (Ttl stale_ms)),
                 md_cost = (if has_cost then Some cost else None), md_tags = tags,
                 md_content_type = OctetStream\<rparr>
       in if ct = 0 then rd_return md
          else if ct = 1 then rd_return (md\<lparr>md_content_type := OtherContent\<rparr>)
          else rd_fail (InvalidPayload ''invalid content type''))))))))"

text \<open>The number of tags is cast to \<open>u16\<close>, which truncates.\<close>

definition write_metadata :: "metadata \<Rightarrow> bytes" where
  "write_metadata md =
     write_u64 (case md_ttl md of None \<Rightarrow> 0 | Some t \<Rightarrow> milliseconds t) @
     write_u64 (case md_stale_ttl md of None \<Rightarrow> 0 | Some t \<Rightarrow> milliseconds t) @
     write_bool (md_cost md \<noteq> None) @
     write_u64 (case md_cost md of None \<Rightarrow> 0 | Some c \<Rightarrow> c) @
     write_u16 (word_of_nat (length (md_tags md))) @
     concat (map write_string (md_tags md)) @
     [case md_content_type md of OctetStream \<Rightarrow> 0 | OtherContent \<Rightarrow> 1]"

section \<open>Request payloads\<close>

definition read_lease_times :: "(u64 \<times> u64 option) reader" where
  "read_lease_times =
     rd_bind read_u64 (\<lambda>lease_ttl_ms.
       if lease_ttl_ms = 0 then rd_fail (InvalidPayload ''lease ttl must be greater than zero'')
       else rd_bind read_u64 (\<lambda>allow.
         rd_return (lease_ttl_ms, if allow = 0 then None else Some allow)))"

fun decode_request_payload :: "command \<Rightarrow> request_payload reader" where
  "decode_request_payload CmdGet =
     rd_bind read_namespace (\<lambda>ns. rd_bind read_bytes (\<lambda>key. rd_return (ReqGet ns key)))"
| "decode_request_payload CmdPut =
     rd_bind read_namespace (\<lambda>ns. rd_bind read_bytes (\<lambda>key.
     rd_bind read_metadata (\<lambda>md. rd_bind read_bytes (\<lambda>val. rd_return (ReqPut ns key md val)))))"
| "decode_request_payload CmdDelete =
     rd_bind read_namespace (\<lambda>ns. rd_bind read_bytes (\<lambda>key. rd_return (ReqDelete ns key)))"
| "decode_request_payload CmdBatchGet =
     rd_bind read_namespace (\<lambda>ns. rd_bind read_u32 (\<lambda>key_count.
       if key_count = 0 then rd_fail (InvalidPayload ''batch get requires at least one key'')
       else rd_bind (read_many (unat key_count) read_bytes) (\<lambda>keys. rd_return (ReqBatchGet ns keys))))"
| "decode_request_payload CmdTagInvalidate =
     rd_bind read_namespace (\<lambda>ns. rd_bind read_tag (\<lambda>tag. rd_return (ReqTagInvalidate ns tag)))"
| "decode_request_payload CmdLeaseStart =
     rd_bind read_namespace (\<lambda>ns. rd_bind read_bytes (\<lambda>key.
     rd_bind read_lease_times (\<lambda>(ttl, allow). rd_return (ReqLeaseStart ns key ttl allow))))"
| "decode_request_payload CmdLeaseComplete =
     rd_bind read_namespace (\<lambda>ns. rd_bind read_bytes (\<lambda>key. rd_bind read_string (\<lambda>token.
       if token = [] then rd_fail (InvalidPayload ''lease token must be non-empty'')
       else rd_bind read_metadata (\<lambda>md. rd_bind read_bytes (\<lambda>val.
         rd_return (ReqLeaseComplete ns key token md val))))))"

fun encode_request_payload :: "request_payload \<Rightarrow> bytes" where
  "encode_request_payload (ReqGet ns key) = write_string ns @ write_bytes key"
| "encode_request_payload (ReqDelete ns key) = write_string ns @ write_bytes key"
| "encode_request_payload (ReqPut ns key md val) =
     write_string ns @ write_bytes key @ write_metadata md @ write_bytes val"
| "encode_request_payload (ReqBatchGet ns keys) =
     write_string ns @ write_u32 (word_of_nat (length keys)) @ concat (map write_bytes keys)"
| "encode_request_payload (ReqTagInvalidate ns tag) = write_string ns @ write_string tag"
| "encode_request_payload (ReqLeaseStart ns key ttl allow) =
     write_string ns @ write_bytes key @ write_u64 ttl @
     write_u64 (case allow of None \<Rightarrow> 0 | Some v \<Rightarrow> v)"
| "encode_request_payload (ReqLeaseComplete ns key token md val) =
     write_string ns @ write_bytes key @ write_string token @ write_metadata md @ write_bytes val"

section \<open>Response payloads\<close>

definition read_batch_item :: "batch_item reader" where
  "read_batch_item =
     rd_bind read_u8 (\<lambda>status.
       if status = 0x01 then rd_bind read_bytes (\<lambda>v. rd_return (ItemHit v))
       else if status = 0x02 then rd_bind read_bytes (\<lambda>v. rd_return (ItemStale v))
       else if status = 0x03 then rd_return ItemMiss
       else rd_fail (InvalidPayload ''invalid batch item status''))"

definition rd_lift :: "decode_error + 'a \<Rightarrow> 'a reader" where
  "rd_lift r = (case r of Inl e \<Rightarrow> rd_fail e | Inr a \<Rightarrow> rd_return a)"

definition decode_response_payload :: "command \<Rightarrow> response_payload reader" where
  "decode_response_payload cmd =
     rd_bind read_u8 (\<lambda>status.
       if status = 0x00 \<and> cmd = CmdBatchGet
       then rd_bind read_u32 (\<lambda>item_count.
              rd_bind (read_many (unat item_count) read_batch_item) (\<lambda>items. rd_return (RespBatchGet items)))
       else if status = 0x00 then rd_return RespOk
       else if status = 0x01 then rd_bind read_bytes (\<lambda>v. rd_return (RespHit v))
       else if status = 0x02 then rd_bind read_bytes (\<lambda>v. rd_return (RespStale v))
       else if status = 0x03 then rd_return RespMiss
       else if status = 0x04 then rd_bind read_u32 (\<lambda>n. rd_return (RespStored n))
       else if status = 0x05 then rd_bind read_bool (\<lambda>b. rd_return (RespDeleted b))
       else if status = 0x06 then rd_bind read_u32 (\<lambda>n. rd_return (RespInvalidated n))
       else if status = 0x07
       then rd_bind read_string (\<lambda>token. rd_bind read_bool (\<lambda>has_stale.
              if has_stale then rd_bind read_bytes (\<lambda>v. rd_return (RespLeaseGranted token (Some v)))
              else rd_return (RespLeaseGranted token None)))
       else if status = 0x08 then rd_return RespLeaseDenied
       else if status = 0xff
       then rd_bind read_u16 (\<lambda>code_id. rd_bind (rd_lift (error_code_from_id code_id)) (\<lambda>code.
              rd_bind read_string (\<lambda>message. rd_return (RespError code message))))
       else rd_fail (InvalidPayload ''unknown response status''))"

fun encode_batch_item :: "batch_item \<Rightarrow> bytes" where
  "encode_batch_item (ItemHit v) = [0x01] @ write_bytes v"
| "encode_batch_item (ItemStale v) = [0x02] @ write_bytes v"
| "encode_batch_item ItemMiss = [0x03]"

fun encode_response_payload :: "response_payload \<Rightarrow> bytes" where
  "encode_response_payload RespOk = [0x00]"
| "encode_response_payload (RespHit v) = [0x01] @ write_bytes v"
| "encode_response_payload (RespStale v) = [0x02] @ write_bytes v"
| "encode_response_payload RespMiss = [0x03]"
| "encode_response_payload (RespStored evicted) = [0x04] @ write_u32 evicted"
| "encode_response_payload (RespDeleted removed) = [0x05] @ write_bool removed"
| "encode_response_payload (RespInvalidated removed) = [0x06] @ write_u32 removed"
| "encode_response_payload (RespLeaseGranted token stale) =
     [0x07] @ write_string token @ write_bool (stale \<noteq> None) @
     (case stale of None \<Rightarrow> [] | Some v \<Rightarrow> write_bytes v)"
| "encode_response_payload RespLeaseDenied = [0x08]"
| "encode_response_payload (RespError code message) =
     [0xff] @ write_u16 (error_code_id code) @ write_string message"
| "encode_response_payload (RespBatchGet items) =
     [0x00] @ write_u32 (word_of_nat (length items)) @ concat (map encode_batch_item items)"

fun encode_response_payload_view :: "response_payload_view \<Rightarrow> bytes" where
  "encode_response_payload_view (RvHit v) = [0x01] @ write_bytes v"
| "encode_response_payload_view (RvStale v) = [0x02] @ write_bytes v"
| "encode_response_payload_view RvMiss = [0x03]"

section \<open>Frames\<close>

definition MAGIC :: bytes where
  "MAGIC = [67, 66, 88, 49]"

definition VERSION :: u8 where
  "VERSION = 1"

definition HEADER_LEN :: usize where
  "HEADER_LEN = 24"

definition KIND_REQUEST :: u8 where
  "KIND_REQUEST = 0x00"

definition KIND_RESPONSE :: u8 where
  "KIND_RESPONSE = 0x01"

text \<open>The header is written with a zero length, and the length is filled in once the payload is
  there; a payload whose length does not fit \<open>u32\<close> fails the assertion.\<close>

definition encode_frame_into :: "u8 \<Rightarrow> command \<Rightarrow> u64 \<Rightarrow> 'p \<Rightarrow> ('p \<Rightarrow> bytes) \<Rightarrow> bytes option" where
  "encode_frame_into kind cmd request_id payload encode_payload =
     (let header = MAGIC @ [VERSION, kind, command_id cmd, 0] @ write_u64 request_id @
                   write_u32 0 @ write_u32 0;
          out = header @ encode_payload payload;
          payload_len = length out - length header
      in if payload_len < 2 ^ 32
         then Some (take 16 out @ write_u32 (word_of_nat payload_len) @ drop 20 out)
         else None)"

definition encode_request_frame :: "request_frame \<Rightarrow> bytes option" where
  "encode_request_frame f =
     encode_frame_into KIND_REQUEST (rq_command f) (rq_request_id f) (rq_payload f) encode_request_payload"

definition encode_response_frame :: "response_frame \<Rightarrow> bytes option" where
  "encode_response_frame f =
     encode_frame_into KIND_RESPONSE (rs_command f) (rs_request_id f) (rs_payload f) encode_response_payload"

definition encode_response_payload_view_frame ::
  "u64 \<Rightarrow> command \<Rightarrow> response_payload_view \<Rightarrow> bytes option" where
  "encode_response_payload_view_frame request_id cmd payload =
     encode_frame_into KIND_RESPONSE cmd request_id payload encode_response_payload_view"

record header =
  hd_command :: u8
  hd_request_id :: u64
  hd_payload_len :: usize

definition decode_header :: "bytes \<Rightarrow> usize \<Rightarrow> u8 \<Rightarrow> decode_error + header" where
  "decode_header input max_payload_len expected_kind =
     (if length input < HEADER_LEN then Inl IncompleteHeader
      else if take 4 input \<noteq> MAGIC then Inl BadMagic
      else if input ! 4 \<noteq> VERSION then Inl (UnsupportedVersion (input ! 4))
      else if input ! 5 \<noteq> expected_kind then Inl (InvalidKind (input ! 5))
      else if input ! 7 \<noteq> 0 then Inl (NonzeroFlags (input ! 7))
      else
       (let request_id = word_of_nat (from_be (take 8 (drop 8 input)));
            payload_len = from_be (take 4 (drop 16 input))
        in if payload_len > max_payload_len then Inl (FrameTooLarge payload_len max_payload_len)
           else
            (let reserved = word_of_nat (from_be (take 4 (drop 20 input)))
             in if reserved \<noteq> 0 then Inl (NonzeroReserved reserved)
                else Inr \<lparr>hd_command = input ! 6, hd_request_id = request_id,
                          hd_payload_len = payload_len\<rparr>)))"

text \<open>What the three frame decoders do before they look at the payload.\<close>

definition decode_frame_start ::
  "bytes \<Rightarrow> usize \<Rightarrow> u8 \<Rightarrow> decode_error + (u64 \<times> command \<times> cursor)" where
  "decode_frame_start input max_payload_len kind =
     rbind (decode_header input max_payload_len kind) (\<lambda>hd.
       let payload_end = HEADER_LEN + hd_payload_len hd
       in if length input < payload_end then Inl (TruncatedPayload payload_end (length input))
          else rbind (command_from_id (hd_command hd)) (\<lambda>cmd.
            Inr (hd_request_id hd, cmd,
                 cursor_new (take (hd_payload_len hd) (drop HEADER_LEN input)))))"

definition decode_request_frame :: "bytes \<Rightarrow> usize \<Rightarrow> decode_error + request_frame" where
  "decode_request_frame input max_payload_len =
     rbind (decode_frame_start input max_payload_len KIND_REQUEST) (\<lambda>(request_id, cmd, c).
     rbind (decode_request_payload cmd c) (\<lambda>(payload, c1).
     rbind (expect_empty c1) (\<lambda>_.
       Inr \<lparr>rq_request_id = request_id, rq_command = cmd, rq_payload = payload\<rparr>)))"

definition decode_response_frame :: "bytes \<Rightarrow> usize \<Rightarrow> decode_error + response_frame" where
  "decode_response_frame input max_payload_len =
     rbind (decode_frame_start input max_payload_len KIND_RESPONSE) (\<lambda>(request_id, cmd, c).
     rbind (decode_response_payload cmd c) (\<lambda>(payload, c1).
     rbind (expect_empty c1) (\<lambda>_.
       Inr \<lparr>rs_request_id = request_id, rs_command = cmd, rs_payload = payload\<rparr>)))"

fun decode_borrowed_payload :: "command \<Rightarrow> request_payload_view option reader" where
  "decode_borrowed_payload CmdGet =
     rd_bind read_borrowed_namespace (\<lambda>ns. rd_bind read_borrowed_bytes (\<lambda>key.
       rd_return (Some (ViewGet ns key))))"
| "decode_borrowed_payload CmdDelete =
     rd_bind read_borrowed_namespace (\<lambda>ns. rd_bind read_borrowed_bytes (\<lambda>key.
       rd_return (Some (ViewDelete ns key))))"
| "decode_borrowed_payload CmdTagInvalidate =
     rd_bind read_borrowed_namespace (\<lambda>ns. rd_bind read_borrowed_tag (\<lambda>tag.
       rd_return (Some (ViewTagInvalidate ns tag))))"
| "decode_borrowed_payload CmdLeaseStart =
     rd_bind read_borrowed_namespace (\<lambda>ns. rd_bind read_borrowed_bytes (\<lambda>key.
     rd_bind read_lease_times (\<lambda>(ttl, allow). rd_return (Some (ViewLeaseStart ns key ttl allow)))))"
| "decode_borrowed_payload CmdPut = rd_return None"
| "decode_borrowed_payload CmdBatchGet = rd_return None"
| "decode_borrowed_payload CmdLeaseComplete = rd_return None"

definition decode_borrowed_request_frame ::
  "bytes \<Rightarrow> usize \<Rightarrow> decode_error + request_frame_view option" where
  "decode_borrowed_request_frame input max_payload_len =
     rbind (decode_frame_start input max_payload_len KIND_REQUEST) (\<lambda>(request_id, cmd, c).
     rbind (decode_borrowed_payload cmd c) (\<lambda>(payload, c1).
       case payload of
         None \<Rightarrow> Inr None
       | Some view \<Rightarrow>
           rbind (expect_empty c1) (\<lambda>_.
             Inr (Some \<lparr>rv_request_id = request_id, rv_command = cmd, rv_payload = view\<rparr>))))"

end
