(* ===== verification/Protocol_Props.thy ===== *)
theory Protocol_Props
  imports Protocol
begin

text \<open>
  The codec of the native protocol is correct: every frame with representable fields is decoded
  to itself, decoders return only well-formed frames, and the borrowed decoder and the view
  encoder agree with the owned ones.
\<close>

lemmas reads_int = u16.reads_wr [OF TrueI] u32.reads_wr [OF TrueI] u64.reads_wr [OF TrueI]
  bool.reads_wr [OF TrueI] reads_u8

lemmas sound_int = u16.sound_rd u32.sound_rd u64.sound_rd bool.sound_rd sound_u8

section \<open>Metadata\<close>

definition metadata_ok :: "metadata \<Rightarrow> bool" where
  "metadata_ok md \<longleftrightarrow>
     md_ttl md \<noteq> Some (Ttl 0) \<and> md_stale_ttl md \<noteq> Some (Ttl 0) \<and>
     length (md_tags md) < 2 ^ 16 \<and> list_all tag_ok (md_tags md)"

lemma unat_u16_of_nat: "n < 2 ^ 16 \<Longrightarrow> unat (word_of_nat n :: u16) = n"
  by (simp add: unat_of_nat)

lemma unat_u16_less: "unat (w :: u16) < 2 ^ 16"
  using unsigned_less [of w, where ?'a = nat] by simp

lemma ttl_field: "t \<noteq> Some (Ttl 0) \<Longrightarrow>
  (if (case t of None \<Rightarrow> 0 | Some t \<Rightarrow> milliseconds t) = 0 then None
   else Some (Ttl (case t of None \<Rightarrow> 0 | Some t \<Rightarrow> milliseconds t))) = t"
  by (cases t) (auto simp: ttl.expand)

interpretation metadata: codec read_metadata write_metadata metadata_ok
proof
  fix md
  assume ok: "metadata_ok md"
  have tags: "reads (read_many (unat (word_of_nat (length (md_tags md)) :: u16)) read_tag)
      (concat (map write_string (md_tags md))) (md_tags md)"
    using ok tag.reads_many [of "md_tags md"] by (simp add: metadata_ok_def unat_u16_of_nat)
  show "reads read_metadata (write_metadata md) md"
    unfolding read_metadata_def write_metadata_def
    by (intro reads_int [THEN reads_bind] tags [THEN reads_bind] reads_u8 [THEN reads_bind_return])
      (use ok in \<open>auto simp: metadata_ok_def ttl_field intro!: arg_cong [of _ _ rd_return]
        metadata.equality split: content_type.split\<close>)
next
  show "sound read_metadata metadata_ok"
    unfolding read_metadata_def
    by (intro sound_int [THEN sound_bind] tag.sound_many [THEN sound_bind])
      (auto simp: metadata_ok_def Let_def unat_u16_less [simplified] intro!: sound_return sound_fail)
qed

section \<open>Payloads\<close>

fun request_command :: "request_payload \<Rightarrow> command" where
  "request_command (ReqGet ns key) = CmdGet"
| "request_command (ReqPut ns key md val) = CmdPut"
| "request_command (ReqDelete ns key) = CmdDelete"
| "request_command (ReqBatchGet ns keys) = CmdBatchGet"
| "request_command (ReqTagInvalidate ns tag) = CmdTagInvalidate"
| "request_command (ReqLeaseStart ns key ttl allow) = CmdLeaseStart"
| "request_command (ReqLeaseComplete ns key token md val) = CmdLeaseComplete"

fun request_payload_ok :: "request_payload \<Rightarrow> bool" where
  "request_payload_ok (ReqGet ns key) = (namespace_ok ns \<and> short key)"
| "request_payload_ok (ReqPut ns key md val) =
     (namespace_ok ns \<and> short key \<and> metadata_ok md \<and> short val)"
| "request_payload_ok (ReqDelete ns key) = (namespace_ok ns \<and> short key)"
| "request_payload_ok (ReqBatchGet ns keys) =
     (namespace_ok ns \<and> keys \<noteq> [] \<and> length keys < 2 ^ 32 \<and> list_all short keys)"
| "request_payload_ok (ReqTagInvalidate ns tag) = (namespace_ok ns \<and> tag_ok tag)"
| "request_payload_ok (ReqLeaseStart ns key ttl allow) =
     (namespace_ok ns \<and> short key \<and> ttl \<noteq> 0 \<and> allow \<noteq> Some 0)"
| "request_payload_ok (ReqLeaseComplete ns key token md val) =
     (namespace_ok ns \<and> short key \<and> rust_string token \<and> token \<noteq> [] \<and> metadata_ok md \<and> short val)"

definition request_ok :: "command \<Rightarrow> request_payload \<Rightarrow> bool" where
  "request_ok cmd p \<longleftrightarrow> request_command p = cmd \<and> request_payload_ok p"

lemmas reads_field = namespace.reads_wr bytes.reads_wr tag.reads_wr metadata.reads_wr str.reads_wr

lemmas sound_field = namespace.sound_rd bytes.sound_rd tag.sound_rd metadata.sound_rd str.sound_rd

lemma reads_lease_times:
  "ttl \<noteq> 0 \<Longrightarrow> allow \<noteq> Some 0 \<Longrightarrow>
   reads read_lease_times (write_u64 ttl @ write_u64 (case allow of None \<Rightarrow> 0 | Some v \<Rightarrow> v)) (ttl, allow)"
  unfolding read_lease_times_def
  by (intro reads_int [THEN reads_bind])
    (auto intro!: reads_int [THEN reads_bind_return] split: option.split)

lemma sound_lease_times: "sound read_lease_times (\<lambda>(ttl, allow). ttl \<noteq> 0 \<and> allow \<noteq> Some 0)"
  unfolding read_lease_times_def
  by (rule sound_int [THEN sound_bind])
    (auto intro!: sound_fail sound_return sound_int [THEN sound_bind] split: if_splits)

lemma word_of_nat_u32_nonzero: "0 < n \<Longrightarrow> n < 2 ^ 32 \<Longrightarrow> (word_of_nat n :: u32) \<noteq> 0"
  using unat_u32_of_nat [of n] by auto

lemma reads_request_payload:
  "request_payload_ok p \<Longrightarrow> reads (decode_request_payload (request_command p)) (encode_request_payload p) p"
proof (induction p)
  case (ReqBatchGet ns keys)
  have "reads (read_many (unat (word_of_nat (length keys) :: u32)) read_bytes) (concat (map write_bytes keys)) keys"
    using ReqBatchGet bytes.reads_many [of keys] by (simp add: unat_u32_of_nat)
  then show ?case
    using ReqBatchGet
    by (auto intro!: reads_field [THEN reads_bind] reads_int [THEN reads_bind] simp: word_of_nat_u32_nonzero
        dest: reads_bind_return)
next
  case (ReqLeaseStart ns key ttl allow)
  then show ?case
    by (auto intro!: reads_field [THEN reads_bind] reads_lease_times [THEN reads_bind_return])
qed (auto intro!: reads_field [THEN reads_bind] reads_field [THEN reads_bind_return])

lemma sound_request_payload: "sound (decode_request_payload cmd) (request_ok cmd)"
proof (cases cmd)
  case CmdBatchGet
  have "sound (rd_bind (read_many (unat (n :: u32)) read_bytes) (\<lambda>keys. rd_return (ReqBatchGet ns keys)))
      (request_ok CmdBatchGet)" if "n \<noteq> 0" "namespace_ok ns" for n ns
    by (rule sound_bind [OF bytes.sound_many])
      (use that unat_u32_less [of n] in \<open>auto simp: request_ok_def unat_eq_zero intro!: sound_return\<close>)
  then show ?thesis
    using CmdBatchGet
    by (auto intro!: sound_field [THEN sound_bind] sound_int [THEN sound_bind] sound_fail)
next
  case CmdLeaseStart
  then show ?thesis
    by (auto intro!: sound_field [THEN sound_bind] sound_lease_times [THEN sound_bind] sound_return
        simp: request_ok_def)
qed (auto intro!: sound_field [THEN sound_bind] sound_return sound_fail simp: request_ok_def)

interpretation request: codec "decode_request_payload cmd" encode_request_payload "request_ok cmd" for cmd
  by unfold_locales (auto simp: request_ok_def reads_request_payload sound_request_payload)

fun batch_item_ok :: "batch_item \<Rightarrow> bool" where
  "batch_item_ok (ItemHit v) = short v"
| "batch_item_ok (ItemStale v) = short v"
| "batch_item_ok ItemMiss = True"

interpretation item: codec read_batch_item encode_batch_item batch_item_ok
proof
  show "reads read_batch_item (encode_batch_item i) i" if "batch_item_ok i" for i
    unfolding read_batch_item_def using that
    by (cases i) (auto intro!: reads_bind [OF reads_u8, of _ _ "write_bytes _", simplified]
        reads_bind_return [OF reads_u8] reads_field [THEN reads_bind_return])
  show "sound read_batch_item batch_item_ok"
    unfolding read_batch_item_def
    by (auto intro!: sound_int [THEN sound_bind] sound_field [THEN sound_bind] sound_return sound_fail)
qed

fun response_ok :: "command \<Rightarrow> response_payload \<Rightarrow> bool" where
  "response_ok cmd RespOk = (cmd \<noteq> CmdBatchGet)"
| "response_ok cmd (RespHit v) = short v"
| "response_ok cmd (RespStale v) = short v"
| "response_ok cmd (RespLeaseGranted token stale) =
     (rust_string token \<and> (case stale of None \<Rightarrow> True | Some v \<Rightarrow> short v))"
| "response_ok cmd (RespError code message) = rust_string message"
| "response_ok cmd (RespBatchGet items) =
     (cmd = CmdBatchGet \<and> length items < 2 ^ 32 \<and> list_all batch_item_ok items)"
| "response_ok cmd p = True"

lemma reads_byte_bind: "reads (f b) bs a \<Longrightarrow> reads (rd_bind read_u8 f) (b # bs) a"
  using reads_bind [OF reads_u8, of f b bs a] by simp

lemma reads_lift: "reads (f a) bs b \<Longrightarrow> r = Inr a \<Longrightarrow> reads (rd_bind (rd_lift r) f) bs b"
  using reads_bind [OF reads_return, of f a bs b] by (simp add: rd_lift_def)

lemma sound_lift: "sound (rd_lift r) (\<lambda>_. True)"
  by (simp add: rd_lift_def sound_fail sound_return split: sum.split)

lemma reads_response_payload:
  "response_ok cmd p \<Longrightarrow> reads (decode_response_payload cmd) (encode_response_payload p) p"
  unfolding decode_response_payload_def
proof (induction p)
  case (RespBatchGet items)
  have "reads (read_many (unat (word_of_nat (length items) :: u32)) read_batch_item)
      (concat (map encode_batch_item items)) items"
    using RespBatchGet item.reads_many [of items] by (simp add: unat_u32_of_nat)
  then show ?case
    using RespBatchGet
    by (auto intro!: reads_byte_bind reads_int [THEN reads_bind] dest: reads_bind_return)
next
  case (RespLeaseGranted token stale)
  then show ?case
    by (cases stale) (auto intro!: reads_byte_bind reads_field [THEN reads_bind]
        reads_int [THEN reads_bind] reads_int [THEN reads_bind_return] reads_field [THEN reads_bind_return])
next
  case (RespError code message)
  then show ?case
    by (auto intro!: reads_byte_bind reads_int [THEN reads_bind] reads_lift
        reads_field [THEN reads_bind_return])
qed (auto intro!: reads_byte_bind reads_return reads_int [THEN reads_bind_return]
    reads_field [THEN reads_bind_return])

lemma sound_response_payload: "sound (decode_response_payload cmd) (response_ok cmd)"
proof -
  have "sound (rd_bind (read_many (unat (n :: u32)) read_batch_item) (\<lambda>items. rd_return (RespBatchGet items)))
      (response_ok CmdBatchGet)" for n
    by (rule sound_bind [OF item.sound_many])
      (use unat_u32_less [of n] in \<open>auto intro!: sound_return\<close>)
  then show ?thesis
    unfolding decode_response_payload_def
    by (auto intro!: sound_int [THEN sound_bind] sound_field [THEN sound_bind] sound_lift [THEN sound_bind]
        sound_return sound_fail)
qed

interpretation response: codec "decode_response_payload cmd" encode_response_payload "response_ok cmd" for cmd
  by unfold_locales (simp_all add: reads_response_payload sound_response_payload)

section \<open>Frames\<close>

lemma from_be_write:
  "from_be (write_u64 v) = unat v" "from_be (write_u32 w) = unat w"
proof -
  have "unat v < 256 ^ 8" "unat w < 256 ^ 4"
    using unsigned_less [of v, where ?'a = nat] unsigned_less [of w, where ?'a = nat] by simp_all
  then show "from_be (write_u64 v) = unat v" "from_be (write_u32 w) = unat w"
    by (simp_all add: write_u64_def write_u32_def from_be_be_bytes)
qed

lemma length_write [simp]: "length (write_u64 v) = 8" "length (write_u32 w) = 4"
  by (simp_all add: write_u64_def write_u32_def)

lemma encode_frame_into_eq:
  "encode_frame_into kind cmd rid p enc =
     (if length (enc p) < 2 ^ 32
      then Some (MAGIC @ [VERSION, kind, command_id cmd, 0] @ write_u64 rid @
                 write_u32 (word_of_nat (length (enc p))) @ write_u32 0 @ enc p)
      else None)"
  by (simp add: encode_frame_into_def MAGIC_def Let_def)

lemma decode_frame_start_encode:
  assumes "encode_frame_into kind cmd rid p enc = Some bs" "length (enc p) \<le> max_len"
  shows "decode_frame_start (bs @ xs) max_len kind = Inr (rid, cmd, cursor_new (enc p))"
proof -
  have len: "length (enc p) < 2 ^ 32" and
    bs: "bs = MAGIC @ [VERSION, kind, command_id cmd, 0] @ write_u64 rid @
      write_u32 (word_of_nat (length (enc p))) @ write_u32 0 @ enc p"
    using assms(1) by (auto simp: encode_frame_into_eq split: if_splits)
  have "decode_header (bs @ xs) max_len kind =
      Inr \<lparr>hd_command = command_id cmd, hd_request_id = rid, hd_payload_len = length (enc p)\<rparr>"
    using assms(2) len
    by (simp add: decode_header_def bs MAGIC_def HEADER_LEN_def from_be_write unat_of_nat)
  then show ?thesis
    by (simp add: decode_frame_start_def rbind_def bs HEADER_LEN_def MAGIC_def)
qed

lemma reads_whole:
  assumes "reads rd bs a" "length bs \<le> usize_max"
  shows "rd (cursor_new bs) = Inr (a, skip (length bs) (cursor_new bs)) \<and>
    expect_empty (skip (length bs) (cursor_new bs)) = Inr ()"
proof -
  have "cursor_ok (cursor_new bs)" "rest (cursor_new bs) = bs @ []"
    using assms(2) by (simp_all add: cursor_ok_def cursor_new_def rest_def)
  then have "rd (cursor_new bs) = Inr (a, skip (length bs) (cursor_new bs))"
    using assms(1) unfolding reads_def by blast
  then show ?thesis
    by (simp add: expect_empty_def skip_def cursor_new_def)
qed

lemma encode_frame_length: "encode_frame_into kind cmd rid p enc = Some bs \<Longrightarrow> length (enc p) \<le> usize_max"
  by (auto simp: encode_frame_into_eq usize_max_def split: if_splits)

lemma request_round_trip:
  assumes "encode_request_frame f = Some bs" "request_ok (rq_command f) (rq_payload f)"
    and "length (encode_request_payload (rq_payload f)) \<le> max_len"
  shows "decode_request_frame (bs @ xs) max_len = Inr f"
proof -
  note enc = assms(1) [unfolded encode_request_frame_def]
  show ?thesis
    using reads_whole [OF request.reads_wr [OF assms(2)] encode_frame_length [OF enc]]
      decode_frame_start_encode [OF enc assms(3)]
    by (simp add: decode_request_frame_def rbind_def)
qed

lemma response_round_trip:
  assumes "encode_response_frame f = Some bs" "response_ok (rs_command f) (rs_payload f)"
    and "length (encode_response_payload (rs_payload f)) \<le> max_len"
  shows "decode_response_frame (bs @ xs) max_len = Inr f"
proof -
  note enc = assms(1) [unfolded encode_response_frame_def]
  show ?thesis
    using reads_whole [OF response.reads_wr [OF assms(2)] encode_frame_length [OF enc]]
      decode_frame_start_encode [OF enc assms(3)]
    by (simp add: decode_response_frame_def rbind_def)
qed

text \<open>What the decoders return is well-formed.\<close>

lemma decode_frame_start_cursor:
  "decode_frame_start input max_len kind = Inr (rid, cmd, c) \<Longrightarrow>
   \<exists>bs. c = cursor_new bs \<and> length bs \<le> max_len \<and> length bs < 2 ^ 32 \<and> HEADER_LEN + length bs \<le> length input"
proof -
  have "from_be (take 4 (drop 16 input)) < 2 ^ 32"
    using from_be_less [of "take 4 (drop 16 input)"]
      power_increasing [of "length (take 4 (drop 16 input))" 4 "256 :: nat"]
    by simp
  then show "decode_frame_start input max_len kind = Inr (rid, cmd, c) \<Longrightarrow> ?thesis"
    by (auto simp: decode_frame_start_def decode_header_def rbind_def Let_def
        split: sum.splits if_splits)
qed

lemma cursor_new_ok: "length bs < 2 ^ 32 \<Longrightarrow> cursor_ok (cursor_new bs)"
  by (simp add: cursor_ok_def cursor_new_def usize_max_def)

lemma decoded_request_ok:
  assumes "decode_request_frame input max_len = Inr f"
  shows "request_ok (rq_command f) (rq_payload f)"
proof -
  obtain rid cmd c p c1 where start: "decode_frame_start input max_len KIND_REQUEST = Inr (rid, cmd, c)"
    and p: "decode_request_payload cmd c = Inr (p, c1)"
    and f: "f = \<lparr>rq_request_id = rid, rq_command = cmd, rq_payload = p\<rparr>"
    using assms by (auto simp: decode_request_frame_def rbind_def split: sum.splits prod.splits)
  obtain bs where "c = cursor_new bs" "length bs < 2 ^ 32"
    using decode_frame_start_cursor [OF start] by blast
  then have "cursor_ok c"
    by (simp add: cursor_new_ok)
  then have "request_ok cmd p"
    using request.sound_rd [of cmd] p unfolding sound_def by blast
  then show ?thesis
    using f by simp
qed

lemma decoded_response_ok:
  assumes "decode_response_frame input max_len = Inr f"
  shows "response_ok (rs_command f) (rs_payload f)"
proof -
  obtain rid cmd c p c1 where start: "decode_frame_start input max_len KIND_RESPONSE = Inr (rid, cmd, c)"
    and p: "decode_response_payload cmd c = Inr (p, c1)"
    and f: "f = \<lparr>rs_request_id = rid, rs_command = cmd, rs_payload = p\<rparr>"
    using assms by (auto simp: decode_response_frame_def rbind_def split: sum.splits prod.splits)
  obtain bs where "c = cursor_new bs" "length bs < 2 ^ 32"
    using decode_frame_start_cursor [OF start] by blast
  then have "cursor_ok c"
    by (simp add: cursor_new_ok)
  then have "response_ok cmd p"
    using response.sound_rd [of cmd] p unfolding sound_def by blast
  then show ?thesis
    using f by simp
qed

section \<open>Properties of the codec\<close>

definition sample_request :: request_frame where
  "sample_request =
     \<lparr>rq_request_id = 7, rq_command = CmdPut,
      rq_payload = ReqPut ''ns'' [1] \<lparr>md_ttl = Some (Ttl 50), md_stale_ttl = None, md_cost = Some 5,
        md_tags = [''t''], md_content_type = OctetStream\<rparr> [7, 8]\<rparr>"

definition sample_response :: response_frame where
  "sample_response =
     \<lparr>rs_request_id = 7, rs_command = CmdBatchGet, rs_payload = RespBatchGet [ItemHit [7, 8], ItemMiss]\<rparr>"

lemma sample_strings: "string_bytes ''ns'' = [110, 115]" "string_bytes ''t'' = [116]"
  by (simp_all add: string_bytes_def)

lemma sample_request_ok: "request_ok (rq_command sample_request) (rq_payload sample_request)"
  by (simp add: sample_request_def request_ok_def namespace_ok_def tag_ok_def metadata_ok_def short_def
      is_valid_namespace_def is_valid_tag_def sample_strings is_ascii_alphanumeric_def)

lemma sample_request_encodes:
  "\<exists>bs. encode_request_frame sample_request = Some bs \<and>
     length (encode_request_payload (rq_payload sample_request)) \<le> 1024"
  by (simp add: encode_request_frame_def encode_frame_into_eq sample_request_def write_metadata_def
      write_string_def write_bytes_def write_bool_def write_u16_def)

lemma sample_response_encodes:
  "\<exists>bs. encode_response_frame sample_response = Some bs \<and>
     length (encode_response_payload (rs_payload sample_response)) \<le> 1024"
  by (simp add: encode_response_frame_def encode_frame_into_eq sample_response_def write_bytes_def)

text \<open>C9. A request frame that is encoded and decoded again, whatever bytes follow it in the buffer,
  comes back unchanged exactly when its command fits its payload and all its fields are
  representable: valid namespace and tags, nonzero optional times, a nonzero lease time, a lease
  token, at least one key of a batch, and lengths within their counters. Any other frame is
  changed or refused.\<close>

theorem request_round_trip_iff:
  assumes "encode_request_frame f = Some bs"
    and "length (encode_request_payload (rq_payload f)) \<le> max_len"
  shows "decode_request_frame (bs @ xs) max_len = Inr f \<longleftrightarrow> request_ok (rq_command f) (rq_payload f)"
  using request_round_trip [OF assms(1) _ assms(2)] decoded_request_ok by blast

theorem request_round_trip_iff_witness:
  "\<exists>bs. encode_request_frame sample_request = Some bs \<and> decode_request_frame (bs @ [1, 2]) 1024 = Inr sample_request"
  using sample_request_encodes request_round_trip_iff [of sample_request _ 1024] sample_request_ok by blast

text \<open>C19. The same for responses: a response frame survives encoding and decoding exactly when its
  values and strings are representable and a batch payload belongs to the batch command.\<close>

theorem response_round_trip_iff:
  assumes "encode_response_frame f = Some bs"
    and "length (encode_response_payload (rs_payload f)) \<le> max_len"
  shows "decode_response_frame (bs @ xs) max_len = Inr f \<longleftrightarrow> response_ok (rs_command f) (rs_payload f)"
  using response_round_trip [OF assms(1) _ assms(2)] decoded_response_ok by blast

theorem response_round_trip_iff_witness:
  "\<exists>bs. encode_response_frame sample_response = Some bs \<and>
     decode_response_frame (bs @ []) 1024 = Inr sample_response"
proof -
  have "response_ok (rs_command sample_response) (rs_payload sample_response)"
    by (simp add: sample_response_def short_def)
  then show ?thesis
    using sample_response_encodes response_round_trip_iff [of sample_response _ 1024] by blast
qed

text \<open>C18. The decoders are type safe: whatever bytes arrive, a frame that is accepted carries a payload
  of its own command, and every field of it is in the range that the encoder can write: a valid
  namespace, tags and token, strings in UTF-8, lengths and counts of 32 (for tags 16) bits, no zero
  duration, a batch that is not empty, and a batch result only for the batch command.\<close>

theorem decoded_frames_are_typed:
  "(case decode_request_frame input max_len of
      Inl err \<Rightarrow> True
    | Inr f \<Rightarrow> request_command (rq_payload f) = rq_command f \<and> request_payload_ok (rq_payload f)) \<and>
   (case decode_response_frame input max_len of
      Inl err \<Rightarrow> True
    | Inr f \<Rightarrow> response_ok (rs_command f) (rs_payload f))"
  using decoded_request_ok [of input max_len] decoded_response_ok [of input max_len]
  by (auto simp: request_ok_def split: sum.split)

fun view_of :: "request_payload \<Rightarrow> request_payload_view option" where
  "view_of (ReqGet ns key) = Some (ViewGet ns key)"
| "view_of (ReqDelete ns key) = Some (ViewDelete ns key)"
| "view_of (ReqTagInvalidate ns tag) = Some (ViewTagInvalidate ns tag)"
| "view_of (ReqLeaseStart ns key ttl allow) = Some (ViewLeaseStart ns key ttl allow)"
| "view_of p = None"

definition frame_view_of :: "request_frame \<Rightarrow> request_frame_view option" where
  "frame_view_of f =
     map_option (\<lambda>v. \<lparr>rv_request_id = rq_request_id f, rv_command = rq_command f, rv_payload = v\<rparr>)
       (view_of (rq_payload f))"

definition has_view :: "command \<Rightarrow> bool" where
  "has_view cmd \<longleftrightarrow> cmd \<in> {CmdGet, CmdDelete, CmdTagInvalidate, CmdLeaseStart}"

lemma decode_borrowed_payload_eq:
  "has_view cmd \<Longrightarrow>
   decode_borrowed_payload cmd c = rbind (decode_request_payload cmd c) (\<lambda>(p, c1). Inr (view_of p, c1))"
  by (cases cmd) (auto simp: has_view_def rd_bind_def rbind_def rd_return_def split: sum.split)

lemma decode_borrowed_payload_None: "\<not> has_view cmd \<Longrightarrow> decode_borrowed_payload cmd c = Inr (None, c)"
  by (cases cmd) (simp_all add: has_view_def rd_return_def)

lemma view_of_Some: "has_view (request_command p) \<longleftrightarrow> view_of p \<noteq> None"
  by (cases p) (simp_all add: has_view_def)

text \<open>The borrowed decoder agrees with the owned one: for the four commands that have a borrowed
  view it returns exactly the view of the owned frame, or the same error; for the other commands
  it asks for the owned path once the header and the command are accepted.\<close>

lemma borrowed_decoder_agrees:
  "decode_borrowed_request_frame input max_len =
     rbind (decode_frame_start input max_len KIND_REQUEST) (\<lambda>(request_id, cmd, c).
       if has_view cmd then rbind (decode_request_frame input max_len) (\<lambda>f. Inr (frame_view_of f))
       else Inr None)"
proof (cases "decode_frame_start input max_len KIND_REQUEST")
  case (Inr r)
  obtain rid cmd c where r: "r = (rid, cmd, c)"
    by (cases r)
  obtain bs where "c = cursor_new bs" "length bs < 2 ^ 32"
    using decode_frame_start_cursor [of input max_len KIND_REQUEST rid cmd c] Inr r by blast
  then have c: "cursor_ok c"
    by (simp add: cursor_new_ok)
  have "view_of p \<noteq> None" if "decode_request_payload cmd c = Inr (p, c1)" "has_view cmd" for p c1
    using request.sound_rd [of cmd] c that view_of_Some [of p] unfolding sound_def request_ok_def by blast
  then show ?thesis
    using Inr r
    by (cases "decode_request_payload cmd c")
      (auto simp: decode_borrowed_request_frame_def decode_request_frame_def rbind_def frame_view_of_def
        decode_borrowed_payload_eq decode_borrowed_payload_None split: option.split sum.split)
qed (simp add: decode_borrowed_request_frame_def rbind_def)

fun payload_of_view :: "response_payload_view \<Rightarrow> response_payload" where
  "payload_of_view (RvHit v) = RespHit v"
| "payload_of_view (RvStale v) = RespStale v"
| "payload_of_view RvMiss = RespMiss"

text \<open>Encoding a response view writes the same frame as encoding the owned response it stands
  for.\<close>

lemma view_encoder_agrees:
  "encode_response_payload_view_frame request_id cmd view =
     encode_response_frame \<lparr>rs_request_id = request_id, rs_command = cmd, rs_payload = payload_of_view view\<rparr>"
  by (cases view) (simp_all add: encode_response_payload_view_frame_def encode_response_frame_def
      encode_frame_into_eq)

end
