(* ===== verification/Server.thy ===== *)
theory Server
  imports Sharded_Props Protocol_Props
begin

text \<open>
  The server of src/server.rs: its metrics, the execution of a native request on the sharded
  cache by the owned and by the borrowed path, the answer to bytes that do not decode, the admin
  routes, the splitting of a connection's bytes into frames, and the batching of responses. A
  handler takes the application state to its answer and the new state; the index of the metrics
  shard stands for the reference that the source passes.
\<close>

unbundle bit_operations_syntax

section \<open>Metrics\<close>

definition MAX_IN_FLIGHT_PER_CONNECTION :: usize where
  "MAX_IN_FLIGHT_PER_CONNECTION = 128"

definition MAX_RESPONSE_WRITE_BATCH_FRAMES :: usize where
  "MAX_RESPONSE_WRITE_BATCH_FRAMES = 32"

definition MAX_RESPONSE_WRITE_BATCH_BYTES :: usize where
  "MAX_RESPONSE_WRITE_BATCH_BYTES = 64 * 1024"

definition METRIC_SHARD_COUNT :: usize where
  "METRIC_SHARD_COUNT = 64"

record metrics =
  requests_total :: u64
  health_requests :: u64
  get_requests :: u64
  put_requests :: u64
  delete_requests :: u64
  batch_get_requests :: u64
  tag_invalidate_requests :: u64
  hits_total :: u64
  misses_total :: u64
  stale_total :: u64
  lease_grants :: u64
  lease_denials :: u64
  errors_total :: u64

definition metrics_zero :: metrics where
  "metrics_zero =
     \<lparr>requests_total = 0, health_requests = 0, get_requests = 0, put_requests = 0,
      delete_requests = 0, batch_get_requests = 0, tag_invalidate_requests = 0, hits_total = 0,
      misses_total = 0, stale_total = 0, lease_grants = 0, lease_denials = 0, errors_total = 0\<rparr>"

definition metrics_saturating_add :: "metrics \<Rightarrow> metrics \<Rightarrow> metrics" where
  "metrics_saturating_add a b =
     \<lparr>requests_total = u64_saturating_add (requests_total a) (requests_total b),
      health_requests = u64_saturating_add (health_requests a) (health_requests b),
      get_requests = u64_saturating_add (get_requests a) (get_requests b),
      put_requests = u64_saturating_add (put_requests a) (put_requests b),
      delete_requests = u64_saturating_add (delete_requests a) (delete_requests b),
      batch_get_requests = u64_saturating_add (batch_get_requests a) (batch_get_requests b),
      tag_invalidate_requests =
        u64_saturating_add (tag_invalidate_requests a) (tag_invalidate_requests b),
      hits_total = u64_saturating_add (hits_total a) (hits_total b),
      misses_total = u64_saturating_add (misses_total a) (misses_total b),
      stale_total = u64_saturating_add (stale_total a) (stale_total b),
      lease_grants = u64_saturating_add (lease_grants a) (lease_grants b),
      lease_denials = u64_saturating_add (lease_denials a) (lease_denials b),
      errors_total = u64_saturating_add (errors_total a) (errors_total b)\<rparr>"

record app_state =
  ap_engine :: sharded_engine
  ap_metrics :: "metrics list"

definition metrics_default :: "metrics list" where
  "metrics_default = map (\<lambda>_. metrics_zero) [0..<METRIC_SHARD_COUNT]"

definition app_from_limits :: "engine_limits \<Rightarrow> app_state option" where
  "app_from_limits lim =
     map_option (\<lambda>s. \<lparr>ap_engine = s, ap_metrics = metrics_default\<rparr>) (sharded_with_limits lim)"

definition metrics_shard_for_request :: "app_state \<Rightarrow> u64 \<Rightarrow> u64 \<Rightarrow> nat" where
  "metrics_shard_for_request st connection_id request_id =
     unat (connection_id XOR word_rotl 17 request_id) mod length (ap_metrics st)"

definition metrics_snapshot :: "app_state \<Rightarrow> metrics" where
  "metrics_snapshot st = fold (\<lambda>m total. metrics_saturating_add total m) (ap_metrics st) metrics_zero"

text \<open>\<open>fetch_add(1, Relaxed)\<close> on a counter of one shard; atomic addition wraps.\<close>

definition count :: "nat \<Rightarrow> (metrics \<Rightarrow> metrics) \<Rightarrow> app_state \<Rightarrow> app_state" where
  "count i f st = st\<lparr>ap_metrics := (ap_metrics st)[i := f (ap_metrics st ! i)]\<rparr>"

definition inc_hits :: "metrics \<Rightarrow> metrics" where "inc_hits m = m\<lparr>hits_total := hits_total m + 1\<rparr>"
definition inc_stale :: "metrics \<Rightarrow> metrics" where "inc_stale m = m\<lparr>stale_total := stale_total m + 1\<rparr>"
definition inc_misses :: "metrics \<Rightarrow> metrics" where "inc_misses m = m\<lparr>misses_total := misses_total m + 1\<rparr>"
definition inc_errors :: "metrics \<Rightarrow> metrics" where "inc_errors m = m\<lparr>errors_total := errors_total m + 1\<rparr>"
definition inc_gets :: "metrics \<Rightarrow> metrics" where "inc_gets m = m\<lparr>get_requests := get_requests m + 1\<rparr>"
definition inc_puts :: "metrics \<Rightarrow> metrics" where "inc_puts m = m\<lparr>put_requests := put_requests m + 1\<rparr>"
definition inc_deletes :: "metrics \<Rightarrow> metrics" where
  "inc_deletes m = m\<lparr>delete_requests := delete_requests m + 1\<rparr>"
definition inc_batch_gets :: "metrics \<Rightarrow> metrics" where
  "inc_batch_gets m = m\<lparr>batch_get_requests := batch_get_requests m + 1\<rparr>"
definition inc_tag_invalidates :: "metrics \<Rightarrow> metrics" where
  "inc_tag_invalidates m = m\<lparr>tag_invalidate_requests := tag_invalidate_requests m + 1\<rparr>"
definition inc_lease_grants :: "metrics \<Rightarrow> metrics" where
  "inc_lease_grants m = m\<lparr>lease_grants := lease_grants m + 1\<rparr>"
definition inc_lease_denials :: "metrics \<Rightarrow> metrics" where
  "inc_lease_denials m = m\<lparr>lease_denials := lease_denials m + 1\<rparr>"

definition on_engine :: "(sharded_engine \<Rightarrow> 'r \<times> sharded_engine) \<Rightarrow> app_state \<Rightarrow> 'r \<times> app_state" where
  "on_engine f st = (let (r, s) = f (ap_engine st) in (r, st\<lparr>ap_engine := s\<rparr>))"

section \<open>Execution of requests\<close>

definition u32_clamp :: "usize \<Rightarrow> u32" where
  "u32_clamp n = word_of_nat (min n (2 ^ 32 - 1))"

definition native_put_command :: "string \<Rightarrow> bytes \<Rightarrow> metadata \<Rightarrow> bytes \<Rightarrow> put_command" where
  "native_put_command ns key md val =
     \<lparr>pc_namespace = ns, pc_key = key, pc_value = val, pc_ttl = md_ttl md,
      pc_stale_ttl = md_stale_ttl md, pc_tags = md_tags md, pc_cost = md_cost md\<rparr>"

fun native_put_error :: "put_error \<Rightarrow> response_payload" where
  "native_put_error (ValueTooLarge a b) =
     RespError EcValueTooLarge ''value exceeds configured value limit''"
| "native_put_error (ValueTooLargeForMemory a b) =
     RespError EcEntryTooLarge ''entry cannot fit configured memory limit''"
| "native_put_error (InsufficientMemory a b c) =
     RespError EcInsufficientMemory ''entry could not fit after cleanup and eviction''"

definition execute_native_get ::
  "hasher \<Rightarrow> env \<Rightarrow> nat \<Rightarrow> string \<Rightarrow> bytes \<Rightarrow> app_state \<Rightarrow> response_payload \<times> app_state" where
  "execute_native_get h env i ns key st =
     (let (out, st1) = on_engine (sharded_get h env ns key) (count i inc_gets st)
      in case out of
           OutHit v \<Rightarrow> (RespHit v, count i inc_hits st1)
         | OutStale v \<Rightarrow> (RespStale v, count i inc_stale st1)
         | OutMiss \<Rightarrow> (RespMiss, count i inc_misses st1))"

definition execute_native_lease_start ::
  "hasher \<Rightarrow> env \<Rightarrow> nat \<Rightarrow> string \<Rightarrow> bytes \<Rightarrow> u64 \<Rightarrow> app_state \<Rightarrow> response_payload \<times> app_state" where
  "execute_native_lease_start h env i ns key lease_ttl_ms st =
     (let (out, st1) = on_engine (sharded_start_lease h env ns key lease_ttl_ms) st
      in case out of
           SlHit v \<Rightarrow> (RespHit v, count i inc_hits st1)
         | SlStale v \<Rightarrow> (RespStale v, count i inc_stale st1)
         | SlLeaseGranted token stale \<Rightarrow> (RespLeaseGranted token stale, count i inc_lease_grants st1)
         | SlLeaseDenied \<Rightarrow> (RespLeaseDenied, count i inc_lease_denials st1))"

definition execute_native_delete ::
  "hasher \<Rightarrow> nat \<Rightarrow> string \<Rightarrow> bytes \<Rightarrow> app_state \<Rightarrow> response_payload \<times> app_state" where
  "execute_native_delete h i ns key st =
     (let (removed, st1) = on_engine (sharded_delete h ns key) (count i inc_deletes st)
      in (RespDeleted removed, st1))"

definition execute_native_tag_invalidate ::
  "env \<Rightarrow> nat \<Rightarrow> string \<Rightarrow> string \<Rightarrow> app_state \<Rightarrow> response_payload \<times> app_state" where
  "execute_native_tag_invalidate env i ns tag st =
     (let (removed, st1) = on_engine (sharded_invalidate_tag env ns tag) (count i inc_tag_invalidates st)
      in (RespInvalidated (u32_clamp removed), st1))"

text \<open>The loop that turns the outcomes of a batch into items and counts them.\<close>

fun batch_items :: "nat \<Rightarrow> get_outcome list \<Rightarrow> app_state \<Rightarrow> batch_item list \<times> app_state" where
  "batch_items i [] st = ([], st)"
| "batch_items i (out # outs) st =
     (let (item, st1) = (case out of
            OutHit v \<Rightarrow> (ItemHit v, count i inc_hits st)
          | OutStale v \<Rightarrow> (ItemStale v, count i inc_stale st)
          | OutMiss \<Rightarrow> (ItemMiss, count i inc_misses st));
          (items, st2) = batch_items i outs st1
      in (item # items, st2))"

definition execute_native_put ::
  "hasher \<Rightarrow> env \<Rightarrow> nat \<Rightarrow> put_command \<Rightarrow> app_state \<Rightarrow> response_payload \<times> app_state" where
  "execute_native_put h env i cmd st =
     (let (r, st1) = on_engine (sharded_put h env cmd) (count i inc_puts st)
      in case r of
           Inr outcome \<Rightarrow> (RespStored (u32_clamp (po_evicted outcome)), st1)
         | Inl err \<Rightarrow> (native_put_error err, count i inc_errors st1))"

definition execute_native_lease_complete ::
  "hasher \<Rightarrow> env \<Rightarrow> nat \<Rightarrow> complete_lease_command \<Rightarrow> app_state \<Rightarrow> response_payload \<times> app_state" where
  "execute_native_lease_complete h env i cmd st =
     (let (r, st1) = on_engine (sharded_complete_lease h env cmd) st
      in case r of
           Inr outcome \<Rightarrow> (RespStored (u32_clamp (po_evicted outcome)), st1)
         | Inl InvalidLeaseToken \<Rightarrow>
             (RespError EcInvalidLeaseToken ''lease token is missing, expired, or no longer active'',
              count i inc_errors st1)
         | Inl (ClPut err) \<Rightarrow> (native_put_error err, count i inc_errors st1))"

fun execute_native_payload_with_metrics ::
  "hasher \<Rightarrow> env \<Rightarrow> nat \<Rightarrow> request_payload \<Rightarrow> app_state \<Rightarrow> response_payload \<times> app_state" where
  "execute_native_payload_with_metrics h env i (ReqGet ns key) st = execute_native_get h env i ns key st"
| "execute_native_payload_with_metrics h env i (ReqPut ns key md val) st =
     execute_native_put h env i (native_put_command ns key md val) st"
| "execute_native_payload_with_metrics h env i (ReqDelete ns key) st = execute_native_delete h i ns key st"
| "execute_native_payload_with_metrics h env i (ReqBatchGet ns keys) st =
     (let (outs, st1) = on_engine (sharded_batch_get h env ns keys) (count i inc_batch_gets st);
          (items, st2) = batch_items i outs st1
      in (RespBatchGet items, st2))"
| "execute_native_payload_with_metrics h env i (ReqTagInvalidate ns tag) st =
     execute_native_tag_invalidate env i ns tag st"
| "execute_native_payload_with_metrics h env i (ReqLeaseStart ns key ttl allow) st =
     execute_native_lease_start h env i ns key ttl st"
| "execute_native_payload_with_metrics h env i (ReqLeaseComplete ns key token md val) st =
     execute_native_lease_complete h env i
       \<lparr>cl_namespace = ns, cl_key = key, cl_lease_token = token, cl_value = val, cl_ttl = md_ttl md,
        cl_stale_ttl = md_stale_ttl md, cl_tags = md_tags md, cl_cost = md_cost md\<rparr> st"

fun execute_native_payload_view ::
  "hasher \<Rightarrow> env \<Rightarrow> nat \<Rightarrow> request_payload_view \<Rightarrow> app_state \<Rightarrow> response_payload \<times> app_state" where
  "execute_native_payload_view h env i (ViewGet ns key) st = execute_native_get h env i ns key st"
| "execute_native_payload_view h env i (ViewDelete ns key) st = execute_native_delete h i ns key st"
| "execute_native_payload_view h env i (ViewTagInvalidate ns tag) st =
     execute_native_tag_invalidate env i ns tag st"
| "execute_native_payload_view h env i (ViewLeaseStart ns key ttl allow) st =
     execute_native_lease_start h env i ns key ttl st"

definition execute_native_request ::
  "hasher \<Rightarrow> env \<Rightarrow> nat \<Rightarrow> request_frame \<Rightarrow> app_state \<Rightarrow> response_frame \<times> app_state" where
  "execute_native_request h env i f st =
     (let (p, st1) = execute_native_payload_with_metrics h env i (rq_payload f) st
      in (\<lparr>rs_request_id = rq_request_id f, rs_command = rq_command f, rs_payload = p\<rparr>, st1))"

definition execute_native_request_view ::
  "hasher \<Rightarrow> env \<Rightarrow> nat \<Rightarrow> request_frame_view \<Rightarrow> app_state \<Rightarrow> response_frame \<times> app_state" where
  "execute_native_request_view h env i f st =
     (let (p, st1) = execute_native_payload_view h env i (rv_payload f) st
      in (\<lparr>rs_request_id = rv_request_id f, rs_command = rv_command f, rs_payload = p\<rparr>, st1))"

text \<open>The \<open>get\<close> fast path encodes inside the closure that borrows the value; the counters it bumps
  there are returned by the closure and applied to the state afterwards.\<close>

definition encode_native_get_response_frame ::
  "hasher \<Rightarrow> env \<Rightarrow> nat \<Rightarrow> u64 \<Rightarrow> command \<Rightarrow> string \<Rightarrow> bytes \<Rightarrow> app_state \<Rightarrow> bytes option \<times> app_state" where
  "encode_native_get_response_frame h env i request_id cmd ns key st =
     (let ((out, inc), st1) = on_engine (sharded_get_ref h env ns key (\<lambda>r. case r of
             RefHit v \<Rightarrow> (encode_response_payload_view_frame request_id cmd (RvHit v), inc_hits)
           | RefStale v \<Rightarrow> (encode_response_payload_view_frame request_id cmd (RvStale v), inc_stale)
           | RefMiss \<Rightarrow> (encode_response_payload_view_frame request_id cmd RvMiss, inc_misses)))
           (count i inc_gets st)
      in (out, count i inc st1))"

section \<open>Bytes that do not decode\<close>

fun native_decode_error_code :: "decode_error \<Rightarrow> error_code" where
  "native_decode_error_code (UnsupportedVersion v) = EcUnsupportedVersion"
| "native_decode_error_code (UnknownCommand v) = EcUnknownCommand"
| "native_decode_error_code (FrameTooLarge a b) = EcFrameTooLarge"
| "native_decode_error_code InvalidNamespace = EcInvalidNamespace"
| "native_decode_error_code InvalidTag = EcInvalidTag"
| "native_decode_error_code e = EcBadFrame"

text \<open>The derived \<open>Debug\<close> output of the error; the messages inside \<open>InvalidPayload\<close> are plain.\<close>

fun debug_decode_error :: "decode_error \<Rightarrow> string" where
  "debug_decode_error IncompleteHeader = ''IncompleteHeader''"
| "debug_decode_error BadMagic = ''BadMagic''"
| "debug_decode_error (UnsupportedVersion v) = ''UnsupportedVersion('' @ show_nat (unat v) @ '')''"
| "debug_decode_error (InvalidKind v) = ''InvalidKind('' @ show_nat (unat v) @ '')''"
| "debug_decode_error (UnknownCommand v) = ''UnknownCommand('' @ show_nat (unat v) @ '')''"
| "debug_decode_error (NonzeroFlags v) = ''NonzeroFlags('' @ show_nat (unat v) @ '')''"
| "debug_decode_error (NonzeroReserved v) = ''NonzeroReserved('' @ show_nat (unat v) @ '')''"
| "debug_decode_error (FrameTooLarge a b) =
     ''FrameTooLarge { payload_len: '' @ show_nat a @ '', max: '' @ show_nat b @ '' }''"
| "debug_decode_error (TruncatedPayload a b) =
     ''TruncatedPayload { expected: '' @ show_nat a @ '', actual: '' @ show_nat b @ '' }''"
| "debug_decode_error (InvalidPayload m) = ''InvalidPayload('' @ [CHR 0x22] @ m @ [CHR 0x22] @ '')''"
| "debug_decode_error InvalidUtf8 = ''InvalidUtf8''"
| "debug_decode_error InvalidNamespace = ''InvalidNamespace''"
| "debug_decode_error InvalidTag = ''InvalidTag''"
| "debug_decode_error (InvalidBool v) = ''InvalidBool('' @ show_nat (unat v) @ '')''"
| "debug_decode_error (TrailingBytes n) = ''TrailingBytes('' @ show_nat n @ '')''"

definition native_decode_error_response :: "bytes \<Rightarrow> decode_error \<Rightarrow> response_frame option" where
  "native_decode_error_response frame err =
     (if length frame < HEADER_LEN \<or> take 4 frame \<noteq> MAGIC then None
      else Some
        \<lparr>rs_request_id = word_of_nat (from_be (take 8 (drop 8 frame))),
         rs_command = (case command_from_id (frame ! 6) of Inl e \<Rightarrow> CmdGet | Inr c \<Rightarrow> c),
         rs_payload = RespError (native_decode_error_code err) (debug_decode_error err)\<rparr>)"

text \<open>The outer option is the panic of the encoder's assertion; a frame that gets no answer leaves
  the buffer empty.\<close>

definition encode_decode_error :: "bytes \<Rightarrow> decode_error \<Rightarrow> bytes option" where
  "encode_decode_error frame err =
     (case native_decode_error_response frame err of
        None \<Rightarrow> Some []
      | Some resp \<Rightarrow> encode_response_frame resp)"

definition execute_native_frame_bytes ::
  "hasher \<Rightarrow> env \<Rightarrow> u64 \<Rightarrow> usize \<Rightarrow> bytes \<Rightarrow> app_state \<Rightarrow> bytes option \<times> app_state" where
  "execute_native_frame_bytes h env connection_id max_payload_len frame st =
     (case decode_borrowed_request_frame frame max_payload_len of
        Inr (Some req) \<Rightarrow>
          (let i = metrics_shard_for_request st connection_id (rv_request_id req)
           in case rv_payload req of
                ViewGet ns key \<Rightarrow>
                  encode_native_get_response_frame h env i (rv_request_id req) (rv_command req) ns key st
              | _ \<Rightarrow>
                  (let (resp, st1) = execute_native_request_view h env i req st
                   in (encode_response_frame resp, st1)))
      | Inr None \<Rightarrow>
          (case decode_request_frame frame max_payload_len of
             Inr req \<Rightarrow>
               (let i = metrics_shard_for_request st connection_id (rq_request_id req);
                    (resp, st1) = execute_native_request h env i req st
                in (encode_response_frame resp, st1))
           | Inl err \<Rightarrow> (encode_decode_error frame err, st))
      | Inl err \<Rightarrow> (encode_decode_error frame err, st))"

section \<open>Admin requests and the expiration worker\<close>

datatype http_method = HttpGet | HttpOther string

text \<open>A response as the handlers build it; the content type is the one they set themselves.\<close>

record http_response =
  hr_status :: nat
  hr_content_type :: "string option"
  hr_body :: string

definition HEALTH_ROUTE :: string where
  "HEALTH_ROUTE = ''/healthz''"

definition METRICS_ROUTE :: string where
  "METRICS_ROUTE = ''/metrics''"

definition text_line :: "string \<Rightarrow> string" where
  "text_line s = s @ [CHR 0x0A]"

definition metric_line :: "string \<Rightarrow> nat \<Rightarrow> string" where
  "metric_line name n = text_line (''cachebox_'' @ name @ '' '' @ show_nat n)"

definition metrics_response :: "app_state \<Rightarrow> http_response" where
  "metrics_response st =
     (let snapshot = metrics_snapshot st;
          engine_stats = sharded_stats (ap_engine st)
      in \<lparr>hr_status = 200, hr_content_type = Some ''text/plain; version=0.0.4'',
          hr_body = concat
            [text_line ''# HELP cachebox_requests_total Total admin HTTP requests handled.'',
             text_line ''# TYPE cachebox_requests_total counter'',
             metric_line ''requests_total'' (unat (requests_total snapshot)),
             metric_line ''requests_health_total'' (unat (health_requests snapshot)),
             metric_line ''requests_get_total'' (unat (get_requests snapshot)),
             metric_line ''requests_put_total'' (unat (put_requests snapshot)),
             metric_line ''requests_delete_total'' (unat (delete_requests snapshot)),
             metric_line ''requests_batch_get_total'' (unat (batch_get_requests snapshot)),
             metric_line ''requests_tag_invalidate_total'' (unat (tag_invalidate_requests snapshot)),
             text_line ''# HELP cachebox_cache_hits_total Cache hit outcomes.'',
             text_line ''# TYPE cachebox_cache_hits_total counter'',
             metric_line ''cache_hits_total'' (unat (hits_total snapshot)),
             metric_line ''cache_misses_total'' (unat (misses_total snapshot)),
             metric_line ''cache_stale_total'' (unat (stale_total snapshot)),
             metric_line ''lease_grants_total'' (unat (lease_grants snapshot)),
             metric_line ''lease_denials_total'' (unat (lease_denials snapshot)),
             metric_line ''errors_total'' (unat (errors_total snapshot)),
             metric_line ''expirations_total'' (unat (expirations engine_stats)),
             metric_line ''evictions_total'' (unat (evictions engine_stats)),
             metric_line ''memory_used_bytes'' (sharded_memory_used_bytes (ap_engine st)),
             metric_line ''memory_limit_bytes'' (max_memory_bytes (sharded_limits (ap_engine st))),
             metric_line ''cost_score_total'' (unat (sharded_cost_score_total (ap_engine st))),
             metric_line ''connections_current'' 0]\<rparr>)"

definition inc_requests :: "metrics \<Rightarrow> metrics" where
  "inc_requests m = m\<lparr>requests_total := requests_total m + 1\<rparr>"
definition inc_health :: "metrics \<Rightarrow> metrics" where
  "inc_health m = m\<lparr>health_requests := health_requests m + 1\<rparr>"

definition handle_request :: "http_method \<Rightarrow> string \<Rightarrow> app_state \<Rightarrow> http_response \<times> app_state" where
  "handle_request meth path st =
     (if meth = HttpGet \<and> path = METRICS_ROUTE then (metrics_response st, st)
      else if meth = HttpGet \<and> path = HEALTH_ROUTE then
        (\<lparr>hr_status = 200, hr_content_type = None, hr_body = ''ok''\<rparr>,
         count 0 inc_health (count 0 inc_requests st))
      else
        (\<lparr>hr_status = 404, hr_content_type = None,
          hr_body = ''HTTP is admin-only; use the native socket protocol for cache operations''\<rparr>,
         count 0 inc_errors (count 0 inc_requests st)))"

text \<open>One turn of the worker's loop; with a zero interval there is no worker.\<close>

definition expiration_worker_tick :: "env \<Rightarrow> u64 \<Rightarrow> usize \<Rightarrow> app_state \<Rightarrow> app_state" where
  "expiration_worker_tick env interval_ms max_entries_per_tick st =
     (if interval_ms = 0 then st
      else snd (on_engine (sharded_reclaim_expired_budget env max_entries_per_tick) st))"

end
