(* ===== verification/Server_Messages.thy ===== *)
theory Server_Messages
  imports Server
begin

text \<open>
  The error responses of the server to bytes that do not decode: the texts of all decoding errors are
  short and plain, so that the response encodes, and decodes to the error again.
\<close>

section \<open>Plain texts\<close>

definition ascii :: "string \<Rightarrow> bool" where
  "ascii s \<longleftrightarrow> list_all (\<lambda>b. b < 0x80) (string_bytes s)"

lemma ascii_append [simp]: "ascii (s @ t) \<longleftrightarrow> ascii s \<and> ascii t"
  by (simp add: ascii_def string_bytes_def)

lemma ascii_rust_string: "ascii s \<Longrightarrow> length s < 2 ^ 32 \<Longrightarrow> rust_string s"
  by (simp add: rust_string_def ascii_def short_def utf8_valid_ascii)

lemma ascii_show_nat [simp]: "ascii (show_nat n)"
proof -
  have "(word_of_nat (of_char c) :: u8) < 0x80" if "is_digit c" for c
    using that by (simp add: is_digit_def word_less_nat_alt unat_of_nat)
  then show ?thesis
    using show_nat_digits [of n] by (auto simp: ascii_def string_bytes_def list_all_iff)
qed

lemma ascii_Cons [simp]: "ascii (c # s) \<longleftrightarrow> (word_of_nat (of_char c) :: u8) < 0x80 \<and> ascii s" "ascii []"
  by (simp_all add: ascii_def string_bytes_def)

lemma length_write_bytes [simp]: "length (write_bytes v) = 4 + length v"
  by (simp add: write_bytes_def)

lemma length_write_string [simp]: "length (write_string s) = 4 + length s"
  by (simp add: write_string_def)

lemma length_write_small [simp]: "length (write_bool b) = 1" "length (write_u16 w) = 2"
  by (simp_all add: write_bool_def write_u16_def)

section \<open>Messages of decoding errors\<close>

text \<open>Numbers in an error are machine sizes, and the text in it is short and plain.\<close>

fun plain_error :: "decode_error \<Rightarrow> bool" where
  "plain_error (FrameTooLarge a b) = (a \<le> usize_max \<and> b \<le> usize_max)"
| "plain_error (TruncatedPayload a b) = (a \<le> usize_max \<and> b \<le> usize_max)"
| "plain_error (InvalidPayload msg) = (ascii msg \<and> length msg \<le> 64)"
| "plain_error (TrailingBytes n) = (n \<le> usize_max)"
| "plain_error e = True"

lemma show_nat_usize: "n \<le> usize_max \<Longrightarrow> length (show_nat n) \<le> 20"
  by (rule length_show_nat) (simp_all add: usize_max_def)

lemma show_nat_word: "length (show_nat (unat (b :: u8))) \<le> 20" "length (show_nat (unat (w :: u32))) \<le> 20"
  using unsigned_less [of b, where ?'a = nat] unsigned_less [of w, where ?'a = nat]
  by (intro show_nat_usize; simp add: usize_max_def)+

lemma plain_message:
  "plain_error e \<Longrightarrow> rust_string (debug_decode_error e) \<and> length (debug_decode_error e) \<le> 100"
proof -
  assume plain: "plain_error e"
  have "length (debug_decode_error e) \<le> 100"
  proof (cases e)
    case (FrameTooLarge a b)
    then show ?thesis
      using plain show_nat_usize [of a] show_nat_usize [of b] by simp
  next
    case (TruncatedPayload a b)
    then show ?thesis
      using plain show_nat_usize [of a] show_nat_usize [of b] by simp
  qed (use plain in \<open>auto intro!: order_trans [OF show_nat_word(1)] order_trans [OF show_nat_word(2)]
      order_trans [OF show_nat_usize]\<close>)
  moreover have "ascii (debug_decode_error e)"
    using plain by (cases e) simp_all
  ultimately show ?thesis
    by (simp add: ascii_rust_string)
qed

definition plain :: "'a reader \<Rightarrow> bool" where
  "plain rd \<longleftrightarrow> (\<forall>c e. rd c = Inl e \<longrightarrow> plain_error e)"

named_theorems plain_intros \<open>readers whose errors are plain\<close>

lemma plain_bind [plain_intros]: "plain rd \<Longrightarrow> (\<And>a. plain (f a)) \<Longrightarrow> plain (rd_bind rd f)"
  by (auto simp: plain_def rd_bind_def rbind_def split: sum.splits)

lemma plain_return [plain_intros]: "plain (rd_return a)"
  by (simp add: plain_def rd_return_def)

lemma plain_fail [plain_intros]: "plain_error e \<Longrightarrow> plain (rd_fail e)"
  by (simp add: plain_def rd_fail_def)

lemma plain_if [plain_intros]: "plain r1 \<Longrightarrow> plain r2 \<Longrightarrow> plain (if b then r1 else r2)"
  by simp

lemma plain_exact [plain_intros]: "plain (read_exact n)"
  by (simp add: plain_def read_exact_def)

lemma plain_u8 [plain_intros]: "plain read_u8"
  by (simp add: plain_def read_u8_def)

lemma plain_many [plain_intros]: "plain rd \<Longrightarrow> plain (read_many n rd)"
  by (induction n) (simp_all add: plain_intros)

lemma plain_scalars [plain_intros]:
  "plain read_u16" "plain read_u32" "plain read_u64" "plain read_bool" "plain read_bytes" "plain read_string"
  unfolding read_u16_def read_u32_def read_u64_def read_bool_def read_bytes_def read_string_def
  by (intro plain_intros; simp)+

lemma plain_fields [plain_intros]: "plain read_namespace" "plain read_tag" "plain read_lease_times"
  unfolding read_namespace_def read_tag_def read_lease_times_def
  by (intro plain_intros; simp)+

lemma plain_metadata [plain_intros]: "plain read_metadata"
  unfolding read_metadata_def Let_def by (intro plain_intros) simp_all

lemma plain_request: "plain (decode_request_payload cmd)"
  by (cases cmd) (auto simp: case_prod_beta intro!: plain_intros)

lemma plain_request_frame:
  assumes "decode_request_frame frame m = Inl e" "length frame \<le> usize_max" "m \<le> usize_max"
  shows "plain_error e"
proof (cases "decode_frame_start frame m KIND_REQUEST")
  case (Inl e')
  then have "e' = e"
    using assms(1) by (simp add: decode_request_frame_def rbind_def)
  moreover have "from_be (take 4 (drop 16 frame)) < 2 ^ 32"
    using from_be_less [of "take 4 (drop 16 frame)"]
      power_increasing [of "length (take 4 (drop 16 frame))" 4 "256 :: nat"]
    by simp
  then have "HEADER_LEN + from_be (take 4 (drop 16 frame)) \<le> usize_max"
    by (simp add: HEADER_LEN_def usize_max_def)
  ultimately show ?thesis
    using Inl assms(2,3)
    by (auto simp: decode_frame_start_def decode_header_def rbind_def Let_def command_from_id_def
        split: sum.splits if_splits)
next
  case (Inr r)
  obtain rid cmd c where r: "r = (rid, cmd, c)"
    by (cases r)
  obtain bs where c: "c = cursor_new bs" "length bs < 2 ^ 32"
    using decode_frame_start_cursor [of frame m KIND_REQUEST rid cmd c] Inr r by blast
  show ?thesis
  proof (cases "decode_request_payload cmd c")
    case (Inl e')
    then show ?thesis
      using Inr r assms(1) plain_request [of cmd] by (auto simp: decode_request_frame_def rbind_def plain_def)
  next
    case p: (Inr pc)
    obtain q c1 where pc: "pc = (q, c1)"
      by (cases pc)
    have "cu_input c1 = cu_input c"
      using request.sound_rd [of cmd] cursor_new_ok [OF c(2)] p unfolding c(1) pc sound_def by blast
    then have "length (cu_input c1) < 2 ^ 32"
      using c by (simp add: cursor_new_def)
    then show ?thesis
      using Inr r p pc assms(1)
      by (auto simp: decode_request_frame_def rbind_def expect_empty_def usize_max_def
          split: if_splits prod.splits)
  qed
qed

lemma decode_error_encodes:
  assumes "plain_error err" "native_decode_error_response frame err = Some resp" "1024 \<le> m"
  shows "\<exists>out. encode_response_frame resp = Some out \<and> decode_response_frame out m = Inr resp"
proof -
  note msg = plain_message [OF assms(1)]
  have payload: "rs_payload resp = RespError (native_decode_error_code err) (debug_decode_error err)"
    using assms(2) by (auto simp: native_decode_error_response_def split: if_splits)
  then have len: "length (encode_response_payload (rs_payload resp)) \<le> 1024"
    using msg by simp
  then obtain out where "encode_response_frame resp = Some out"
    by (auto simp: encode_response_frame_def encode_frame_into_eq)
  then show ?thesis
    using response_round_trip [of resp out m "[]"] payload msg len assms(3) by simp
qed

end
