(* ===== verification/Server_Props.thy ===== *)
theory Server_Props
  imports Server_Messages
begin

text \<open>
  The server executes a native request as one call on the cache: the borrowed path and the owned
  path agree on every input, every frame keeps the cache consistent, a decodable request gets the
  response of its call under its own identifier, and bytes that do not decode change nothing.
\<close>

section \<open>Requests as calls\<close>

text \<open>The call that a request stands for, and the response that a result stands for.\<close>

fun op_of :: "env \<Rightarrow> request_payload \<Rightarrow> engine_op" where
  "op_of env (ReqGet ns key) = OpGet env ns key"
| "op_of env (ReqPut ns key md val) = OpPut env (native_put_command ns key md val)"
| "op_of env (ReqDelete ns key) = OpDelete ns key"
| "op_of env (ReqBatchGet ns keys) = OpBatchGet env ns keys"
| "op_of env (ReqTagInvalidate ns tag) = OpInvalidateTag env ns tag"
| "op_of env (ReqLeaseStart ns key ttl allow) = OpStartLease env ns key ttl"
| "op_of env (ReqLeaseComplete ns key token md val) =
     OpCompleteLease env
       \<lparr>cl_namespace = ns, cl_key = key, cl_lease_token = token, cl_value = val, cl_ttl = md_ttl md,
        cl_stale_ttl = md_stale_ttl md, cl_tags = md_tags md, cl_cost = md_cost md\<rparr>"

fun item_of :: "get_outcome \<Rightarrow> batch_item" where
  "item_of (OutHit v) = ItemHit v"
| "item_of (OutStale v) = ItemStale v"
| "item_of OutMiss = ItemMiss"

fun read_response :: "get_outcome \<Rightarrow> response_payload" where
  "read_response (OutHit v) = RespHit v"
| "read_response (OutStale v) = RespStale v"
| "read_response OutMiss = RespMiss"

fun response_of :: "engine_result \<Rightarrow> response_payload" where
  "response_of (ResGet out) = read_response out"
| "response_of (ResRef r) = read_response (outcome_of_ref r)"
| "response_of (ResPut (Inr out)) = RespStored (u32_clamp (po_evicted out))"
| "response_of (ResPut (Inl err)) = native_put_error err"
| "response_of (ResDeleted b) = RespDeleted b"
| "response_of (ResBatch outs) = RespBatchGet (map item_of outs)"
| "response_of (ResCount n) = RespInvalidated (u32_clamp n)"
| "response_of (ResLease (SlHit v)) = RespHit v"
| "response_of (ResLease (SlStale v)) = RespStale v"
| "response_of (ResLease (SlLeaseGranted token stale)) = RespLeaseGranted token stale"
| "response_of (ResLease SlLeaseDenied) = RespLeaseDenied"
| "response_of (ResComplete (Inr out)) = RespStored (u32_clamp (po_evicted out))"
| "response_of (ResComplete (Inl InvalidLeaseToken)) =
     RespError EcInvalidLeaseToken ''lease token is missing, expired, or no longer active''"
| "response_of (ResComplete (Inl (ClPut err))) = native_put_error err"

lemma count_fields [simp]:
  "ap_engine (count i f st) = ap_engine st" "length (ap_metrics (count i f st)) = length (ap_metrics st)"
  by (simp_all add: count_def)

lemma on_engine_eq:
  "on_engine f st = (fst (f (ap_engine st)), st\<lparr>ap_engine := snd (f (ap_engine st))\<rparr>)"
  by (simp add: on_engine_def case_prod_beta)

lemma batch_items_fst: "fst (batch_items i outs st) = map item_of outs"
proof (induction outs arbitrary: st)
  case (Cons out outs)
  then show ?case
    by (cases out) (simp_all add: case_prod_beta Let_def)
qed simp

lemma batch_items_snd:
  "ap_engine (snd (batch_items i outs st)) = ap_engine st \<and>
   length (ap_metrics (snd (batch_items i outs st))) = length (ap_metrics st)"
proof (induction outs arbitrary: st)
  case (Cons out outs)
  then show ?case
    by (cases out) (simp_all add: case_prod_beta Let_def)
qed simp

lemmas handlers = execute_native_get_def execute_native_put_def execute_native_delete_def
  execute_native_tag_invalidate_def execute_native_lease_start_def execute_native_lease_complete_def

lemma payload_is_call:
  fixes h env i p st
  defines "r \<equiv> sharded_exec h (op_of env p) (ap_engine st)"
    and "out \<equiv> execute_native_payload_with_metrics h env i p st"
  shows "fst out = response_of (fst r)" "ap_engine (snd out) = snd r"
    "length (ap_metrics (snd out)) = length (ap_metrics st)"
  unfolding assms
  by (cases p; auto simp: handlers on_engine_eq Let_def case_prod_beta batch_items_fst batch_items_snd
      split: get_outcome.split start_lease_outcome.split sum.split complete_lease_error.split)+

section \<open>The two paths\<close>

text \<open>The owned path alone, as it would serve every request.\<close>

definition execute_owned_frame ::
  "hasher \<Rightarrow> env \<Rightarrow> u64 \<Rightarrow> usize \<Rightarrow> bytes \<Rightarrow> app_state \<Rightarrow> bytes option \<times> app_state" where
  "execute_owned_frame h env connection_id max_payload_len frame st =
     (case decode_request_frame frame max_payload_len of
        Inr req \<Rightarrow>
          (let i = metrics_shard_for_request st connection_id (rq_request_id req);
               (resp, st1) = execute_native_request h env i req st
           in (encode_response_frame resp, st1))
      | Inl err \<Rightarrow> (encode_decode_error frame err, st))"

lemma borrowed_error:
  "decode_borrowed_request_frame frame m = Inl err \<Longrightarrow> decode_request_frame frame m = Inl err"
  by (auto simp: borrowed_decoder_agrees rbind_def decode_request_frame_def [of frame m]
      split: sum.splits if_splits)

lemma borrowed_view:
  "decode_borrowed_request_frame frame m = Inr (Some v) \<Longrightarrow>
   \<exists>f. decode_request_frame frame m = Inr f \<and> frame_view_of f = Some v"
  by (auto simp: borrowed_decoder_agrees rbind_def split: sum.splits if_splits)

lemma view_payload_agrees:
  "view_of p = Some v \<Longrightarrow>
   execute_native_payload_view h env i v st = execute_native_payload_with_metrics h env i p st"
  by (cases p) auto

lemma get_frame_agrees:
  "encode_native_get_response_frame h env i rid cmd ns key st =
     (let (p, st1) = execute_native_get h env i ns key st
      in (encode_response_frame \<lparr>rs_request_id = rid, rs_command = cmd, rs_payload = p\<rparr>, st1))"
proof -
  let ?e = "ap_engine st"
  let ?shard = "shards ?e ! shard_index_for h ns key ?e"
  show ?thesis
    by (cases "engine_entry_state (clk env 0) (EntryId ns key) ?shard")
      (simp_all add: encode_native_get_response_frame_def execute_native_get_def on_engine_eq
        sharded_get_ref_def sharded_get_def with_shard_def engine_get_def get_ref_def
        get_ref_inner_unfold case_prod_beta Let_def view_encoder_agrees)
qed

lemma frame_bytes_agree:
  "execute_native_frame_bytes h env connection_id max_payload_len frame st =
   execute_owned_frame h env connection_id max_payload_len frame st"
proof (cases "decode_borrowed_request_frame frame max_payload_len")
  case (Inl err)
  then show ?thesis
    using borrowed_error [OF Inl] by (simp add: execute_native_frame_bytes_def execute_owned_frame_def)
next
  case (Inr v)
  show ?thesis
  proof (cases v)
    case None
    then show ?thesis
      using Inr by (simp add: execute_native_frame_bytes_def execute_owned_frame_def)
  next
    case (Some view)
    then obtain f where f: "decode_request_frame frame max_payload_len = Inr f" "frame_view_of f = Some view"
      using borrowed_view Inr by blast
    then have "view_of (rq_payload f) = Some (rv_payload view)"
      and id: "rv_request_id view = rq_request_id f" "rv_command view = rq_command f"
      by (auto simp: frame_view_of_def)
    note agree = view_payload_agrees [OF this(1), symmetric]
    show ?thesis
      using Inr Some f(1)
      by (cases "rv_payload view")
        (simp_all add: execute_native_frame_bytes_def execute_owned_frame_def id agree get_frame_agrees
          execute_native_request_def execute_native_request_view_def case_prod_beta Let_def)
  qed
qed

section \<open>The application state\<close>

definition app_inv :: "hasher \<Rightarrow> usize \<Rightarrow> app_state \<Rightarrow> bool" where
  "app_inv h V st \<longleftrightarrow>
     sharded_inv h (ap_engine st) \<and> ap_metrics st \<noteq> [] \<and>
     (\<forall>lim \<in> set (map limits (shards (ap_engine st))). max_value_bytes lim \<le> V)"

lemma app_inv_step:
  assumes "app_inv h V st" "op_ok op" "ap_engine st' = sharded_step h op (ap_engine st)"
    and "length (ap_metrics st') = length (ap_metrics st)"
  shows "app_inv h V st'"
proof -
  have "map limits (shards (ap_engine st')) = map limits (shards (ap_engine st))"
    using sharded_step_limits [of h op "ap_engine st"] assms(3) by (simp add: all_limits_def)
  moreover have "ap_metrics st' \<noteq> []"
    using assms(1,4) by (auto simp: app_inv_def)
  ultimately show ?thesis
    using assms(1-3) sharded_step_inv [of h "ap_engine st" op] by (simp add: app_inv_def)
qed

lemma execute_owned_frame_snd:
  "execute_owned_frame h env cid m frame st =
     (case decode_request_frame frame m of
        Inl err \<Rightarrow> (encode_decode_error frame err, st)
      | Inr f \<Rightarrow>
          (encode_response_frame
             \<lparr>rs_request_id = rq_request_id f, rs_command = rq_command f,
              rs_payload = response_of (fst (sharded_exec h (op_of env (rq_payload f)) (ap_engine st)))\<rparr>,
           snd (execute_native_payload_with_metrics h env
                  (metrics_shard_for_request st cid (rq_request_id f)) (rq_payload f) st)))"
  by (simp add: execute_owned_frame_def execute_native_request_def case_prod_beta payload_is_call(1)
      split: sum.split)

lemma op_ok_op_of: "env_ok env \<Longrightarrow> op_ok (op_of env p)"
  by (cases p) simp_all

lemma frame_keeps_inv:
  assumes "app_inv h V st" "env_ok env"
  shows "app_inv h V (snd (execute_native_frame_bytes h env cid m frame st))"
proof (cases "decode_request_frame frame m")
  case (Inr f)
  then show ?thesis
    using app_inv_step [OF assms(1) op_ok_op_of [OF assms(2), of "rq_payload f"]]
    by (simp add: frame_bytes_agree execute_owned_frame_snd payload_is_call sharded_step_def)
qed (simp add: frame_bytes_agree execute_owned_frame_snd assms(1))

section \<open>Responses fit their frames\<close>

fun outcome_values :: "get_outcome \<Rightarrow> bytes list" where
  "outcome_values (OutHit v) = [v]"
| "outcome_values (OutStale v) = [v]"
| "outcome_values OutMiss = []"

fun result_values :: "engine_result \<Rightarrow> bytes list" where
  "result_values (ResGet out) = outcome_values out"
| "result_values (ResBatch outs) = concat (map outcome_values outs)"
| "result_values (ResLease (SlHit v)) = [v]"
| "result_values (ResLease (SlStale v)) = [v]"
| "result_values (ResLease (SlLeaseGranted token (Some v))) = [v]"
| "result_values r = []"

lemma scache_value:
  assumes "app_inv h V st" "scache_of h (ap_engine st) eid = Some sp"
  shows "length (sp_value sp) \<le> V"
proof -
  let ?s = "ap_engine st"
  let ?shard = "shards ?s ! shard_of h ?s eid"
  have "shards ?s \<noteq> []"
    using assms(1) by (auto simp: app_inv_def sharded_inv_upto_def)
  then have mem: "?shard \<in> set (shards ?s)"
    by (simp add: shard_of_less)
  then have "engine_inv ?shard"
    using assms(1) by (auto simp: app_inv_def sharded_inv_upto_def)
  moreover obtain en where "map_of (entries ?shard) eid = Some en" "sp = spec_entry_of eid en"
    using assms(2) by (auto simp: scache_of_def cache_of_def)
  ultimately have "length (sp_value sp) \<le> max_value_bytes (limits ?shard)"
    by (auto simp: engine_inv_upto_def memory_inv_def entry_ok_def spec_entry_of_def)
  then show ?thesis
    using assms(1) mem by (fastforce simp: app_inv_def)
qed

lemma spec_read_value:
  "v \<in> set (outcome_values (spec_read now s)) \<Longrightarrow> \<exists>sp. s = Some sp \<and> v = sp_value sp"
  by (auto simp: spec_read_def split: option.splits if_splits)

lemma lease_answer_value:
  "spec_lease_answer expected out \<Longrightarrow> v \<in> set (result_values (ResLease out)) \<Longrightarrow>
   v \<in> set (outcome_values expected)"
  by (auto simp: spec_lease_answer_def split: start_lease_outcome.splits option.splits)

lemma exec_values:
  assumes "app_inv h V st" "op_ok op" "v \<in> set (result_values (fst (sharded_exec h op (ap_engine st))))"
  shows "length v \<le> V"
proof -
  let ?m = "scache_of h (ap_engine st)"
  define r where "r = fst (sharded_exec h op (ap_engine st))"
  have v: "v \<in> set (result_values r)"
    using assms(3) by (simp add: r_def)
  have "srefines h (ap_engine st) ?m"
    using assms(1) by (intro srefines_scache) (simp add: app_inv_def)
  then have "spec_answer op r ?m"
    using srefines_exec assms(2) unfolding r_def by blast
  then have "\<exists>now eid. v \<in> set (outcome_values (spec_read now (?m eid)))"
  proof (cases op)
    case (OpBatchGet env ns keys)
    then obtain outs where outs: "r = ResBatch outs" "length outs = length keys"
      "\<And>i. i < length keys \<Longrightarrow> outs ! i \<in> {OutMiss, spec_read (clk env i) (?m (EntryId ns (keys ! i)))}"
      using \<open>spec_answer op r ?m\<close> by auto
    moreover obtain out where "out \<in> set outs" "v \<in> set (outcome_values out)"
      using v outs(1) by auto
    then obtain i where "i < length outs" "v \<in> set (outcome_values (outs ! i))"
      unfolding in_set_conv_nth [of out] by blast
    ultimately show ?thesis
      by (metis empty_iff insert_iff list.set(1) outcome_values.simps(3))
  next
    case (OpStartLease env ns key ttl)
    then obtain out where "r = ResLease out"
      "spec_lease_answer (spec_read (clk env 1) (?m (EntryId ns key))) out"
      using \<open>spec_answer op r ?m\<close> by auto
    then show ?thesis
      using v lease_answer_value by metis
  qed (use v in \<open>auto, blast\<close>)
  then obtain eid sp where "?m eid = Some sp" "v = sp_value sp"
    using spec_read_value by blast
  then show ?thesis
    using scache_value [OF assms(1)] by simp
qed

lemma token_of_rust_string: "rust_string (token_of (unat (n :: u64))) \<and> length (token_of (unat n)) \<le> 26"
proof -
  have "unat n < 10 ^ 20"
    using unsigned_less [of n, where ?'a = nat] by simp
  then have "length (show_nat (unat n)) \<le> 20"
    by (intro length_show_nat) simp_all
  then show ?thesis
    by (auto simp: token_of_def intro!: ascii_rust_string)
qed

lemma native_put_error_ok:
  "\<exists>code msg. native_put_error err = RespError code msg \<and> rust_string msg \<and> length msg \<le> 60"
  by (cases err) (auto intro!: ascii_rust_string)

text \<open>An upper bound on the payload of the response to a request, when values have at most \<open>V\<close>
  bytes.\<close>

definition response_room :: "usize \<Rightarrow> request_payload \<Rightarrow> nat" where
  "response_room V p =
     (case p of ReqBatchGet ns keys \<Rightarrow> 5 + length keys * (5 + V) | _ \<Rightarrow> 100 + V)"

lemma granted_token_sharded:
  assumes "sharded_inv h s" "fst (sharded_start_lease h env ns key ttl s) = SlLeaseGranted token stale"
  shows "rust_string token \<and> length token \<le> 26"
  using assms granted_token [of env ns key ttl _ token stale] token_of_rust_string
  by (fastforce simp: sharded_start_lease_def with_shard_def case_prod_beta)

lemma items_fit:
  assumes "\<forall>v \<in> set (concat (map outcome_values outs)). length v \<le> V" "V < 2 ^ 32"
  shows "list_all batch_item_ok (map item_of outs) \<and>
    length (concat (map encode_batch_item (map item_of outs))) \<le> length outs * (5 + V)"
  using assms(1)
proof (induction outs)
  case (Cons out outs)
  then show ?case
    using assms(2) by (cases out) (auto simp: short_def)
qed simp

lemma length_sharded_batch_get: "length (fst (sharded_batch_get h env ns keys s)) = length keys"
  by (induction keys arbitrary: env s) (simp_all add: case_prod_beta Let_def)

lemma put_error_fits:
  "V + 100 < 2 ^ 32 \<Longrightarrow> response_ok cmd (native_put_error err) \<and>
     length (encode_response_payload (native_put_error err)) \<le> 100 + V"
  using native_put_error_ok [of err] by (auto simp: write_u16_def)

lemma response_fits:
  fixes h env p st
  defines "r \<equiv> fst (sharded_exec h (op_of env p) (ap_engine st))"
  assumes inv: "app_inv h V st" and env: "env_ok env" and V: "V + 100 < 2 ^ 32"
    and room: "response_room V p < 2 ^ 32"
  shows "response_ok (request_command p) (response_of r) \<and>
    length (encode_response_payload (response_of r)) \<le> response_room V p"
proof -
  have bound: "length v \<le> V" if "v \<in> set (result_values r)" for v
    using exec_values [OF inv op_ok_op_of [OF env, of p]] that unfolding r_def by blast
  show ?thesis
  proof (cases p)
    case (ReqGet ns key)
    then obtain out where "r = ResGet out"
      by (simp add: r_def)
    then show ?thesis
      using ReqGet bound V by (cases out) (auto simp: response_room_def short_def)
  next
    case (ReqPut ns key md val)
    then obtain out where "r = ResPut out"
      by (simp add: r_def)
    then show ?thesis
      using ReqPut put_error_fits [OF V] by (cases out) (simp_all add: response_room_def)
  next
    case (ReqDelete ns key)
    then show ?thesis
      by (simp add: r_def response_room_def)
  next
    case (ReqBatchGet ns keys)
    then obtain outs where outs: "r = ResBatch outs" "length outs = length keys"
      by (simp add: r_def length_sharded_batch_get)
    then have "\<forall>v \<in> set (concat (map outcome_values outs)). length v \<le> V"
      using bound by simp
    note items_fit [OF this]
    moreover have "length keys * (5 + V) < 2 ^ 32"
      using room ReqBatchGet by (simp add: response_room_def)
    then have "length keys < 2 ^ 32"
      using mult_le_mono2 [of 1 "5 + V" "length keys"] by linarith
    ultimately show ?thesis
      using ReqBatchGet outs V by (simp add: response_room_def)
  next
    case (ReqTagInvalidate ns tag)
    then show ?thesis
      by (simp add: r_def response_room_def)
  next
    case (ReqLeaseStart ns key ttl allow)
    then obtain out where out: "r = ResLease out" "fst (sharded_start_lease h env ns key ttl (ap_engine st)) = out"
      by (simp add: r_def)
    have "rust_string token \<and> length token \<le> 26" if "out = SlLeaseGranted token stale" for token stale
      using granted_token_sharded [of h "ap_engine st" env ns key ttl token stale] inv out that
      by (simp add: app_inv_def)
    then show ?thesis
      using ReqLeaseStart out bound V
      by (cases out) (auto simp: response_room_def short_def split: option.split)
  next
    case (ReqLeaseComplete ns key token md val)
    then obtain out where "r = ResComplete out"
      by (simp add: r_def)
    moreover have "rust_string ''lease token is missing, expired, or no longer active''"
      by (rule ascii_rust_string) simp_all
    ultimately show ?thesis
      using ReqLeaseComplete put_error_fits [OF V]
      by (cases "ResComplete out" rule: response_of.cases) (auto simp: response_room_def)
  qed
qed

section \<open>Calls on the server\<close>

lemma request_answered:
  assumes "decode_request_frame frame m = Inr f" "app_inv h V st" "env_ok env" "V + 100 < 2 ^ 32"
    and "response_room V (rq_payload f) < 2 ^ 32"
  shows "\<exists>bs. fst (execute_native_frame_bytes h env cid m frame st) = Some bs \<and>
    decode_response_frame bs (2 ^ 32) =
      Inr \<lparr>rs_request_id = rq_request_id f, rs_command = rq_command f,
           rs_payload = response_of (fst (sharded_exec h (op_of env (rq_payload f)) (ap_engine st)))\<rparr>"
proof -
  let ?resp = "\<lparr>rs_request_id = rq_request_id f, rs_command = rq_command f,
    rs_payload = response_of (fst (sharded_exec h (op_of env (rq_payload f)) (ap_engine st)))\<rparr>"
  have cmd: "rq_command f = request_command (rq_payload f)"
    using decoded_request_ok [OF assms(1)] by (simp add: request_ok_def)
  note fits = response_fits [OF assms(2-5)]
  then obtain bs where bs: "encode_response_frame ?resp = Some bs"
    using assms(5) by (auto simp: encode_response_frame_def encode_frame_into_eq)
  have "decode_response_frame (bs @ []) (2 ^ 32) = Inr ?resp"
    using fits assms(5) cmd by (intro response_round_trip [OF bs]) simp_all
  then show ?thesis
    using bs assms(1) by (simp add: frame_bytes_agree execute_owned_frame_snd)
qed

datatype server_call =
    CallFrame env u64 bytes
  | CallTick env
  | CallAdmin http_method string

datatype server_reply =
    ReplyFrame "bytes option"
  | ReplyTick
  | ReplyAdmin http_response

fun server_exec ::
  "hasher \<Rightarrow> usize \<Rightarrow> u64 \<Rightarrow> usize \<Rightarrow> server_call \<Rightarrow> app_state \<Rightarrow> server_reply \<times> app_state" where
  "server_exec h m interval budget (CallFrame env cid frame) st =
     map_prod ReplyFrame (\<lambda>st. st) (execute_native_frame_bytes h env cid m frame st)"
| "server_exec h m interval budget (CallTick env) st =
     (ReplyTick, expiration_worker_tick env interval budget st)"
| "server_exec h m interval budget (CallAdmin meth path) st =
     map_prod ReplyAdmin (\<lambda>st. st) (handle_request meth path st)"

text \<open>What the specification of the cache says of the bytes on the wire. A request that decodes
  gets a response that decodes to its identifier, its command and an allowed result of its call. Other
  bytes have no effect; they get an error response when they start with a header and the protocol's
  magic, and no response otherwise.\<close>

definition reply_result :: "engine_op \<Rightarrow> response_payload \<Rightarrow> engine_result" where
  "reply_result op p =
     (let stored = (case p of RespStored n \<Rightarrow> Some \<lparr>po_evicted = unat n\<rparr> | _ \<Rightarrow> None)
      in case op of
           OpPut env cmd \<Rightarrow>
             ResPut (case stored of None \<Rightarrow> Inl (ValueTooLarge 0 0) | Some out \<Rightarrow> Inr out)
         | OpCompleteLease env cmd \<Rightarrow>
             ResComplete (case stored of None \<Rightarrow> Inl InvalidLeaseToken | Some out \<Rightarrow> Inr out)
         | _ \<Rightarrow> ResDeleted False)"

fun wire_answer :: "usize \<Rightarrow> server_call \<Rightarrow> server_reply \<Rightarrow> cache \<Rightarrow> bool" where
  "wire_answer m (CallFrame env cid frame) (ReplyFrame out) cache =
     (case decode_request_frame frame m of
        Inl err \<Rightarrow>
          \<exists>bs. out = Some bs \<and>
            (if HEADER_LEN \<le> length frame \<and> take 4 frame = MAGIC
             then decode_response_frame bs (2 ^ 32) =
               Inr \<lparr>rs_request_id = word_of_nat (from_be (take 8 (drop 8 frame))),
                    rs_command = (case command_from_id (frame ! 6) of Inl e \<Rightarrow> CmdGet | Inr c \<Rightarrow> c),
                    rs_payload = RespError (native_decode_error_code err) (debug_decode_error err)\<rparr>
             else bs = [])
      | Inr f \<Rightarrow>
          \<exists>bs r. out = Some bs \<and> spec_answer (op_of env (rq_payload f)) r cache \<and>
            decode_response_frame bs (2 ^ 32) =
              Inr \<lparr>rs_request_id = rq_request_id f, rs_command = rq_command f,
                   rs_payload = response_of r\<rparr>)"
| "wire_answer m (CallTick env) ReplyTick cache = True"
| "wire_answer m (CallAdmin meth path) (ReplyAdmin resp) cache = True"
| "wire_answer m call reply cache = False"

fun wire_next :: "usize \<Rightarrow> server_call \<Rightarrow> server_reply \<Rightarrow> cache \<Rightarrow> cache" where
  "wire_next m (CallFrame env cid frame) (ReplyFrame (Some bs)) cache =
     (case (decode_request_frame frame m, decode_response_frame bs (2 ^ 32)) of
        (Inr f, Inr resp) \<Rightarrow>
          (let op = op_of env (rq_payload f) in spec_next op (reply_result op (rs_payload resp)) cache)
      | _ \<Rightarrow> cache)"
| "wire_next m call reply cache = cache"

fun call_ok :: "usize \<Rightarrow> usize \<Rightarrow> server_call \<Rightarrow> bool" where
  "call_ok V m (CallFrame env cid frame) =
     (env_ok env \<and> length frame \<le> usize_max \<and> m \<le> usize_max \<and> (case decode_request_frame frame m of
        Inl err \<Rightarrow> True | Inr f \<Rightarrow> response_room V (rq_payload f) < 2 ^ 32))"
| "call_ok V m call = True"

lemma decode_error_answer:
  assumes "plain_error err"
  shows "\<exists>bs. encode_decode_error frame err = Some bs \<and>
    (if HEADER_LEN \<le> length frame \<and> take 4 frame = MAGIC
     then decode_response_frame bs (2 ^ 32) =
       Inr \<lparr>rs_request_id = word_of_nat (from_be (take 8 (drop 8 frame))),
            rs_command = (case command_from_id (frame ! 6) of Inl e \<Rightarrow> CmdGet | Inr c \<Rightarrow> c),
            rs_payload = RespError (native_decode_error_code err) (debug_decode_error err)\<rparr>
     else bs = [])"
proof (cases "HEADER_LEN \<le> length frame \<and> take 4 frame = MAGIC")
  case True
  then have "native_decode_error_response frame err \<noteq> None"
    by (simp add: native_decode_error_response_def)
  then obtain resp where resp: "native_decode_error_response frame err = Some resp"
    by blast
  then show ?thesis
    using decode_error_encodes [OF assms resp, of "2 ^ 32"] True
    by (auto simp: encode_decode_error_def native_decode_error_response_def)
next
  case False
  then show ?thesis
    by (auto simp: encode_decode_error_def native_decode_error_response_def)
qed

lemma put_error_not_stored [simp]:
  "(case native_put_error err of RespStored n \<Rightarrow> Some (f n) | _ \<Rightarrow> None) = None"
  by (cases err) simp_all

lemma spec_next_reply:
  assumes "r = fst (sharded_exec h op s)"
  shows "spec_next op (reply_result op (response_of r)) cache = spec_next op r cache"
proof (cases op)
  case (OpPut env cmd)
  then obtain out where "r = ResPut out"
    using assms by simp
  then show ?thesis
    using OpPut by (cases out) (simp_all add: spec_next_def reply_result_def)
next
  case (OpCompleteLease env cmd)
  then obtain out where r: "r = ResComplete out"
    using assms by simp
  show ?thesis
  proof (cases out)
    case (Inl err)
    then show ?thesis
      using r OpCompleteLease by (cases err) (simp_all add: spec_next_def reply_result_def)
  qed (simp add: r OpCompleteLease spec_next_def reply_result_def)
qed (simp_all add: spec_next_def reply_result_def)

definition serves :: "hasher \<Rightarrow> usize \<Rightarrow> app_state \<Rightarrow> cache \<Rightarrow> bool" where
  "serves h V st cache \<longleftrightarrow> app_inv h V st \<and> V + 100 < 2 ^ 32 \<and> srefines h (ap_engine st) cache"

lemma serves_frame:
  assumes "serves h V st cache" "call_ok V m (CallFrame env cid frame)"
  defines "r \<equiv> execute_native_frame_bytes h env cid m frame st"
  shows "serves h V (snd r) (wire_next m (CallFrame env cid frame) (ReplyFrame (fst r)) cache) \<and>
    wire_answer m (CallFrame env cid frame) (ReplyFrame (fst r)) cache"
proof -
  have inv: "app_inv h V (snd r)"
    using assms by (simp add: serves_def frame_keeps_inv)
  show ?thesis
  proof (cases "decode_request_frame frame m")
    case (Inl err)
    have "plain_error err"
      using plain_request_frame [OF Inl] assms(2) by simp
    note answer = decode_error_answer [OF this, of frame]
    have r: "r = (encode_decode_error frame err, st)"
      using Inl by (simp add: r_def frame_bytes_agree execute_owned_frame_snd)
    then have "wire_answer m (CallFrame env cid frame) (ReplyFrame (fst r)) cache"
      using answer by (simp only: wire_answer.simps Inl sum.case fst_conv)
    then show ?thesis
      using assms(1) Inl r answer by (auto simp del: wire_answer.simps)
  next
    case (Inr f)
    let ?op = "op_of env (rq_payload f)"
    let ?r = "sharded_exec h ?op (ap_engine st)"
    have eng: "ap_engine (snd r) = snd ?r"
      using Inr by (simp add: r_def frame_bytes_agree execute_owned_frame_snd payload_is_call)
    obtain bs where bs: "fst r = Some bs" "decode_response_frame bs (2 ^ 32) =
      Inr \<lparr>rs_request_id = rq_request_id f, rs_command = rq_command f, rs_payload = response_of (fst ?r)\<rparr>"
      using request_answered [OF Inr, of h V st env cid] assms(1,2) Inr
      by (auto simp: serves_def r_def)
    have "srefines h (snd ?r) (spec_next ?op (fst ?r) cache)" "spec_answer ?op (fst ?r) cache"
      using srefines_exec [of h "ap_engine st" cache ?op] op_ok_op_of [of env] assms(1,2)
      by (simp_all add: serves_def)
    then show ?thesis
      using assms(1) inv bs eng Inr by (auto simp: serves_def spec_next_reply Let_def)
  qed
qed

lemma serves_admin: "serves h V st cache \<Longrightarrow> serves h V (snd (handle_request meth path st)) cache"
  by (auto simp: serves_def app_inv_def handle_request_def count_def)

lemma serves_tick:
  assumes "serves h V st cache"
  shows "serves h V (expiration_worker_tick env interval budget st) cache"
proof (cases "interval = 0")
  case False
  let ?st = "expiration_worker_tick env interval budget st"
  have tick: "ap_engine ?st = sharded_step h (OpReclaim env budget) (ap_engine st)"
    "length (ap_metrics ?st) = length (ap_metrics st)"
    using False by (simp_all add: expiration_worker_tick_def on_engine_eq sharded_step_def)
  have "app_inv h V ?st"
    using app_inv_step [OF _ _ tick] assms by (simp add: serves_def)
  moreover have "srefines h (ap_engine ?st) cache"
    using srefines_exec [of h "ap_engine st" cache "OpReclaim env budget"] assms tick(1)
    by (simp add: serves_def sharded_step_def spec_next_def)
  ultimately show ?thesis
    using assms by (simp add: serves_def)
qed (use assms in \<open>simp add: expiration_worker_tick_def\<close>)

interpretation server: simulation "server_exec h m interval budget" "call_ok V m"
  "wire_answer m" "wire_next m" "serves h V" for h m interval budget V
proof
  fix st cache call
  assume serves: "serves h V st cache" and ok: "call_ok V m call"
  have "serves h V (snd (server_exec h m interval budget call st))
      (wire_next m call (fst (server_exec h m interval budget call st)) cache) \<and>
    wire_answer m call (fst (server_exec h m interval budget call st)) cache"
  proof (cases call)
    case (CallFrame env cid frame)
    then show ?thesis
      using serves_frame [OF serves, of m env cid frame] ok by (simp add: map_prod_def case_prod_beta)
  qed (simp_all add: serves_admin serves_tick serves)
  then show "serves h V (snd (server_exec h m interval budget call st))
      (wire_next m call (fst (server_exec h m interval budget call st)) cache)"
    "wire_answer m call (fst (server_exec h m interval budget call st)) cache"
    by blast+
qed

text \<open>Every call keeps the state consistent, also one whose response cannot be encoded.\<close>

definition server_step :: "hasher \<Rightarrow> usize \<Rightarrow> u64 \<Rightarrow> usize \<Rightarrow> server_call \<Rightarrow> app_state \<Rightarrow> app_state" where
  "server_step h m interval budget call st = snd (server_exec h m interval budget call st)"

fun call_env_ok :: "server_call \<Rightarrow> bool" where
  "call_env_ok (CallFrame env cid frame) = env_ok env"
| "call_env_ok call = True"

lemma server_step_inv:
  assumes "app_inv h V st" "call_env_ok call"
  shows "app_inv h V (server_step h m interval budget call st)"
proof (cases call)
  case (CallFrame env cid frame)
  then show ?thesis
    using assms frame_keeps_inv by (simp add: server_step_def)
next
  case (CallTick env)
  then show ?thesis
    using assms app_inv_step [OF assms(1), of "OpReclaim env budget"]
    by (simp add: server_step_def expiration_worker_tick_def on_engine_eq sharded_step_def)
next
  case (CallAdmin meth path)
  then show ?thesis
    using assms by (auto simp: server_step_def app_inv_def handle_request_def count_def)
qed

interpretation smachine: invariant_machine "app_inv h V" call_env_ok "server_step h m interval budget"
  "\<lambda>_. ()" for h V m interval budget
  by unfold_locales (simp_all add: server_step_inv)

lemma app_from_limits_shards:
  "app_from_limits lim = Some st \<Longrightarrow>
   sharded_with_clock_and_limits lim DEFAULT_SHARD_COUNT = Some (ap_engine st) \<and> ap_metrics st = metrics_default"
  by (auto simp: app_from_limits_def sharded_with_limits_def)

lemma metrics_default_not_Nil: "metrics_default \<noteq> []"
  by (simp add: metrics_default_def METRIC_SHARD_COUNT_def)

lemma app_inv_fresh:
  assumes "app_from_limits lim = Some st" "max_memory_bytes lim < usize_max"
  shows "app_inv h (max_value_bytes lim) st"
proof -
  note fresh = app_from_limits_shards [OF assms(1)]
  have "map_option shards (sharded_with_clock_and_limits lim DEFAULT_SHARD_COUNT) = Some (shards (ap_engine st))"
    using fresh by simp
  then have "shards (ap_engine st) = map (\<lambda>_. engine_with_limits
      \<lparr>max_memory_bytes = div_ceil (max_memory_bytes lim) 16, max_value_bytes = max_value_bytes lim\<rparr>) [0..<16]"
    by (simp add: sharded_with_clock_and_limits_def DEFAULT_SHARD_COUNT_def Let_def del: upt_rec_numeral)
  then have "\<forall>l \<in> set (map limits (shards (ap_engine st))). max_value_bytes l \<le> max_value_bytes lim"
    by (auto simp: engine_with_limits_def)
  then show ?thesis
    using fresh fresh_sharded_inv [of lim DEFAULT_SHARD_COUNT "ap_engine st" h] assms(2)
    by (simp add: app_inv_def metrics_default_not_Nil)
qed

section \<open>Properties of the server\<close>

definition sample_app :: app_state where
  "sample_app = \<lparr>ap_engine = the (sharded_with_limits sample_limits), ap_metrics = metrics_default\<rparr>"

lemma sample_app_eq: "app_from_limits sample_limits = Some sample_app"
  by (simp add: app_from_limits_def sample_app_def sharded_with_limits_def
      sharded_with_clock_and_limits_def DEFAULT_SHARD_COUNT_def Let_def)

lemma sample_request_decodes:
  "\<exists>bs. encode_request_frame sample_request = Some bs \<and> decode_request_frame bs 1024 = Inr sample_request"
  using sample_request_encodes request_round_trip [OF _ sample_request_ok, of _ 1024 "[]"] by auto

text \<open>C1. The server is coherent on the wire when frames are executed one after the other: for a fresh
  server, any bytes that any connections send as frames, in any order and with turns of the expiration worker and
  admin requests in between, are answered as the specification of the cache allows. A frame that decodes is
  answered by a frame that decodes to the same request identifier and command and to an allowed result of that
  call after the calls before it. Any other frame has no effect; it is answered by an error frame with the code
  and the text of its failure when it starts with a header and the protocol's magic, and it gets no answer at
  all otherwise. Assumed are a memory limit below the largest \<open>usize\<close> and limits small enough that the response of the request fits a frame.\<close>

theorem wire_coherent:
  assumes "app_from_limits lim = Some st" "max_memory_bytes lim < usize_max"
    and "max_value_bytes lim + 100 < 2 ^ 32" "list_all (call_ok (max_value_bytes lim) m) calls"
  shows "trace_ok (wire_answer m) (wire_next m) (fst (trace (server_exec h m interval budget) calls st)) Map.empty"
proof -
  have "serves h (max_value_bytes lim) st Map.empty"
    using app_inv_fresh [OF assms(1,2)] srefines_fresh [of lim DEFAULT_SHARD_COUNT "ap_engine st" h]
      app_from_limits_shards [OF assms(1)] assms(2,3)
    by (simp add: serves_def)
  then show ?thesis
    by (rule server.sim_trace_ok [OF _ assms(4)])
qed

theorem wire_coherent_witness:
  "\<exists>bs. encode_request_frame sample_request = Some bs \<and>
     trace_ok (wire_answer 1024) (wire_next 1024)
       (fst (trace (server_exec sample_hasher 1024 50 10)
          [CallFrame (sample_env 100) 1 bs, CallTick (sample_env 101), CallFrame (sample_env 102) 2 [1, 2],
           CallAdmin HttpGet ''/metrics''] sample_app)) Map.empty"
proof -
  obtain bs where bs: "encode_request_frame sample_request = Some bs"
    "decode_request_frame bs 1024 = Inr sample_request"
    using sample_request_decodes by blast
  have "trace_ok (wire_answer 1024) (wire_next 1024)
       (fst (trace (server_exec sample_hasher 1024 50 10)
          [CallFrame (sample_env 100) 1 bs, CallTick (sample_env 101), CallFrame (sample_env 102) 2 [1, 2],
           CallAdmin HttpGet ''/metrics''] sample_app)) Map.empty"
  proof (rule wire_coherent [OF sample_app_eq sample_limits_bounded])
    show "max_value_bytes sample_limits + 100 < 2 ^ 32"
      by (simp add: sample_limits_def)
    have small: "length bs \<le> usize_max"
      using bs(1) by (auto simp: encode_request_frame_def encode_frame_into_eq MAGIC_def usize_max_def split: if_splits)
    have "decode_request_frame [1, 2] 1024 = Inl IncompleteHeader"
      by (simp add: decode_request_frame_def decode_frame_start_def decode_header_def HEADER_LEN_def rbind_def)
    then show "list_all (call_ok (max_value_bytes sample_limits) 1024)
        [CallFrame (sample_env 100) 1 bs, CallTick (sample_env 101), CallFrame (sample_env 102) 2 [1, 2],
         CallAdmin HttpGet ''/metrics'']"
      using bs(2) small by (simp add: response_room_def sample_request_def sample_limits_def usize_max_def)
  qed
  then show ?thesis
    using bs(1) by blast
qed

text \<open>C2. No bytes can break the state of a server that executes one frame after the other and whose memory
  limit is below the largest \<open>usize\<close>: after any sequence
  of frames of any bytes, cleanup turns and admin requests, each run to its end before the next, every shard keeps
  its indexes and its memory account exact and within the limit, every entry stays in the shard of its key, and
  every tag stays routed to the shards that hold it. The last part needs the sequence: requests whose critical
  sections overlap can lose a route.\<close>

theorem any_bytes_keep_server_consistent:
  assumes "app_from_limits lim = Some st" "max_memory_bytes lim < usize_max"
    and "list_all call_env_ok calls"
  shows "app_inv h (max_value_bytes lim) (fold (server_step h m interval budget) calls st)"
  by (rule smachine.inv_run [OF app_inv_fresh [OF assms(1,2)] assms(3)])

theorem any_bytes_keep_server_consistent_witness:
  "app_inv sample_hasher (max_value_bytes sample_limits)
     (fold (server_step sample_hasher 1024 50 10)
        [CallFrame (sample_env 100) 1 [67, 66, 88, 49], CallTick (sample_env 101)] sample_app)"
  by (rule any_bytes_keep_server_consistent [OF sample_app_eq sample_limits_bounded]) simp

text \<open>C6. The fast path changes nothing: executing a frame through the borrowed decoder, the borrowed
  read and the response view gives the same bytes and the same state as decoding, executing and
  encoding owned frames, for every sequence of input bytes.\<close>

theorem borrowed_path_agrees:
  "execute_native_frame_bytes h env connection_id max_payload_len frame st =
   execute_owned_frame h env connection_id max_payload_len frame st"
  by (rule frame_bytes_agree)

end
