(* ===== verification/Server_Threads.thy ===== *)
theory Server_Threads
  imports Server_Props Sharded_Races
begin

text \<open>
  The handlers of src/server.rs on a multi-threaded runtime. A handler takes the locks of the sharded
  cache one after the other and releases each before the next, and its counters are atomics; between
  two of these steps any other thread may run. A thread either has returned or does one more
  atomic step on the shared state; each step reads the clock and the iteration orders anew. Running alone, a
  thread does what the handler of the theory of the server does; among others, every step keeps
  the invariant that the races leave.
\<close>

section \<open>Threads\<close>

datatype 'a thread = Returned 'a | Section "env \<Rightarrow> app_state \<Rightarrow> 'a thread \<times> app_state"

primrec thread_bind :: "'a thread \<Rightarrow> ('a \<Rightarrow> 'b thread) \<Rightarrow> 'b thread" where
  "thread_bind (Returned a) k = k a"
| "thread_bind (Section f) k = Section (\<lambda>env st. map_prod (\<lambda>t. thread_bind t k) (\<lambda>st. st) (f env st))"

lemma thread_induct [case_names Returned Section]:
  assumes "\<And>a. P (Returned a)" "\<And>f. (\<And>env st. P (fst (f env st))) \<Longrightarrow> P (Section f)"
  shows "P t"
proof (induction t)
  case (Section f)
  have "P (fst (f env st))" for env st
    by (rule Section [of "f env" "f env st"]) (auto simp: prod_set_simps fsts.simps)
  then show ?case
    by (rule assms(2))
qed (rule assms(1))

definition atomic :: "(env \<Rightarrow> app_state \<Rightarrow> 'a \<times> app_state) \<Rightarrow> 'a thread" where
  "atomic f = Section (\<lambda>env st. map_prod Returned (\<lambda>st. st) (f env st))"

text \<open>An atomic counter, and a critical section of the cache.\<close>

definition bump :: "nat \<Rightarrow> (metrics \<Rightarrow> metrics) \<Rightarrow> unit thread" where
  "bump i f = atomic (\<lambda>env st. ((), count i f st))"

definition locked :: "(env \<Rightarrow> sharded_engine \<Rightarrow> 'a \<times> sharded_engine) \<Rightarrow> 'a thread" where
  "locked f = atomic (\<lambda>env. on_engine (f env))"

section \<open>Calls of the sharded cache\<close>

definition routes_thread :: "pending \<Rightarrow> unit thread" where
  "routes_thread p = locked (\<lambda>env s. ((), run_pending p s))"

definition put_thread :: "hasher \<Rightarrow> put_command \<Rightarrow> (put_error + put_outcome) thread" where
  "put_thread h cmd =
     thread_bind (locked (\<lambda>env s. case put_section h env cmd s of (r, p, s1) \<Rightarrow> ((r, p), s1))) (\<lambda>(r, p).
     thread_bind (routes_thread p) (\<lambda>_. Returned r))"

definition complete_lease_thread ::
  "hasher \<Rightarrow> complete_lease_command \<Rightarrow> (complete_lease_error + put_outcome) thread" where
  "complete_lease_thread h cmd =
     thread_bind (locked (\<lambda>env s. case complete_section h env cmd s of (r, p, s1) \<Rightarrow> ((r, p), s1))) (\<lambda>(r, p).
     thread_bind (routes_thread p) (\<lambda>_. Returned r))"

definition delete_thread :: "hasher \<Rightarrow> string \<Rightarrow> bytes \<Rightarrow> bool thread" where
  "delete_thread h ns key =
     thread_bind (locked (\<lambda>env s. case delete_section h ns key s of (r, p, s1) \<Rightarrow> ((r, p), s1))) (\<lambda>(r, p).
     thread_bind (routes_thread p) (\<lambda>_. Returned r))"

definition get_thread :: "hasher \<Rightarrow> string \<Rightarrow> bytes \<Rightarrow> get_outcome thread" where
  "get_thread h ns key = locked (\<lambda>env. sharded_get h env ns key)"

fun batch_get_thread :: "hasher \<Rightarrow> string \<Rightarrow> bytes list \<Rightarrow> get_outcome list thread" where
  "batch_get_thread h ns [] = Returned []"
| "batch_get_thread h ns (key # keys) =
     thread_bind (get_thread h ns key) (\<lambda>out.
     thread_bind (batch_get_thread h ns keys) (\<lambda>outs. Returned (out # outs)))"

definition start_lease_thread :: "hasher \<Rightarrow> string \<Rightarrow> bytes \<Rightarrow> u64 \<Rightarrow> start_lease_outcome thread" where
  "start_lease_thread h ns key ttl = locked (\<lambda>env. sharded_start_lease h env ns key ttl)"

fun invalidate_shards_thread :: "string \<Rightarrow> string \<Rightarrow> nat list \<Rightarrow> usize thread" where
  "invalidate_shards_thread ns tag [] = Returned 0"
| "invalidate_shards_thread ns tag (i # ixs) =
     thread_bind (locked (\<lambda>env. with_shard i (engine_invalidate_tag env ns tag))) (\<lambda>n.
     thread_bind (invalidate_shards_thread ns tag ixs) (\<lambda>k. Returned (n + k)))"

definition take_routes :: "string \<Rightarrow> string \<Rightarrow> env \<Rightarrow> sharded_engine \<Rightarrow> nat list \<times> sharded_engine" where
  "take_routes ns tag env s =
     (case map_of (tag_directory s) (TagId ns tag) of None \<Rightarrow> [] | Some ixs \<Rightarrow> shard_order env ixs,
      s\<lparr>tag_directory := AList.delete (TagId ns tag) (tag_directory s)\<rparr>)"

definition invalidate_tag_thread :: "string \<Rightarrow> string \<Rightarrow> usize thread" where
  "invalidate_tag_thread ns tag = thread_bind (locked (take_routes ns tag)) (invalidate_shards_thread ns tag)"

text \<open>The loop of the expiration worker over the shards from the \<open>i\<close>-th one on.\<close>

fun reclaim_shards_thread :: "usize \<Rightarrow> nat list \<Rightarrow> usize thread" where
  "reclaim_shards_thread remaining [] = Returned 0"
| "reclaim_shards_thread remaining (i # ixs) =
     (if remaining = 0 then Returned 0
      else thread_bind (locked (\<lambda>env. with_shard i (engine_reclaim_expired_budget (clk env 0) remaining))) (\<lambda>n.
           thread_bind (reclaim_shards_thread (remaining - n) ixs) (\<lambda>k. Returned (n + k))))"

definition reclaim_thread :: "usize \<Rightarrow> usize thread" where
  "reclaim_thread max_entries =
     (if max_entries = 0 then Returned 0
      else thread_bind (atomic (\<lambda>env st. (length (shards (ap_engine st)), st))) (\<lambda>n.
           reclaim_shards_thread max_entries [0..<n]))"

section \<open>Handlers\<close>

definition get_handler :: "hasher \<Rightarrow> nat \<Rightarrow> string \<Rightarrow> bytes \<Rightarrow> response_payload thread" where
  "get_handler h i ns key =
     thread_bind (bump i inc_gets) (\<lambda>_.
     thread_bind (get_thread h ns key) (\<lambda>out.
       case out of
         OutHit v \<Rightarrow> thread_bind (bump i inc_hits) (\<lambda>_. Returned (RespHit v))
       | OutStale v \<Rightarrow> thread_bind (bump i inc_stale) (\<lambda>_. Returned (RespStale v))
       | OutMiss \<Rightarrow> thread_bind (bump i inc_misses) (\<lambda>_. Returned RespMiss)))"

definition lease_start_handler :: "hasher \<Rightarrow> nat \<Rightarrow> string \<Rightarrow> bytes \<Rightarrow> u64 \<Rightarrow> response_payload thread" where
  "lease_start_handler h i ns key ttl =
     thread_bind (start_lease_thread h ns key ttl) (\<lambda>out.
       case out of
         SlHit v \<Rightarrow> thread_bind (bump i inc_hits) (\<lambda>_. Returned (RespHit v))
       | SlStale v \<Rightarrow> thread_bind (bump i inc_stale) (\<lambda>_. Returned (RespStale v))
       | SlLeaseGranted token stale \<Rightarrow> thread_bind (bump i inc_lease_grants) (\<lambda>_. Returned (RespLeaseGranted token stale))
       | SlLeaseDenied \<Rightarrow> thread_bind (bump i inc_lease_denials) (\<lambda>_. Returned RespLeaseDenied))"

definition delete_handler :: "hasher \<Rightarrow> nat \<Rightarrow> string \<Rightarrow> bytes \<Rightarrow> response_payload thread" where
  "delete_handler h i ns key =
     thread_bind (bump i inc_deletes) (\<lambda>_.
     thread_bind (delete_thread h ns key) (\<lambda>removed. Returned (RespDeleted removed)))"

definition tag_invalidate_handler :: "nat \<Rightarrow> string \<Rightarrow> string \<Rightarrow> response_payload thread" where
  "tag_invalidate_handler i ns tag =
     thread_bind (bump i inc_tag_invalidates) (\<lambda>_.
     thread_bind (invalidate_tag_thread ns tag) (\<lambda>removed. Returned (RespInvalidated (u32_clamp removed))))"

fun batch_items_handler :: "nat \<Rightarrow> get_outcome list \<Rightarrow> batch_item list thread" where
  "batch_items_handler i [] = Returned []"
| "batch_items_handler i (out # outs) =
     thread_bind (bump i (case out of OutHit v \<Rightarrow> inc_hits | OutStale v \<Rightarrow> inc_stale | OutMiss \<Rightarrow> inc_misses)) (\<lambda>_.
     thread_bind (batch_items_handler i outs) (\<lambda>items.
       Returned ((case out of OutHit v \<Rightarrow> ItemHit v | OutStale v \<Rightarrow> ItemStale v | OutMiss \<Rightarrow> ItemMiss) # items)))"

definition batch_get_handler :: "hasher \<Rightarrow> nat \<Rightarrow> string \<Rightarrow> bytes list \<Rightarrow> response_payload thread" where
  "batch_get_handler h i ns keys =
     thread_bind (bump i inc_batch_gets) (\<lambda>_.
     thread_bind (batch_get_thread h ns keys) (\<lambda>outs.
     thread_bind (batch_items_handler i outs) (\<lambda>items. Returned (RespBatchGet items))))"

definition put_handler :: "hasher \<Rightarrow> nat \<Rightarrow> put_command \<Rightarrow> response_payload thread" where
  "put_handler h i cmd =
     thread_bind (bump i inc_puts) (\<lambda>_.
     thread_bind (put_thread h cmd) (\<lambda>r.
       case r of
         Inr outcome \<Rightarrow> Returned (RespStored (u32_clamp (po_evicted outcome)))
       | Inl err \<Rightarrow> thread_bind (bump i inc_errors) (\<lambda>_. Returned (native_put_error err))))"

definition lease_complete_handler :: "hasher \<Rightarrow> nat \<Rightarrow> complete_lease_command \<Rightarrow> response_payload thread" where
  "lease_complete_handler h i cmd =
     thread_bind (complete_lease_thread h cmd) (\<lambda>r.
       case r of
         Inr outcome \<Rightarrow> Returned (RespStored (u32_clamp (po_evicted outcome)))
       | Inl InvalidLeaseToken \<Rightarrow>
           thread_bind (bump i inc_errors) (\<lambda>_.
             Returned (RespError EcInvalidLeaseToken ''lease token is missing, expired, or no longer active''))
       | Inl (ClPut err) \<Rightarrow> thread_bind (bump i inc_errors) (\<lambda>_. Returned (native_put_error err)))"

fun payload_handler :: "hasher \<Rightarrow> nat \<Rightarrow> request_payload \<Rightarrow> response_payload thread" where
  "payload_handler h i (ReqGet ns key) = get_handler h i ns key"
| "payload_handler h i (ReqPut ns key md val) = put_handler h i (native_put_command ns key md val)"
| "payload_handler h i (ReqDelete ns key) = delete_handler h i ns key"
| "payload_handler h i (ReqBatchGet ns keys) = batch_get_handler h i ns keys"
| "payload_handler h i (ReqTagInvalidate ns tag) = tag_invalidate_handler i ns tag"
| "payload_handler h i (ReqLeaseStart ns key ttl allow) = lease_start_handler h i ns key ttl"
| "payload_handler h i (ReqLeaseComplete ns key token md val) =
     lease_complete_handler h i
       \<lparr>cl_namespace = ns, cl_key = key, cl_lease_token = token, cl_value = val, cl_ttl = md_ttl md,
        cl_stale_ttl = md_stale_ttl md, cl_tags = md_tags md, cl_cost = md_cost md\<rparr>"

fun view_handler :: "hasher \<Rightarrow> nat \<Rightarrow> request_payload_view \<Rightarrow> response_payload thread" where
  "view_handler h i (ViewGet ns key) = get_handler h i ns key"
| "view_handler h i (ViewDelete ns key) = delete_handler h i ns key"
| "view_handler h i (ViewTagInvalidate ns tag) = tag_invalidate_handler i ns tag"
| "view_handler h i (ViewLeaseStart ns key ttl allow) = lease_start_handler h i ns key ttl"

text \<open>The \<open>get\<close> fast path encodes and counts while it holds the lock of the shard.\<close>

definition get_response_handler ::
  "hasher \<Rightarrow> nat \<Rightarrow> u64 \<Rightarrow> command \<Rightarrow> string \<Rightarrow> bytes \<Rightarrow> bytes option thread" where
  "get_response_handler h i request_id cmd ns key =
     thread_bind (bump i inc_gets) (\<lambda>_.
       atomic (\<lambda>env st.
         let ((out, inc), st1) = on_engine (sharded_get_ref h env ns key (\<lambda>r. case r of
                 RefHit v \<Rightarrow> (encode_response_payload_view_frame request_id cmd (RvHit v), inc_hits)
               | RefStale v \<Rightarrow> (encode_response_payload_view_frame request_id cmd (RvStale v), inc_stale)
               | RefMiss \<Rightarrow> (encode_response_payload_view_frame request_id cmd RvMiss, inc_misses))) st
         in (out, count i inc st1)))"

definition metrics_shard_thread :: "u64 \<Rightarrow> u64 \<Rightarrow> nat thread" where
  "metrics_shard_thread connection_id request_id =
     atomic (\<lambda>env st. (metrics_shard_for_request st connection_id request_id, st))"

definition frame_thread :: "hasher \<Rightarrow> u64 \<Rightarrow> usize \<Rightarrow> bytes \<Rightarrow> bytes option thread" where
  "frame_thread h connection_id max_payload_len frame =
     (case decode_borrowed_request_frame frame max_payload_len of
        Inr (Some req) \<Rightarrow>
          thread_bind (metrics_shard_thread connection_id (rv_request_id req)) (\<lambda>i.
            case rv_payload req of
              ViewGet ns key \<Rightarrow> get_response_handler h i (rv_request_id req) (rv_command req) ns key
            | _ \<Rightarrow>
                thread_bind (view_handler h i (rv_payload req)) (\<lambda>p.
                  Returned (encode_response_frame
                    \<lparr>rs_request_id = rv_request_id req, rs_command = rv_command req, rs_payload = p\<rparr>)))
      | Inr None \<Rightarrow>
          (case decode_request_frame frame max_payload_len of
             Inr req \<Rightarrow>
               thread_bind (metrics_shard_thread connection_id (rq_request_id req)) (\<lambda>i.
               thread_bind (payload_handler h i (rq_payload req)) (\<lambda>p.
                 Returned (encode_response_frame
                   \<lparr>rs_request_id = rq_request_id req, rs_command = rq_command req, rs_payload = p\<rparr>)))
           | Inl err \<Rightarrow> Returned (encode_decode_error frame err))
      | Inl err \<Rightarrow> Returned (encode_decode_error frame err))"

text \<open>One turn of the expiration worker, and the counters of an admin request. Building the text of the metrics
  only reads.\<close>

definition worker_thread :: "u64 \<Rightarrow> usize \<Rightarrow> unit thread" where
  "worker_thread interval_ms max_entries_per_tick =
     (if interval_ms = 0 then Returned ()
      else thread_bind (reclaim_thread max_entries_per_tick) (\<lambda>_. Returned ()))"

definition admin_thread :: "http_method \<Rightarrow> string \<Rightarrow> unit thread" where
  "admin_thread meth path =
     (if meth = HttpGet \<and> path = METRICS_ROUTE then Returned ()
      else if meth = HttpGet \<and> path = HEALTH_ROUTE then
        thread_bind (bump 0 inc_requests) (\<lambda>_. bump 0 inc_health)
      else thread_bind (bump 0 inc_requests) (\<lambda>_. bump 0 inc_errors))"

lemmas call_threads = routes_thread_def put_thread_def complete_lease_thread_def delete_thread_def get_thread_def
  start_lease_thread_def invalidate_tag_thread_def

lemmas handler_threads = get_handler_def lease_start_handler_def delete_handler_def tag_invalidate_handler_def
  batch_get_handler_def put_handler_def lease_complete_handler_def

section \<open>Running alone\<close>

inductive alone :: "'a thread \<Rightarrow> app_state \<Rightarrow> 'a \<Rightarrow> app_state \<Rightarrow> bool" where
  alone_returned: "alone (Returned a) st a st"
| alone_section: "env_ok env \<Longrightarrow> f env st = (t, st1) \<Longrightarrow> alone t st1 a st2 \<Longrightarrow> alone (Section f) st a st2"

lemma alone_bind: "alone t st a st1 \<Longrightarrow> alone (k a) st1 b st2 \<Longrightarrow> alone (thread_bind t k) st b st2"
  by (induction rule: alone.induct) (auto intro: alone_section)

lemma alone_atomic: "env_ok env \<Longrightarrow> f env st = (a, st1) \<Longrightarrow> alone (atomic f) st a st1"
  unfolding atomic_def by (rule alone_section) (auto intro: alone_returned)

lemma alone_bump: "alone (bump i f) st () (count i f st)"
  unfolding bump_def by (rule alone_atomic [OF sample_env_ok]) simp

lemma alone_locked:
  "env_ok env \<Longrightarrow> f env (ap_engine st) = (a, s) \<Longrightarrow> alone (locked f) st a (st\<lparr>ap_engine := s\<rparr>)"
  unfolding locked_def by (rule alone_atomic [of env]) (simp_all add: on_engine_def)

lemmas alone_steps = alone_bind alone_bump alone_returned

lemma env_ok_tick [simp]: "env_ok (env_tick n env) = env_ok env"
  by (simp add: env_ok_def env_tick_def)

lemma alone_two_sections:
  assumes "env_ok env" "sec env (ap_engine st) = (r, p, s1)"
  shows "alone (thread_bind (locked (\<lambda>env s. case sec env s of (r, p, s1) \<Rightarrow> ((r, p), s1))) (\<lambda>(r, p).
      thread_bind (routes_thread p) (\<lambda>_. Returned r))) st r (st\<lparr>ap_engine := run_pending p s1\<rparr>)"
proof (rule alone_bind)
  show "alone (locked (\<lambda>env s. case sec env s of (r, p, s1) \<Rightarrow> ((r, p), s1))) st (r, p) (st\<lparr>ap_engine := s1\<rparr>)"
    using assms by (intro alone_locked [of env]) simp_all
  have "alone (routes_thread p) (st\<lparr>ap_engine := s1\<rparr>) () ((st\<lparr>ap_engine := s1\<rparr>)\<lparr>ap_engine := run_pending p s1\<rparr>)"
    unfolding routes_thread_def by (rule alone_locked [OF assms(1)]) simp
  then show "alone ((\<lambda>(r, p). thread_bind (routes_thread p) (\<lambda>_. Returned r)) (r, p)) (st\<lparr>ap_engine := s1\<rparr>) r
      (st\<lparr>ap_engine := run_pending p s1\<rparr>)"
    by (auto intro: alone_steps)
qed

lemma alone_put:
  "env_ok env \<Longrightarrow> on_engine (sharded_put h env cmd) st = (r, st1) \<Longrightarrow> alone (put_thread h cmd) st r st1"
  using alone_two_sections [of env "\<lambda>env. put_section h env cmd" st]
  by (auto simp: put_thread_def on_engine_def put_section_then_routes split: prod.splits)

lemma alone_complete_lease:
  "env_ok env \<Longrightarrow> on_engine (sharded_complete_lease h env cmd) st = (r, st1) \<Longrightarrow>
   alone (complete_lease_thread h cmd) st r st1"
  using alone_two_sections [of env "\<lambda>env. complete_section h env cmd" st]
  by (auto simp: complete_lease_thread_def on_engine_def complete_section_then_routes split: prod.splits)

lemma alone_delete: "on_engine (sharded_delete h ns key) st = (r, st1) \<Longrightarrow> alone (delete_thread h ns key) st r st1"
  using alone_two_sections [OF sample_env_ok, of "\<lambda>env. delete_section h ns key" _ st]
  by (auto simp: delete_thread_def on_engine_def delete_section_then_routes split: prod.splits)

lemma alone_get:
  "env_ok env \<Longrightarrow> on_engine (sharded_get h env ns key) st = (r, st1) \<Longrightarrow> alone (get_thread h ns key) st r st1"
  unfolding get_thread_def locked_def by (rule alone_atomic)

lemma alone_start_lease:
  "env_ok env \<Longrightarrow> on_engine (sharded_start_lease h env ns key ttl) st = (r, st1) \<Longrightarrow>
   alone (start_lease_thread h ns key ttl) st r st1"
  unfolding start_lease_thread_def locked_def by (rule alone_atomic)

lemma alone_batch_get:
  "env_ok env \<Longrightarrow> on_engine (sharded_batch_get h env ns keys) st = (r, st1) \<Longrightarrow>
   alone (batch_get_thread h ns keys) st r st1"
proof (induction keys arbitrary: env st r)
  case Nil
  then show ?case
    by (auto simp: on_engine_def intro: alone_returned)
next
  case (Cons key keys)
  obtain out st' where get: "on_engine (sharded_get h env ns key) st = (out, st')"
    by (cases "on_engine (sharded_get h env ns key) st")
  obtain outs where "on_engine (sharded_batch_get h (env_tick 1 env) ns keys) st' = (outs, st1)" "r = out # outs"
    using Cons.prems(2) get by (auto simp: on_engine_def case_prod_beta Let_def)
  then show ?case
    using alone_get [OF Cons.prems(1) get] Cons.IH [of "env_tick 1 env" st' outs] Cons.prems(1)
    by (auto intro!: alone_steps)
qed

lemma alone_invalidate_shards:
  "env_ok env \<Longrightarrow> on_engine (invalidate_shards env ns tag ixs) st = (r, st1) \<Longrightarrow>
   alone (invalidate_shards_thread ns tag ixs) st r st1"
proof (induction ixs arbitrary: st r)
  case Nil
  then show ?case
    by (auto simp: on_engine_def intro: alone_returned)
next
  case (Cons i ixs)
  obtain n st' where step: "on_engine (with_shard i (engine_invalidate_tag env ns tag)) st = (n, st')"
    by (cases "on_engine (with_shard i (engine_invalidate_tag env ns tag)) st")
  then have "alone (locked (\<lambda>env. with_shard i (engine_invalidate_tag env ns tag))) st n st'"
    unfolding locked_def by (rule alone_atomic [OF Cons.prems(1)])
  moreover obtain k where "on_engine (invalidate_shards env ns tag ixs) st' = (k, st1)" "r = n + k"
    using Cons.prems(2) step by (auto simp: on_engine_def case_prod_beta Let_def)
  ultimately show ?case
    using Cons.IH [OF Cons.prems(1), of st' k] by (auto intro!: alone_steps)
qed

lemma alone_invalidate_tag:
  assumes "env_ok env" "on_engine (sharded_invalidate_tag env ns tag) st = (r, st1)"
  shows "alone (invalidate_tag_thread ns tag) st r st1"
proof -
  obtain ixs s where routes: "take_routes ns tag env (ap_engine st) = (ixs, s)"
    by (cases "take_routes ns tag env (ap_engine st)")
  have "on_engine (invalidate_shards env ns tag ixs) (st\<lparr>ap_engine := s\<rparr>) = (r, st1)"
    using assms(2) routes by (auto simp: on_engine_eq sharded_invalidate_tag_def take_routes_def Let_def)
  then show ?thesis
    unfolding invalidate_tag_thread_def
    by (rule alone_bind [where k = "invalidate_shards_thread ns tag", OF alone_locked [where f = "take_routes ns tag", OF assms(1) routes]
          alone_invalidate_shards [OF assms(1)]])
qed

lemma alone_get_handler:
  assumes "env_ok env" "execute_native_get h env i ns key st = (r, st1)"
  shows "alone (get_handler h i ns key) st r st1"
proof -
  obtain out st' where get: "on_engine (sharded_get h env ns key) (count i inc_gets st) = (out, st')"
    by fastforce
  show ?thesis
    unfolding get_handler_def
    by (rule alone_bind [OF alone_bump], rule alone_bind [OF alone_get [OF assms(1) get]])
      (use assms(2) get in \<open>cases out; auto simp: execute_native_get_def intro: alone_steps\<close>)
qed

lemma alone_lease_start_handler:
  assumes "env_ok env" "execute_native_lease_start h env i ns key ttl st = (r, st1)"
  shows "alone (lease_start_handler h i ns key ttl) st r st1"
proof -
  obtain out st' where start: "on_engine (sharded_start_lease h env ns key ttl) st = (out, st')"
    by fastforce
  show ?thesis
    unfolding lease_start_handler_def
    by (rule alone_bind [OF alone_start_lease [OF assms(1) start]])
      (use assms(2) start in \<open>cases out; auto simp: execute_native_lease_start_def intro: alone_steps\<close>)
qed

lemma alone_delete_handler:
  assumes "execute_native_delete h i ns key st = (r, st1)"
  shows "alone (delete_handler h i ns key) st r st1"
proof -
  obtain removed where delete: "on_engine (sharded_delete h ns key) (count i inc_deletes st) = (removed, st1)"
    and r: "r = RespDeleted removed"
    using assms by (auto simp: execute_native_delete_def split: prod.splits)
  show ?thesis
    unfolding delete_handler_def r
    by (rule alone_bind [OF alone_bump], rule alone_bind [OF alone_delete [OF delete]]) (rule alone_returned)
qed

lemma alone_tag_invalidate_handler:
  assumes "env_ok env" "execute_native_tag_invalidate env i ns tag st = (r, st1)"
  shows "alone (tag_invalidate_handler i ns tag) st r st1"
proof -
  obtain n where invalidate: "on_engine (sharded_invalidate_tag env ns tag) (count i inc_tag_invalidates st) = (n, st1)"
    and r: "r = RespInvalidated (u32_clamp n)"
    using assms(2) by (auto simp: execute_native_tag_invalidate_def split: prod.splits)
  show ?thesis
    unfolding tag_invalidate_handler_def r
    by (rule alone_bind [OF alone_bump], rule alone_bind [OF alone_invalidate_tag [OF assms(1) invalidate]])
      (rule alone_returned)
qed

lemma alone_batch_items: "batch_items i outs st = (r, st1) \<Longrightarrow> alone (batch_items_handler i outs) st r st1"
proof (induction outs arbitrary: st r)
  case Nil
  then show ?case
    by (auto intro: alone_returned)
next
  case (Cons out outs)
  then show ?case
    by (cases out) (auto simp: case_prod_beta Let_def intro!: alone_bind [OF alone_bump] alone_bind [OF Cons.IH] intro: alone_returned)
qed

lemma alone_batch_get_handler:
  assumes "env_ok env" "execute_native_payload_with_metrics h env i (ReqBatchGet ns keys) st = (r, st1)"
  shows "alone (batch_get_handler h i ns keys) st r st1"
proof -
  obtain outs st' where get: "on_engine (sharded_batch_get h env ns keys) (count i inc_batch_gets st) = (outs, st')"
    by fastforce
  obtain items where "batch_items i outs st' = (items, st1)" "r = RespBatchGet items"
    using assms(2) get by (auto split: prod.splits)
  then show ?thesis
    unfolding batch_get_handler_def
    by (auto intro!: alone_bind [OF alone_bump] alone_bind [OF alone_batch_get [OF assms(1) get]]
        alone_bind [OF alone_batch_items] intro: alone_returned)
qed

lemma alone_put_handler:
  assumes "env_ok env" "execute_native_put h env i cmd st = (r, st1)"
  shows "alone (put_handler h i cmd) st r st1"
proof -
  obtain out st' where put: "on_engine (sharded_put h env cmd) (count i inc_puts st) = (out, st')"
    by fastforce
  show ?thesis
    unfolding put_handler_def
    by (rule alone_bind [OF alone_bump], rule alone_bind [OF alone_put [OF assms(1) put]])
      (use assms(2) put in \<open>cases out; auto simp: execute_native_put_def intro: alone_steps\<close>)
qed

lemma alone_lease_complete_handler:
  assumes "env_ok env" "execute_native_lease_complete h env i cmd st = (r, st1)"
  shows "alone (lease_complete_handler h i cmd) st r st1"
proof -
  obtain out st' where complete: "on_engine (sharded_complete_lease h env cmd) st = (out, st')"
    by fastforce
  show ?thesis
    unfolding lease_complete_handler_def
    by (rule alone_bind [OF alone_complete_lease [OF assms(1) complete]])
      (use assms(2) complete in \<open>auto simp: execute_native_lease_complete_def intro: alone_steps
        split: sum.splits complete_lease_error.splits\<close>)
qed

lemma alone_payload:
  "env_ok env \<Longrightarrow> execute_native_payload_with_metrics h env i p st = (r, st1) \<Longrightarrow> alone (payload_handler h i p) st r st1"
  by (cases p)
    (auto intro: alone_get_handler alone_put_handler alone_delete_handler alone_batch_get_handler
      alone_tag_invalidate_handler alone_lease_start_handler alone_lease_complete_handler
      simp del: execute_native_payload_with_metrics.simps(4))

lemma alone_view:
  "env_ok env \<Longrightarrow> execute_native_payload_view h env i v st = (r, st1) \<Longrightarrow> alone (view_handler h i v) st r st1"
  by (cases v)
    (auto intro: alone_get_handler alone_delete_handler alone_tag_invalidate_handler alone_lease_start_handler)

lemma alone_get_response:
  assumes "env_ok env" "encode_native_get_response_frame h env i rid cmd ns key st = (r, st1)"
  shows "alone (get_response_handler h i rid cmd ns key) st r st1"
  unfolding get_response_handler_def
  by (rule alone_bind [OF alone_bump], rule alone_atomic [OF assms(1)])
    (use assms(2) in \<open>simp add: encode_native_get_response_frame_def\<close>)

lemma alone_metrics_shard: "alone (metrics_shard_thread cid rid) st (metrics_shard_for_request st cid rid) st"
  unfolding metrics_shard_thread_def by (rule alone_atomic [OF sample_env_ok]) simp

text \<open>Every result of the handler that runs undisturbed is a result of the thread.\<close>

lemma alone_frame:
  assumes "env_ok env" "execute_native_frame_bytes h env cid m frame st = (r, st1)"
  shows "alone (frame_thread h cid m frame) st r st1"
proof (cases "decode_borrowed_request_frame frame m")
  case (Inl err)
  then show ?thesis
    using assms(2) by (auto simp: frame_thread_def execute_native_frame_bytes_def intro: alone_returned)
next
  case (Inr v)
  show ?thesis
  proof (cases v)
    case None
    then show ?thesis
      using assms Inr
      by (auto simp: frame_thread_def execute_native_frame_bytes_def execute_native_request_def Let_def
          split: sum.splits prod.splits
          intro!: alone_bind [OF alone_metrics_shard] alone_bind [OF alone_payload [OF assms(1)]] intro: alone_returned)
  next
    case (Some req)
    let ?i = "metrics_shard_for_request st cid (rv_request_id req)"
    obtain p st' where view: "execute_native_payload_view h env ?i (rv_payload req) st = (p, st')"
      by fastforce
    show ?thesis
      using assms(2) Inr Some view unfolding frame_thread_def execute_native_frame_bytes_def
      by (cases "rv_payload req")
        (auto simp: execute_native_request_view_def Let_def simp del: view_handler.simps execute_native_payload_view.simps
          intro!: alone_bind [OF alone_metrics_shard] alone_get_response [OF assms(1)]
            alone_bind [OF alone_view [OF assms(1)]] intro: alone_returned)
  qed
qed

section \<open>Running among others\<close>

text \<open>Every step keeps \<open>I\<close>, whatever the other threads do between the steps as long as they keep it too, and the
  result satisfies \<open>Q\<close>.\<close>

inductive keeps :: "(app_state \<Rightarrow> bool) \<Rightarrow> ('a \<Rightarrow> bool) \<Rightarrow> 'a thread \<Rightarrow> bool"
  for I :: "app_state \<Rightarrow> bool" and Q :: "'a \<Rightarrow> bool" where
  keeps_returned: "Q a \<Longrightarrow> keeps I Q (Returned a)"
| keeps_section:
    "(\<And>env st. env_ok env \<Longrightarrow> I st \<Longrightarrow> I (snd (f env st)) \<and> keeps I Q (fst (f env st))) \<Longrightarrow> keeps I Q (Section f)"

inductive_cases keeps_sectionE: "keeps I Q (Section f)"

lemma keeps_bind: "keeps I Q t \<Longrightarrow> (\<And>a. Q a \<Longrightarrow> keeps I R (k a)) \<Longrightarrow> keeps I R (thread_bind t k)"
  by (induction rule: keeps.induct) (auto intro: keeps_section)

lemma keeps_atomic:
  "(\<And>env st. env_ok env \<Longrightarrow> I st \<Longrightarrow> I (snd (f env st)) \<and> Q (fst (f env st))) \<Longrightarrow> keeps I Q (atomic f)"
  unfolding atomic_def by (rule keeps_section) (auto intro: keeps_returned)

text \<open>The invariant that races leave: consistent shards with the limits \<open>L\<close>, every entry in its shard, a
  directory that names existing shards. That every tag is routed is not part of it.\<close>

definition node_inv :: "hasher \<Rightarrow> engine_limits list \<Rightarrow> app_state \<Rightarrow> bool" where
  "node_inv h L st \<longleftrightarrow>
     race_inv h (ap_engine st, []) \<and> map limits (shards (ap_engine st)) = L \<and> ap_metrics st \<noteq> []"

lemma count_node_inv [simp]: "node_inv h L (count i f st) = node_inv h L st"
  by (simp add: node_inv_def count_def)

lemma keeps_bump: "keeps (node_inv h L) (\<lambda>_. True) (bump i f)"
  unfolding bump_def by (rule keeps_atomic) simp

lemma keeps_locked:
  assumes "\<And>env s. env_ok env \<Longrightarrow> race_inv h (s, []) \<Longrightarrow> length (shards s) = length L \<Longrightarrow>
    race_inv h (snd (f env s), []) \<and> map limits (shards (snd (f env s))) = map limits (shards s) \<and> Q (fst (f env s))"
  shows "keeps (node_inv h L) Q (locked f)"
  unfolding locked_def using assms by (intro keeps_atomic) (auto simp: node_inv_def on_engine_eq)

lemmas keeps_steps = keeps_bind [OF keeps_bump] keeps_returned

lemma all_limits_shards: "all_limits s1 = all_limits s \<Longrightarrow> map limits (shards s1) = map limits (shards s)"
  by (simp add: all_limits_def)

lemma section_limits:
  "put_section h env cmd s = (r, p, s1) \<Longrightarrow> all_limits s1 = all_limits s"
  "complete_section h env cmd' s = (r', p, s1) \<Longrightarrow> all_limits s1 = all_limits s"
  "delete_section h ns key s = (b, p, s1) \<Longrightarrow> all_limits s1 = all_limits s"
  by (auto simp: put_section_def complete_section_def delete_section_def Let_def case_prod_beta with_shard_limits)

text \<open>A call of two sections: the first leaves the routes of an existing shard to update.\<close>

lemma keeps_two_sections:
  assumes "\<And>env s r p s1. env_ok env \<Longrightarrow> race_inv h (s, []) \<Longrightarrow> sec env s = (r, p, s1) \<Longrightarrow>
    race_inv h (s1, [p]) \<and> all_limits s1 = all_limits s"
  shows "keeps (node_inv h L) (\<lambda>_. True)
    (thread_bind (locked (\<lambda>env s. case sec env s of (r, p, s1) \<Rightarrow> ((r, p), s1))) (\<lambda>(r, p).
      thread_bind (routes_thread p) (\<lambda>_. Returned r)))"
proof (rule keeps_bind)
  show "keeps (node_inv h L) (\<lambda>(r, p). pending_ok (length L) p) (locked (\<lambda>env s. case sec env s of (r, p, s1) \<Rightarrow> ((r, p), s1)))"
  proof (rule keeps_locked)
    fix env s
    assume inv: "env_ok env" "race_inv h (s, [])" "length (shards s) = length L"
    obtain r p s1 where sec: "sec env s = (r, p, s1)"
      by (cases "sec env s")
    have "race_inv h (s1, [p])" "map limits (shards s1) = map limits (shards s)"
      using assms [OF inv(1,2) sec] all_limits_shards by blast+
    then show "race_inv h (snd (case sec env s of (r, p, s1) \<Rightarrow> ((r, p), s1)), []) \<and>
        map limits (shards (snd (case sec env s of (r, p, s1) \<Rightarrow> ((r, p), s1)))) = map limits (shards s) \<and>
        (case fst (case sec env s of (r, p, s1) \<Rightarrow> ((r, p), s1)) of (r, p) \<Rightarrow> pending_ok (length L) p)"
      using inv(3) map_eq_imp_length_eq [of limits "shards s1" limits "shards s"] by (simp add: sec race_inv_iff)
  qed
  fix rp :: "'a \<times> pending"
  assume ok: "case rp of (r, p) \<Rightarrow> pending_ok (length L) p"
  have "keeps (node_inv h L) (\<lambda>_. True) (routes_thread (snd rp))"
    unfolding routes_thread_def using ok
    by (intro keeps_locked) (cases "snd rp"; auto simp: race_inv_iff update_tag_routes_race_inv)
  then show "keeps (node_inv h L) (\<lambda>_. True) ((\<lambda>(r, p). thread_bind (routes_thread p) (\<lambda>_. Returned r)) rp)"
    by (auto simp: case_prod_beta intro: keeps_bind keeps_returned)
qed

lemma keeps_put: "keeps (node_inv h L) (\<lambda>_. True) (put_thread h cmd)"
  unfolding put_thread_def
  by (rule keeps_two_sections) (metis race_step_inv race_put section_limits(1) append_Nil)

lemma keeps_complete_lease: "keeps (node_inv h L) (\<lambda>_. True) (complete_lease_thread h cmd)"
  unfolding complete_lease_thread_def
  by (rule keeps_two_sections) (metis race_step_inv race_complete section_limits(2) append_Nil)

lemma keeps_delete: "keeps (node_inv h L) (\<lambda>_. True) (delete_thread h ns key)"
  unfolding delete_thread_def
  by (rule keeps_two_sections) (metis race_step_inv race_delete section_limits(3) append_Nil)

lemma keeps_get: "keeps (node_inv h L) (\<lambda>_. True) (get_thread h ns key)"
  unfolding get_thread_def
  by (rule keeps_locked)
    (auto simp: sharded_get_def with_shard_limits intro: race_step_inv [OF race_get, unfolded sharded_get_def] all_limits_shards)

lemma keeps_start_lease: "keeps (node_inv h L) (\<lambda>_. True) (start_lease_thread h ns key ttl)"
  unfolding start_lease_thread_def
  by (rule keeps_locked)
    (auto simp: sharded_start_lease_def with_shard_limits
      intro: race_step_inv [OF race_start_lease, unfolded sharded_start_lease_def] all_limits_shards)

lemma keeps_batch_get: "keeps (node_inv h L) (\<lambda>_. True) (batch_get_thread h ns keys)"
  by (induction keys) (auto intro!: keeps_bind [OF keeps_get] intro: keeps_bind keeps_returned)

lemma keeps_one_shard:
  assumes "i < length L"
    and "\<And>env s. env_ok env \<Longrightarrow> race_inv h (s, []) \<Longrightarrow> i < length (shards s) \<Longrightarrow> race_inv h (snd (with_shard i (f env) s), [])"
    and "\<And>env e. limits (snd (f env e)) = limits e"
  shows "keeps (node_inv h L) (\<lambda>_. True) (locked (\<lambda>env. with_shard i (f env)))"
  by (rule keeps_locked) (use assms in \<open>simp add: all_limits_shards [OF with_shard_limits]\<close>)

lemma keeps_invalidate_shards:
  "list_all (\<lambda>i. i < length L) ixs \<Longrightarrow> keeps (node_inv h L) (\<lambda>_. True) (invalidate_shards_thread ns tag ixs)"
proof (induction ixs)
  case (Cons i ixs)
  have "race_inv h (snd (with_shard i (engine_invalidate_tag env ns tag) s), [])"
    if "env_ok env" "race_inv h (s, [])" "i < length (shards s)" for env s
    using race_step_inv [OF race_invalidate_shard [OF that(1), of h s "[]" ns tag i "[]" "[]"]] that(2,3)
    by (simp add: race_inv_iff)
  then have "keeps (node_inv h L) (\<lambda>_. True) (locked (\<lambda>env. with_shard i (engine_invalidate_tag env ns tag)))"
    using Cons.prems by (intro keeps_one_shard) simp_all
  then show ?case
    using Cons by (auto intro!: keeps_bind intro: keeps_returned)
qed (auto intro: keeps_returned)

lemma keeps_invalidate_tag: "keeps (node_inv h L) (\<lambda>_. True) (invalidate_tag_thread ns tag)"
  unfolding invalidate_tag_thread_def
proof (rule keeps_bind [OF keeps_locked keeps_invalidate_shards])
  fix env s
  assume inv: "env_ok env" "race_inv h (s, [])" "length (shards s) = length L"
  from race_step_inv [OF race_invalidate [where ps = "[]", OF inv(1) refl, of h s ns tag] inv(2)]
  show "race_inv h (snd (take_routes ns tag env s), []) \<and>
      map limits (shards (snd (take_routes ns tag env s))) = map limits (shards s) \<and>
      list_all (\<lambda>i. i < length L) (fst (take_routes ns tag env s))"
    using inv(3) by (simp add: take_routes_def race_inv_iff)
qed

lemma keeps_reclaim_shards:
  "list_all (\<lambda>i. i < length L) ixs \<Longrightarrow> keeps (node_inv h L) (\<lambda>_. True) (reclaim_shards_thread n ixs)"
proof (induction ixs arbitrary: n)
  case (Cons i ixs)
  have "keeps (node_inv h L) (\<lambda>_. True) (locked (\<lambda>env. with_shard i (engine_reclaim_expired_budget (clk env 0) n)))"
    using Cons.prems race_step_inv [OF race_reclaim] by (intro keeps_one_shard) simp_all
  then show ?case
    using Cons by (auto intro!: keeps_bind intro: keeps_returned)
qed (auto intro: keeps_returned)

lemma keeps_reclaim: "keeps (node_inv h L) (\<lambda>_. True) (reclaim_thread n)"
proof -
  have "keeps (node_inv h L) (\<lambda>k. k = length L) (atomic (\<lambda>env st. (length (shards (ap_engine st)), st)))"
    by (rule keeps_atomic) (auto simp: node_inv_def)
  then have "keeps (node_inv h L) (\<lambda>_. True)
      (thread_bind (atomic (\<lambda>env st. (length (shards (ap_engine st)), st))) (\<lambda>k. reclaim_shards_thread n [0..<k]))"
    by (rule keeps_bind) (auto simp: list_all_iff intro!: keeps_reclaim_shards)
  then show ?thesis
    by (simp add: reclaim_thread_def keeps_returned)
qed

lemma keeps_worker: "keeps (node_inv h L) (\<lambda>_. True) (worker_thread interval budget)"
  unfolding worker_thread_def by (auto intro: keeps_bind [OF keeps_reclaim] keeps_returned)

lemma keeps_admin: "keeps (node_inv h L) (\<lambda>_. True) (admin_thread meth path)"
  unfolding admin_thread_def by (auto intro!: keeps_steps keeps_bump)

lemmas keeps_calls = keeps_bind [OF keeps_put] keeps_bind [OF keeps_complete_lease] keeps_bind [OF keeps_delete]
  keeps_bind [OF keeps_get] keeps_bind [OF keeps_start_lease] keeps_bind [OF keeps_batch_get]
  keeps_bind [OF keeps_invalidate_tag]

lemma keeps_batch_items: "keeps (node_inv h L) (\<lambda>_. True) (batch_items_handler i outs)"
  by (induction outs) (auto intro!: keeps_bind [OF keeps_bump] intro: keeps_bind keeps_returned)

lemma keeps_payload: "keeps (node_inv h L) (\<lambda>_. True) (payload_handler h i p)"
  by (cases p)
    (auto simp: handler_threads split: get_outcome.split start_lease_outcome.split sum.split complete_lease_error.split
      intro!: keeps_steps keeps_calls keeps_bind [OF keeps_batch_items])

lemma keeps_view: "keeps (node_inv h L) (\<lambda>_. True) (view_handler h i v)"
  by (cases v)
    (auto simp: handler_threads split: get_outcome.split start_lease_outcome.split intro!: keeps_steps keeps_calls)

lemma get_ref_state: "snd (sharded_get_ref h env ns key f s) = snd (sharded_get h env ns key s)"
  by (cases "engine_entry_state (clk env 0) (EntryId ns key) (shards s ! shard_index_for h ns key s)")
    (simp_all add: sharded_get_ref_def sharded_get_def with_shard_def engine_get_def get_ref_def get_ref_inner_unfold
      case_prod_beta Let_def)

lemma keeps_get_response: "keeps (node_inv h L) (\<lambda>_. True) (get_response_handler h i rid cmd ns key)"
  unfolding get_response_handler_def
proof (rule keeps_bind [OF keeps_bump], rule keeps_atomic)
  fix env st
  assume "node_inv h L st"
  then have "node_inv h L (st\<lparr>ap_engine := snd (sharded_get h env ns key (ap_engine st))\<rparr>)"
    using race_step_inv [OF race_get] by (simp add: node_inv_def sharded_get_def all_limits_shards [OF with_shard_limits])
  then show "node_inv h L (snd (let ((out, inc), st1) = on_engine (sharded_get_ref h env ns key (\<lambda>r. case r of
          RefHit v \<Rightarrow> (encode_response_payload_view_frame rid cmd (RvHit v), inc_hits)
        | RefStale v \<Rightarrow> (encode_response_payload_view_frame rid cmd (RvStale v), inc_stale)
        | RefMiss \<Rightarrow> (encode_response_payload_view_frame rid cmd RvMiss, inc_misses))) st in (out, count i inc st1))) \<and> True"
    by (simp add: on_engine_eq case_prod_beta Let_def get_ref_state)
qed

lemma keeps_frame: "keeps (node_inv h L) (\<lambda>_. True) (frame_thread h cid m frame)"
proof -
  have "keeps (node_inv h L) (\<lambda>_. True) (metrics_shard_thread cid rid)" for rid
    unfolding metrics_shard_thread_def by (rule keeps_atomic) simp
  note shard = keeps_bind [OF this]
  show ?thesis
    unfolding frame_thread_def
    by (auto split: sum.split option.split request_payload_view.split
        intro!: shard keeps_get_response keeps_bind [OF keeps_view] keeps_bind [OF keeps_payload] keeps_returned
        simp del: view_handler.simps)
qed

section \<open>Background threads alone\<close>

lemma alone_reclaim_shards:
  "env_ok env \<Longrightarrow> i \<le> length (shards (ap_engine st)) \<Longrightarrow>
   reclaim_shards env n (drop i (shards (ap_engine st))) = (k, es) \<Longrightarrow>
   alone (reclaim_shards_thread n [i..<length (shards (ap_engine st))]) st k
     (st\<lparr>ap_engine := (ap_engine st)\<lparr>shards := take i (shards (ap_engine st)) @ es\<rparr>\<rparr>)"
proof (induction "length (shards (ap_engine st)) - i" arbitrary: i env n st k es)
  case 0
  then show ?case
    by (auto intro: alone_returned)
next
  case (Suc d)
  let ?es = "shards (ap_engine st)"
  have i: "i < length ?es"
    using Suc.hyps(2) by linarith
  then have upt: "[i..<length ?es] = i # [Suc i..<length ?es]" and dr: "drop i ?es = ?es ! i # drop (Suc i) ?es"
    by (simp_all add: upt_conv_Cons Cons_nth_drop_Suc)
  show ?case
  proof (cases "n = 0")
    case True
    then show ?thesis
      using Suc.prems(3) id_take_nth_drop [OF i] unfolding upt dr by (auto intro: alone_returned)
  next
    case False
    obtain c e where e: "engine_reclaim_expired_budget (clk env 0) n (?es ! i) = (c, e)"
      by fastforce
    obtain k1 es1 where tail: "reclaim_shards (env_tick 1 env) (n - c) (drop (Suc i) ?es) = (k1, es1)"
      by fastforce
    have eqs: "k = c + k1" "es = e # es1"
      using Suc.prems(3) False tail e unfolding dr by auto
    let ?st = "st\<lparr>ap_engine := (ap_engine st)\<lparr>shards := ?es[i := e]\<rparr>\<rparr>"
    have first: "alone (locked (\<lambda>env. with_shard i (engine_reclaim_expired_budget (clk env 0) n))) st c ?st"
      using alone_locked [where f = "\<lambda>env. with_shard i (engine_reclaim_expired_budget (clk env 0) n)", OF Suc.prems(1)] e
      by (simp add: with_shard_def)
    have "alone (reclaim_shards_thread (n - c) [Suc i..<length ?es]) ?st k1
        (st\<lparr>ap_engine := (ap_engine st)\<lparr>shards := take i ?es @ e # es1\<rparr>\<rparr>)"
      using Suc.hyps(1) [of ?st "Suc i" "env_tick 1 env" "n - c" k1 es1] Suc.hyps(2) Suc.prems(1) i tail
      by (simp add: take_Suc_conv_app_nth)
    then show ?thesis
      unfolding upt using False by (auto simp: eqs intro!: alone_bind [OF first] intro: alone_steps)
  qed
qed

lemma alone_worker:
  assumes "env_ok env"
  shows "alone (worker_thread interval budget) st () (expiration_worker_tick env interval budget st)"
proof -
  let ?n = "length (shards (ap_engine st))"
  obtain k es where es: "reclaim_shards env budget (shards (ap_engine st)) = (k, es)"
    by fastforce
  have "alone (atomic (\<lambda>env st. (length (shards (ap_engine st)), st))) st ?n st"
    by (rule alone_atomic [OF assms]) simp
  then have "alone (reclaim_thread budget) st (fst (sharded_reclaim_expired_budget env budget (ap_engine st)))
      (st\<lparr>ap_engine := snd (sharded_reclaim_expired_budget env budget (ap_engine st))\<rparr>)"
    using alone_reclaim_shards [OF assms, of 0 st budget k es] es
    by (auto simp: reclaim_thread_def sharded_reclaim_expired_budget_def intro: alone_steps)
  then show ?thesis
    by (auto simp: worker_thread_def expiration_worker_tick_def on_engine_eq intro: alone_steps)
qed

lemma alone_admin: "alone (admin_thread meth path) st () (snd (handle_request meth path st))"
  by (auto simp: admin_thread_def handle_request_def intro!: alone_steps)

end
