(* ===== verification/Connection.thy ===== *)
theory Connection
  imports Server_Threads "HOL-Library.Multiset"
begin

text \<open>
  A native connection of src/server.rs: the bytes of the socket are cut into frames; frames are
  executed one after the other until a read yields several at once, and concurrently from then
  on; the responses of concurrent executions go through a channel and are written in batches. A frame is executed as a
  thread, one critical section at a time, so that other work goes on in between. The
  theory shows that the frames do not depend on how the bytes arrive and that batching writes
  every response once.
\<close>

section \<open>Cutting the buffer into frames\<close>

datatype frame_drain = Frames "(nat \<times> nat) list" | NeedMore | Close

text \<open>The loop with its accumulated ranges and its offset.\<close>

function find_frames_loop :: "bytes \<Rightarrow> usize \<Rightarrow> (nat \<times> nat) list \<Rightarrow> nat \<Rightarrow> frame_drain" where
  "find_frames_loop buffer max_payload_len frames offset =
     (if length buffer - offset \<ge> HEADER_LEN then
       (let payload_len = from_be (take 4 (drop (offset + 16) buffer))
        in if payload_len > max_payload_len then Close
           else
            (let frame_len = HEADER_LEN + payload_len
             in if length buffer - offset < frame_len
                then (if frames = [] then NeedMore else Frames frames)
                else find_frames_loop buffer max_payload_len
                       (frames @ [(offset, offset + frame_len)]) (offset + frame_len)))
      else (if frames = [] then NeedMore else Frames frames))"
  by pat_completeness auto

termination
  by (relation "measure (\<lambda>(buffer, _, _, offset). length buffer - offset)") (auto simp: HEADER_LEN_def)

declare find_frames_loop.simps [simp del]

definition find_complete_native_frames :: "bytes \<Rightarrow> usize \<Rightarrow> frame_drain" where
  "find_complete_native_frames buffer max_payload_len = find_frames_loop buffer max_payload_len [] 0"

definition drain_frame_ranges :: "bytes \<Rightarrow> (nat \<times> nat) list \<Rightarrow> bytes" where
  "drain_frame_ranges buffer ranges = (if ranges = [] then buffer else drop (snd (last ranges)) buffer)"

definition slice :: "bytes \<Rightarrow> nat \<times> nat \<Rightarrow> bytes" where
  "slice buffer r = take (snd r - fst r) (drop (fst r) buffer)"

text \<open>The chunks are what the reads of the socket return; an empty read ends the stream. The result
  carries the buffer and the chunks that are left.\<close>

fun read_native_frame_ranges ::
  "usize \<Rightarrow> bytes list \<Rightarrow> bytes \<Rightarrow> (nat \<times> nat) list option \<times> bytes \<times> bytes list" where
  "read_native_frame_ranges max_payload_len chunks buffer =
     (case find_complete_native_frames buffer max_payload_len of
        Frames frames \<Rightarrow> (Some frames, buffer, chunks)
      | Close \<Rightarrow> (None, buffer, chunks)
      | NeedMore \<Rightarrow>
          (case chunks of
             [] \<Rightarrow> (None, buffer, [])
           | chunk # later \<Rightarrow>
               if chunk = [] then (None, buffer, later)
               else read_native_frame_ranges max_payload_len later (buffer @ chunk)))"

declare read_native_frame_ranges.simps [simp del]

lemma find_frames_step:
  fixes buffer offset
  defines "n \<equiv> from_be (take 4 (drop (offset + 16) buffer))"
  assumes "HEADER_LEN + n \<le> length buffer - offset" "n \<le> m"
  shows "find_frames_loop buffer m frames offset =
    find_frames_loop buffer m (frames @ [(offset, offset + (HEADER_LEN + n))]) (offset + (HEADER_LEN + n))"
  using assms by (subst find_frames_loop.simps) (simp add: Let_def)

lemma find_frames_stop:
  fixes buffer offset
  defines "n \<equiv> from_be (take 4 (drop (offset + 16) buffer))"
  assumes "\<not> HEADER_LEN + n \<le> length buffer - offset \<or> m < n"
  shows "find_frames_loop buffer m frames offset =
    (if HEADER_LEN \<le> length buffer - offset \<and> m < n then Close
     else if frames = [] then NeedMore else Frames frames)"
  using assms by (subst find_frames_loop.simps) (auto simp: Let_def)

definition range_ok :: "bytes \<Rightarrow> nat \<times> nat \<Rightarrow> bool" where
  "range_ok buffer r \<longleftrightarrow> fst r + HEADER_LEN \<le> snd r \<and> snd r \<le> length buffer"

lemma find_frames_ranges:
  "find_frames_loop buffer m frames offset = Frames rs \<Longrightarrow> list_all (range_ok buffer) frames \<Longrightarrow>
   rs \<noteq> [] \<and> list_all (range_ok buffer) rs"
proof (induction buffer m frames offset rule: find_frames_loop.induct)
  case (1 buffer m frames offset)
  define n where "n = from_be (take 4 (drop (offset + 16) buffer))"
  show ?case
  proof (cases "HEADER_LEN + n \<le> length buffer - offset \<and> n \<le> m")
    case True
    then have "range_ok buffer (offset, offset + (HEADER_LEN + n))"
      unfolding range_ok_def HEADER_LEN_def fst_conv snd_conv by linarith
    then show ?thesis
      using 1 True find_frames_step [of offset buffer m frames] by (simp add: n_def [symmetric])
  next
    case False
    then show ?thesis
      using find_frames_stop [of offset buffer m frames] 1(2,3)
      by (auto simp: n_def [symmetric] split: if_splits)
  qed
qed

lemma read_ranges_spec:
  "read_native_frame_ranges m chunks buffer = (Some ranges, buffer1, chunks1) \<Longrightarrow>
   ranges \<noteq> [] \<and> list_all (range_ok buffer1) ranges \<and> length chunks1 \<le> length chunks \<and>
   buffer1 @ concat chunks1 = buffer @ concat chunks"
proof (induction m chunks buffer rule: read_native_frame_ranges.induct)
  case (1 m chunks buffer)
  show ?case
  proof (cases "find_complete_native_frames buffer m")
    case (Frames rs)
    then have "rs \<noteq> [] \<and> list_all (range_ok buffer) rs"
      using find_frames_ranges [of buffer m "[]" 0 rs] by (simp add: find_complete_native_frames_def)
    then show ?thesis
      using Frames 1(2) by (simp add: read_native_frame_ranges.simps [of m chunks])
  next
    case NeedMore
    then show ?thesis
      using 1 by (fastforce simp: read_native_frame_ranges.simps [of m chunks]
          split: list.splits if_splits)
  qed (use 1(2) in \<open>simp add: read_native_frame_ranges.simps [of m chunks]\<close>)
qed

section \<open>The frames of a connection\<close>

lemma drain_shorter:
  assumes "read_native_frame_ranges m chunks buffer = (Some ranges, buffer1, chunks1)"
  shows "length (drain_frame_ranges buffer1 ranges @ concat chunks1) < length (buffer @ concat chunks)"
proof -
  have ranges: "ranges \<noteq> []" "list_all (range_ok buffer1) ranges"
    and bytes: "buffer1 @ concat chunks1 = buffer @ concat chunks"
    using read_ranges_spec [OF assms] by auto
  then have "range_ok buffer1 (last ranges)"
    by (simp add: list_all_iff)
  then have "0 < snd (last ranges)" "snd (last ranges) \<le> length buffer1"
    by (simp_all add: range_ok_def HEADER_LEN_def)
  then show ?thesis
    using ranges(1) unfolding bytes [symmetric] by (simp add: drain_frame_ranges_def)
qed

text \<open>The read loop of \<open>handle_native_connection\<close>: the batches of frames with the mode they are
  executed in. Once a read yields more than one frame, the connection stays pipelined.\<close>

function connection_batches :: "usize \<Rightarrow> bool \<Rightarrow> bytes \<Rightarrow> bytes list \<Rightarrow> (bool \<times> bytes list) list" where
  "connection_batches max_payload_len pipelined buffer chunks =
     (case read_native_frame_ranges max_payload_len chunks buffer of
        (None, _, _) \<Rightarrow> []
      | (Some ranges, buffer1, chunks1) \<Rightarrow>
          (let pipelined1 = (pipelined \<or> length ranges > 1)
           in (pipelined1, map (slice buffer1) ranges) #
              connection_batches max_payload_len pipelined1 (drain_frame_ranges buffer1 ranges) chunks1))"
  by pat_completeness auto

termination
  by (relation "measure (\<lambda>(m, pipelined, buffer, chunks). length (buffer @ concat chunks))")
    (use drain_shorter in \<open>fastforce+\<close>)

declare connection_batches.simps [simp del]

section \<open>Frames do not depend on the chunks\<close>

definition framed :: "usize \<Rightarrow> bytes \<Rightarrow> bool" where
  "framed m f \<longleftrightarrow>
     length f = HEADER_LEN + from_be (take 4 (drop 16 f)) \<and> from_be (take 4 (drop 16 f)) \<le> m"

text \<open>What is left of a frame of which not all bytes have arrived.\<close>

definition incomplete :: "usize \<Rightarrow> bytes \<Rightarrow> bool" where
  "incomplete m part \<longleftrightarrow>
     length part < HEADER_LEN \<or>
     (from_be (take 4 (drop 16 part)) \<le> m \<and> length part < HEADER_LEN + from_be (take 4 (drop 16 part)))"

fun ranges_of :: "nat \<Rightarrow> bytes list \<Rightarrow> (nat \<times> nat) list" where
  "ranges_of offset [] = []"
| "ranges_of offset (f # fs) = (offset, offset + length f) # ranges_of (offset + length f) fs"

lemma find_frames_skip:
  assumes "list_all (framed m) fs" "length pre = offset"
  shows "find_frames_loop (pre @ concat fs @ part) m acc offset =
    find_frames_loop (pre @ concat fs @ part) m (acc @ ranges_of offset fs) (offset + length (concat fs))"
  using assms
proof (induction fs arbitrary: acc pre offset)
  case (Cons f fs)
  let ?buf = "pre @ concat (f # fs) @ part"
  have f: "length f = HEADER_LEN + from_be (take 4 (drop 16 f))" "from_be (take 4 (drop 16 f)) \<le> m"
    using Cons.prems(1) unfolding list.pred_inject framed_def by blast+
  have "24 \<le> length f"
    using f(1) unfolding HEADER_LEN_def by linarith
  then have n: "take 4 (drop (offset + 16) ?buf) = take 4 (drop 16 f)"
    unfolding Cons.prems(2) [symmetric] by simp
  have "length f \<le> length ?buf - offset"
    using Cons.prems(2) by simp
  then have "HEADER_LEN + from_be (take 4 (drop (offset + 16) ?buf)) \<le> length ?buf - offset"
    "from_be (take 4 (drop (offset + 16) ?buf)) \<le> m"
    using f unfolding n by linarith+
  note step = find_frames_step [OF this, unfolded n f(1) [symmetric], of acc]
  show ?case
    unfolding step
    using Cons.IH [of "pre @ f" "offset + length f" "acc @ [(offset, offset + length f)]"] Cons.prems
    by (simp add: ac_simps)
qed simp

lemma find_frames_framed:
  assumes "list_all (framed m) fs" "incomplete m part" "length pre = offset"
  shows "find_frames_loop (pre @ concat fs @ part) m acc offset =
    (if acc @ ranges_of offset fs = [] then NeedMore else Frames (acc @ ranges_of offset fs))"
proof -
  let ?buf = "pre @ concat fs @ part" and ?at = "offset + length (concat fs)"
  let ?n = "from_be (take 4 (drop (?at + 16) ?buf))"
  have n: "?n = from_be (take 4 (drop 16 part))" "length ?buf - ?at = length part"
    unfolding assms(3) [symmetric] by simp_all
  have stop: "\<not> HEADER_LEN + ?n \<le> length ?buf - ?at \<or> m < ?n"
    and small: "\<not> (HEADER_LEN \<le> length ?buf - ?at \<and> m < ?n)"
    using assms(2) unfolding n incomplete_def by linarith+
  show ?thesis
    unfolding find_frames_skip [OF assms(1,3), of part acc] find_frames_stop [OF stop] if_not_P [OF small] ..
qed

lemma find_frames_oversized:
  assumes "list_all (framed m) fs" "HEADER_LEN \<le> length part" "m < from_be (take 4 (drop 16 part))"
  shows "find_complete_native_frames (concat fs @ part) m = Close"
proof -
  let ?buf = "concat fs @ part" and ?at = "length (concat fs)"
  have "HEADER_LEN \<le> length ?buf - ?at" "m < from_be (take 4 (drop (?at + 16) ?buf))"
    using assms(2,3) by simp_all
  then show ?thesis
    using find_frames_skip [OF assms(1), of "[]" 0 part "[]"]
      find_frames_stop [of ?at ?buf m "ranges_of 0 fs"]
    unfolding find_complete_native_frames_def by simp
qed

lemma prefix_of_frames:
  assumes "list_all (framed m) fs" "buffer @ tail = concat fs"
  shows "\<exists>gs hs part. fs = gs @ hs \<and> buffer = concat gs @ part \<and> incomplete m part \<and> part @ tail = concat hs"
  using assms
proof (induction fs arbitrary: buffer)
  case Nil
  then show ?case
    by (auto simp: incomplete_def HEADER_LEN_def)
next
  case (Cons f fs)
  obtain us where us: "buffer = f @ us \<and> us @ tail = concat fs \<or> buffer @ us = f \<and> tail = us @ concat fs"
    using Cons.prems(2) by (auto simp: append_eq_append_conv2)
  show ?case
  proof (cases "buffer = f @ us \<and> us @ tail = concat fs")
    case True
    then obtain gs hs part where "fs = gs @ hs" "us = concat gs @ part" "incomplete m part"
      "part @ tail = concat hs"
      using Cons.IH [of us] Cons.prems(1) by auto
    then show ?thesis
      using True by (intro exI [of _ "f # gs"] exI [of _ hs] exI [of _ part]) simp
  next
    case False
    then have f: "f = buffer @ us" "us \<noteq> []"
      using us by auto
    have "take 4 (drop 16 buffer) = take 4 (drop 16 f)" if "HEADER_LEN \<le> length buffer"
      using that by (simp add: f(1) HEADER_LEN_def)
    moreover have "length buffer < length f"
      using f by simp
    moreover have "length f = HEADER_LEN + from_be (take 4 (drop 16 f))" "from_be (take 4 (drop 16 f)) \<le> m"
      using Cons.prems(1) unfolding list.pred_inject framed_def by blast+
    ultimately have "incomplete m buffer"
      unfolding incomplete_def not_less [symmetric] by metis
    then show ?thesis
      using Cons.prems(2) by (intro exI [of _ "[]"] exI [of _ "f # fs"] exI [of _ buffer]) simp
  qed
qed

lemma map_slice_ranges: "map (slice (pre @ concat fs @ part)) (ranges_of (length pre) fs) = fs"
proof (induction fs arbitrary: pre)
  case (Cons f fs)
  then show ?case
    using Cons.IH [of "pre @ f"] by (simp add: slice_def)
qed simp

lemma snd_last_ranges: "fs \<noteq> [] \<Longrightarrow> snd (last (ranges_of offset fs)) = offset + length (concat fs)"
proof (induction fs arbitrary: offset)
  case (Cons f fs)
  then show ?case
    by (cases fs) auto
qed simp

lemma ranges_of_Nil_iff [simp]: "ranges_of offset fs = [] \<longleftrightarrow> fs = []"
  by (cases fs) auto

lemma find_framed:
  assumes "list_all (framed m) fs" "buffer @ tail = concat fs"
  shows "\<exists>gs hs part. fs = gs @ hs \<and> buffer = concat gs @ part \<and> incomplete m part \<and>
    part @ tail = concat hs \<and>
    find_complete_native_frames buffer m = (if gs = [] then NeedMore else Frames (ranges_of 0 gs))"
proof -
  obtain gs hs part where part: "fs = gs @ hs" "buffer = concat gs @ part" "incomplete m part"
    "part @ tail = concat hs"
    using prefix_of_frames [OF assms] by blast
  have "find_complete_native_frames buffer m = (if gs = [] then NeedMore else Frames (ranges_of 0 gs))"
    using find_frames_framed [of m gs part "[]" 0 "[]"] part(1-3) assms(1)
    by (simp add: find_complete_native_frames_def)
  then show ?thesis
    using part by blast
qed

lemma frame_complete: "framed m f \<Longrightarrow> part = f @ bs \<Longrightarrow> \<not> incomplete m part"
proof -
  assume "framed m f" and part: "part = f @ bs"
  then have f: "length f = HEADER_LEN + from_be (take 4 (drop 16 f))"
    unfolding framed_def by blast
  then have "24 \<le> length f"
    unfolding HEADER_LEN_def by linarith
  then have n: "take 4 (drop 16 part) = take 4 (drop 16 f)"
    by (simp add: part)
  have "length f \<le> length part"
    by (simp add: part)
  then show ?thesis
    using f unfolding incomplete_def n by linarith
qed

lemma read_framed:
  assumes "list_all (framed m) fs" "buffer @ concat chunks = concat fs" "[] \<notin> set chunks"
  shows "fs = [] \<and> fst (read_native_frame_ranges m chunks buffer) = None \<or>
    (\<exists>gs hs part chunks1. gs \<noteq> [] \<and> fs = gs @ hs \<and> [] \<notin> set chunks1 \<and>
       part @ concat chunks1 = concat hs \<and>
       read_native_frame_ranges m chunks buffer = (Some (ranges_of 0 gs), concat gs @ part, chunks1))"
  using assms(2,3)
proof (induction chunks arbitrary: buffer)
  case Nil
  obtain gs hs part where part: "fs = gs @ hs" "buffer = concat gs @ part" "incomplete m part"
    "part @ concat [] = concat hs"
    and find: "find_complete_native_frames buffer m = (if gs = [] then NeedMore else Frames (ranges_of 0 gs))"
    using find_framed [OF assms(1) Nil.prems(1)] by blast
  show ?case
  proof (cases "gs = []")
    case True
    have "hs = []"
      using frame_complete part(3,4) assms(1) unfolding part(1) by (cases hs) force+
    then show ?thesis
      using True part(1) find by (simp add: read_native_frame_ranges.simps [of m "[]"])
  next
    case False
    then have "read_native_frame_ranges m [] buffer = (Some (ranges_of 0 gs), concat gs @ part, [])"
      using find part(2) by (simp add: read_native_frame_ranges.simps [of m "[]"])
    then show ?thesis
      using part(1,4) False Nil.prems(2) by blast
  qed
next
  case (Cons chunk chunks)
  obtain gs hs part where part: "fs = gs @ hs" "buffer = concat gs @ part" "incomplete m part"
    "part @ concat (chunk # chunks) = concat hs"
    and find: "find_complete_native_frames buffer m = (if gs = [] then NeedMore else Frames (ranges_of 0 gs))"
    using find_framed [OF assms(1) Cons.prems(1)] by blast
  show ?case
  proof (cases "gs = []")
    case True
    have "chunk \<noteq> []"
      using Cons.prems(2) by auto
    then have "read_native_frame_ranges m (chunk # chunks) buffer = read_native_frame_ranges m chunks (buffer @ chunk)"
      using True find by (simp add: read_native_frame_ranges.simps [of m "chunk # chunks"])
    then show ?thesis
      using Cons.IH [of "buffer @ chunk"] Cons.prems by simp
  next
    case False
    then have "read_native_frame_ranges m (chunk # chunks) buffer =
        (Some (ranges_of 0 gs), concat gs @ part, chunk # chunks)"
      using find part(2) by (simp add: read_native_frame_ranges.simps [of m "chunk # chunks"])
    then show ?thesis
      using part(1,4) False Cons.prems(2) by blast
  qed
qed

lemma batches_framed:
  "list_all (framed m) fs \<Longrightarrow> buffer @ concat chunks = concat fs \<Longrightarrow> [] \<notin> set chunks \<Longrightarrow>
   concat (map snd (connection_batches m pipelined buffer chunks)) = fs"
proof (induction m pipelined buffer chunks arbitrary: fs rule: connection_batches.induct)
  case (1 m pipelined buffer chunks)
  show ?case
    using read_framed [OF 1(2-4)]
  proof (elim disjE exE conjE)
    assume "fs = []" "fst (read_native_frame_ranges m chunks buffer) = None"
    then show ?thesis
      by (cases "read_native_frame_ranges m chunks buffer")
        (simp add: connection_batches.simps [of m pipelined])
  next
    fix gs hs part chunks1
    assume gs: "gs \<noteq> []" "fs = gs @ hs" "[] \<notin> set chunks1" "part @ concat chunks1 = concat hs"
      and read: "read_native_frame_ranges m chunks buffer = (Some (ranges_of 0 gs), concat gs @ part, chunks1)"
    have drain: "drain_frame_ranges (concat gs @ part) (ranges_of 0 gs) = part"
      using gs(1) by (simp add: drain_frame_ranges_def snd_last_ranges)
    have "concat (map snd (connection_batches m (pipelined \<or> length (ranges_of 0 gs) > 1) part chunks1)) = hs"
      using 1(1) [OF read [symmetric] refl refl refl, of hs] 1(2) gs(2-4) by (simp add: drain)
    then show ?thesis
      using gs(2) read map_slice_ranges [of "[]" gs part]
      by (simp add: connection_batches.simps [of m pipelined] drain Let_def)
  qed
qed

section \<open>Batching responses\<close>

text \<open>The queue is what the channel holds; the result carries what it holds afterwards.\<close>

fun coalesce_loop :: "usize \<Rightarrow> bytes \<Rightarrow> bytes list \<Rightarrow> bytes \<times> bytes list" where
  "coalesce_loop frames batch queue =
     (if frames < MAX_RESPONSE_WRITE_BATCH_FRAMES \<and> length batch < MAX_RESPONSE_WRITE_BATCH_BYTES then
       (case queue of
          [] \<Rightarrow> (batch, [])
        | response # queue1 \<Rightarrow>
            (let exceeds_batch_bytes =
                   usize_saturating_add (length batch) (length response) > MAX_RESPONSE_WRITE_BATCH_BYTES
             in if exceeds_batch_bytes then (batch @ response, queue1)
                else coalesce_loop (frames + 1) (batch @ response) queue1))
      else (batch, queue))"

declare coalesce_loop.simps [simp del]

definition coalesce_native_responses :: "bytes \<Rightarrow> bytes list \<Rightarrow> bytes \<times> bytes list" where
  "coalesce_native_responses first queue = coalesce_loop 1 first queue"

lemma coalesce_loop_spec:
  "coalesce_loop n batch queue = (out, queue1) \<Longrightarrow> n \<le> MAX_RESPONSE_WRITE_BATCH_FRAMES \<Longrightarrow>
   \<exists>taken. queue = taken @ queue1 \<and> out = batch @ concat taken \<and>
     n + length taken \<le> MAX_RESPONSE_WRITE_BATCH_FRAMES \<and>
     (taken = [] \<or> length (batch @ concat (butlast taken)) < MAX_RESPONSE_WRITE_BATCH_BYTES)"
proof (induction queue arbitrary: n batch)
  case Nil
  then show ?case
    by (subst (asm) coalesce_loop.simps) (auto split: if_splits)
next
  case (Cons r queue)
  let ?go = "n < MAX_RESPONSE_WRITE_BATCH_FRAMES \<and> length batch < MAX_RESPONSE_WRITE_BATCH_BYTES"
  let ?full = "usize_saturating_add (length batch) (length r) > MAX_RESPONSE_WRITE_BATCH_BYTES"
  show ?case
  proof (cases "?go \<and> \<not> ?full")
    case True
    then have "coalesce_loop (n + 1) (batch @ r) queue = (out, queue1)"
      using Cons.prems(1) by (simp add: coalesce_loop.simps [of n] Let_def)
    then obtain taken where taken: "queue = taken @ queue1" "out = (batch @ r) @ concat taken"
      "n + 1 + length taken \<le> MAX_RESPONSE_WRITE_BATCH_FRAMES"
      "taken = [] \<or> length ((batch @ r) @ concat (butlast taken)) < MAX_RESPONSE_WRITE_BATCH_BYTES"
      using Cons.IH [of "n + 1" "batch @ r"] True by auto
    then show ?thesis
      using True by (intro exI [of _ "r # taken"]) auto
  next
    case False
    then have "out = batch \<and> queue1 = r # queue \<or> ?go \<and> out = batch @ r \<and> queue1 = queue"
      using Cons.prems(1) by (auto simp: coalesce_loop.simps [of n] Let_def split: if_splits)
    then show ?thesis
      using Cons.prems(2) by (elim disjE) (auto intro: exI [of _ "[]"] exI [of _ "[r]"])
  qed
qed

section \<open>A connection\<close>

text \<open>A task runs the thread of its frame and then waits for room in the channel. In the serial mode the
  connection itself runs the thread of the first frame that is left to do.\<close>

datatype task = Running bytes "bytes option thread" | Sending bytes

record conn =
  cn_reading :: bool
  cn_buffer :: bytes
  cn_pipelined :: bool
  cn_todo :: "bytes list"
  cn_current :: "bytes option thread option"
  cn_tasks :: "task list"
  cn_channel :: "bytes list"

definition conn_new :: conn where
  "conn_new = \<lparr>cn_reading = True, cn_buffer = [], cn_pipelined = False, cn_todo = [], cn_current = None,
     cn_tasks = [], cn_channel = []\<rparr>"

text \<open>What a step shows: the frames taken from the buffer, the execution of a frame with its
  response, frames lost to a panic of the encoder, and a write to the socket.\<close>

datatype event = Take "bytes list" | Exec bytes bytes | Lost "bytes list" | Write bytes

text \<open>What the reader, the tasks and the writer of the connection do. Executing a frame takes as many steps as its
  thread has critical sections and counters, so that the sections of other threads come in between.\<close>

inductive conn_act ::
  "hasher \<Rightarrow> u64 \<Rightarrow> usize \<Rightarrow> conn \<times> app_state \<Rightarrow> event list \<Rightarrow> conn \<times> app_state \<Rightarrow> bool"
  for h :: hasher and cid :: u64 and m :: usize where
  conn_read:
    "cn_reading c \<Longrightarrow> cn_todo c = [] \<Longrightarrow> find_complete_native_frames (cn_buffer c) m = NeedMore \<Longrightarrow>
     chunk \<noteq> [] \<Longrightarrow> conn_act h cid m (c, st) [] (c\<lparr>cn_buffer := cn_buffer c @ chunk\<rparr>, st)"
| conn_eof:
    "cn_reading c \<Longrightarrow> cn_todo c = [] \<Longrightarrow> find_complete_native_frames (cn_buffer c) m = NeedMore \<Longrightarrow>
     conn_act h cid m (c, st) [] (c\<lparr>cn_reading := False\<rparr>, st)"
| conn_close:
    "cn_reading c \<Longrightarrow> cn_todo c = [] \<Longrightarrow> find_complete_native_frames (cn_buffer c) m = Close \<Longrightarrow>
     conn_act h cid m (c, st) [] (c\<lparr>cn_reading := False\<rparr>, st)"
| conn_take:
    "cn_reading c \<Longrightarrow> cn_todo c = [] \<Longrightarrow> find_complete_native_frames (cn_buffer c) m = Frames ranges \<Longrightarrow>
     fs = map (slice (cn_buffer c)) ranges \<Longrightarrow>
     conn_act h cid m (c, st) [Take fs]
       (c\<lparr>cn_pipelined := cn_pipelined c \<or> length ranges > 1, cn_todo := fs,
          cn_buffer := drain_frame_ranges (cn_buffer c) ranges\<rparr>, st)"
| conn_start:
    "\<not> cn_pipelined c \<Longrightarrow> cn_todo c = f # fs \<Longrightarrow> cn_current c = None \<Longrightarrow>
     conn_act h cid m (c, st) [] (c\<lparr>cn_current := Some (frame_thread h cid m f)\<rparr>, st)"
| conn_exec_section:
    "\<not> cn_pipelined c \<Longrightarrow> cn_current c = Some (Section sec) \<Longrightarrow> env_ok env \<Longrightarrow> sec env st = (t, st1) \<Longrightarrow>
     conn_act h cid m (c, st) [] (c\<lparr>cn_current := Some t\<rparr>, st1)"
| conn_exec:
    "\<not> cn_pipelined c \<Longrightarrow> cn_todo c = f # fs \<Longrightarrow> cn_current c = Some (Returned (Some out)) \<Longrightarrow>
     conn_act h cid m (c, st) [Exec f out, Write out] (c\<lparr>cn_todo := fs, cn_current := None\<rparr>, st)"
| conn_exec_panic:
    "\<not> cn_pipelined c \<Longrightarrow> cn_todo c = f # fs \<Longrightarrow> cn_current c = Some (Returned None) \<Longrightarrow>
     conn_act h cid m (c, st) [Lost (f # fs)] (c\<lparr>cn_todo := [], cn_current := None, cn_reading := False\<rparr>, st)"
| conn_spawn:
    "cn_pipelined c \<Longrightarrow> cn_todo c = f # fs \<Longrightarrow> length (cn_tasks c) < MAX_IN_FLIGHT_PER_CONNECTION \<Longrightarrow>
     conn_act h cid m (c, st) [] (c\<lparr>cn_todo := fs, cn_tasks := cn_tasks c @ [Running f (frame_thread h cid m f)]\<rparr>, st)"
| conn_run_section:
    "cn_tasks c = us @ Running f (Section sec) # vs \<Longrightarrow> env_ok env \<Longrightarrow> sec env st = (t, st1) \<Longrightarrow>
     conn_act h cid m (c, st) [] (c\<lparr>cn_tasks := us @ Running f t # vs\<rparr>, st1)"
| conn_run:
    "cn_tasks c = us @ Running f (Returned (Some out)) # vs \<Longrightarrow>
     conn_act h cid m (c, st) [Exec f out] (c\<lparr>cn_tasks := us @ Sending out # vs\<rparr>, st)"
| conn_run_panic:
    "cn_tasks c = us @ Running f (Returned None) # vs \<Longrightarrow>
     conn_act h cid m (c, st) [Lost [f]] (c\<lparr>cn_tasks := us @ vs\<rparr>, st)"
| conn_send:
    "cn_tasks c = us @ Sending out # vs \<Longrightarrow> length (cn_channel c) < MAX_IN_FLIGHT_PER_CONNECTION \<Longrightarrow>
     conn_act h cid m (c, st) [] (c\<lparr>cn_tasks := us @ vs, cn_channel := cn_channel c @ [out]\<rparr>, st)"
| conn_write:
    "cn_channel c = r # queue \<Longrightarrow> coalesce_native_responses r queue = (batch, queue1) \<Longrightarrow>
     conn_act h cid m (c, st) [Write batch] (c\<lparr>cn_channel := queue1\<rparr>, st)"

text \<open>Meanwhile other connections, the expiration worker and the admin routes change the state.\<close>

inductive conn_step ::
  "hasher \<Rightarrow> u64 \<Rightarrow> usize \<Rightarrow> conn \<times> app_state \<Rightarrow> event list \<Rightarrow> conn \<times> app_state \<Rightarrow> bool"
  for h :: hasher and cid :: u64 and m :: usize where
  conn_own: "conn_act h cid m s evs s1 \<Longrightarrow> conn_step h cid m s evs s1"
| conn_other: "conn_step h cid m (c, st) [] (c, st1)"

inductive_cases conn_stepE: "conn_step h cid m (c, st) evs (c1, st1)"

inductive conn_runs ::
  "hasher \<Rightarrow> u64 \<Rightarrow> usize \<Rightarrow> conn \<times> app_state \<Rightarrow> event list \<Rightarrow> conn \<times> app_state \<Rightarrow> bool"
  for h :: hasher and cid :: u64 and m :: usize where
  conn_refl: "conn_runs h cid m s [] s"
| conn_then: "conn_runs h cid m s evs s1 \<Longrightarrow> conn_step h cid m s1 evs1 s2 \<Longrightarrow> conn_runs h cid m s (evs @ evs1) s2"

end
