(* ===== verification/Connection_Props.thy ===== *)
theory Connection_Props
  imports Connection
begin

text \<open>
  The properties of a native connection: its frames are those that the client sent, however the
  bytes arrive; batching respects its bounds; in every interleaving of reading, executing,
  sending and writing each frame is executed once and each response is written once and whole;
  and the connection always makes progress on the frames it has taken.
\<close>

section \<open>Frames on the stream\<close>

lemma encoded_framed:
  assumes "encode_frame_into kind cmd rid p enc = Some bs" "length (enc p) \<le> m"
  shows "framed m bs"
proof -
  have len: "length (enc p) < 2 ^ 32" and bs: "bs = MAGIC @ [VERSION, kind, command_id cmd, 0] @ write_u64 rid @
      write_u32 (word_of_nat (length (enc p))) @ write_u32 0 @ enc p"
    using assms(1) by (auto simp: encode_frame_into_eq split: if_splits)
  have "from_be (take 4 (drop 16 bs)) = length (enc p)"
    using len by (simp add: bs MAGIC_def from_be_write unat_of_nat)
  moreover have "length bs = HEADER_LEN + length (enc p)"
    by (simp add: bs MAGIC_def HEADER_LEN_def)
  ultimately show ?thesis
    using assms(2) by (simp only: framed_def)
qed

lemma requests_framed:
  "map encode_request_frame rs = map Some fs \<Longrightarrow>
   list_all (\<lambda>r. length (encode_request_payload (rq_payload r)) \<le> m) rs \<Longrightarrow> list_all (framed m) fs"
proof (induction rs arbitrary: fs)
  case (Cons r rs)
  then show ?case
    by (auto simp: encode_request_frame_def map_eq_Cons_conv intro: encoded_framed)
qed simp

text \<open>C23. The server cuts the stream of a client into exactly the frames that the client encoded:
  whatever chunks the bytes arrive in, the frames handed to execution, in order, are the encoded
  requests.\<close>

theorem frames_independent_of_chunks:
  assumes "map encode_request_frame rs = map Some fs"
    and "list_all (\<lambda>r. length (encode_request_payload (rq_payload r)) \<le> m) rs"
    and "concat chunks = concat fs" "[] \<notin> set chunks"
  shows "concat (map snd (connection_batches m False [] chunks)) = fs"
  using assms(3,4) by (intro batches_framed requests_framed [OF assms(1,2)]) simp_all

theorem frames_independent_of_chunks_witness:
  "\<exists>bs. encode_request_frame sample_request = Some bs \<and>
     concat (map snd (connection_batches 1024 False [] [take 5 bs, drop 5 bs @ bs])) = [bs, bs]"
proof -
  obtain bs where bs: "encode_request_frame sample_request = Some bs"
    "length (encode_request_payload (rq_payload sample_request)) \<le> 1024"
    using sample_request_encodes by blast
  then have "24 \<le> length bs"
    by (auto simp: encode_request_frame_def encode_frame_into_eq MAGIC_def split: if_splits)
  then have "[] \<notin> set [take 5 bs, drop 5 bs @ bs]"
    by auto
  then show ?thesis
    using frames_independent_of_chunks [of "[sample_request, sample_request]" "[bs, bs]" 1024
        "[take 5 bs, drop 5 bs @ bs]"] bs
    by simp
qed

text \<open>A header that announces more than the maximal payload closes the connection, and the complete
  frames in front of it that arrived in the same buffer are neither executed nor answered; no
  error frame is sent.\<close>

lemma oversized_header_drops_buffered_frames:
  assumes "map encode_request_frame rs = map Some fs"
    and "list_all (\<lambda>r. length (encode_request_payload (rq_payload r)) \<le> m) rs"
    and "HEADER_LEN \<le> length oversized" "m < from_be (take 4 (drop 16 oversized))"
  shows "connection_batches m False [] ((concat fs @ oversized) # chunks) = []"
proof -
  have ne: "concat fs @ oversized \<noteq> []"
    using assms(3) by (auto simp: HEADER_LEN_def)
  have "find_complete_native_frames (concat fs @ oversized) m = Close"
    by (rule find_frames_oversized [OF requests_framed [OF assms(1,2)] assms(3,4)])
  moreover have "find_complete_native_frames [] m = NeedMore"
    using find_frames_framed [of m "[]" "[]" "[]" 0 "[]"]
    by (simp add: find_complete_native_frames_def incomplete_def HEADER_LEN_def)
  ultimately show ?thesis
    using ne by (simp add: connection_batches.simps [of m False] read_native_frame_ranges.simps)
qed

definition oversized_header :: bytes where
  "oversized_header = [67, 66, 88, 49, 1, 0, 1, 0, 0, 0, 0, 0, 0, 0, 0, 9, 0, 1, 0, 0, 0, 0, 0, 0]"

section \<open>Batches\<close>

text \<open>A write batch is the first response followed by the next responses of the channel in their
  order, none of them cut or skipped; it has at most 32 responses, and a response is added only
  while the batch is below 64 KiB, so that at most the last one reaches beyond it.\<close>

lemma write_batches_are_bounded:
  "\<exists>taken. queue = taken @ snd (coalesce_native_responses first queue) \<and>
     fst (coalesce_native_responses first queue) = first @ concat taken \<and> length taken < 32 \<and>
     (taken = [] \<or> length (first @ concat (butlast taken)) < 65536)"
  using coalesce_loop_spec [of 1 first queue]
  by (cases "coalesce_loop 1 first queue")
    (simp add: coalesce_native_responses_def MAX_RESPONSE_WRITE_BATCH_FRAMES_def
      MAX_RESPONSE_WRITE_BATCH_BYTES_def Suc_le_eq)

section \<open>Every response once\<close>

fun taken_of :: "event \<Rightarrow> bytes list" where
  "taken_of (Take fs) = fs" | "taken_of e = []"

fun executed_of :: "event \<Rightarrow> (bytes \<times> bytes) list" where
  "executed_of (Exec f out) = [(f, out)]" | "executed_of e = []"

fun lost_of :: "event \<Rightarrow> bytes list" where
  "lost_of (Lost fs) = fs" | "lost_of e = []"

fun written_of :: "event \<Rightarrow> bytes" where
  "written_of (Write bs) = bs" | "written_of e = []"

definition taken :: "event list \<Rightarrow> bytes list" where "taken evs = concat (map taken_of evs)"
definition executed :: "event list \<Rightarrow> (bytes \<times> bytes) list" where "executed evs = concat (map executed_of evs)"
definition lost :: "event list \<Rightarrow> bytes list" where "lost evs = concat (map lost_of evs)"
definition written :: "event list \<Rightarrow> bytes" where "written evs = concat (map written_of evs)"

lemmas histories = taken_def executed_def lost_def written_def

fun running_of :: "task \<Rightarrow> bytes list" where
  "running_of (Running f t) = [f]" | "running_of t = []"

fun sending_of :: "task \<Rightarrow> bytes list" where
  "sending_of (Sending out) = [out]" | "sending_of t = []"

text \<open>Every taken frame is executed, lost or still waiting, and every response of an executed frame
  is written, in the channel or waiting for it.\<close>

definition frames_accounted :: "event list \<Rightarrow> conn \<Rightarrow> bool" where
  "frames_accounted evs c \<longleftrightarrow>
     mset (taken evs) =
       mset (map fst (executed evs)) + mset (lost evs) + mset (cn_todo c) +
       mset (concat (map running_of (cn_tasks c)))"

definition responses_accounted :: "event list \<Rightarrow> conn \<Rightarrow> bool" where
  "responses_accounted evs c \<longleftrightarrow>
     (\<exists>ws. written evs = concat ws \<and>
        mset ws + mset (cn_channel c) + mset (concat (map sending_of (cn_tasks c))) =
          mset (map snd (executed evs)))"

definition within_limits :: "conn \<Rightarrow> bool" where
  "within_limits c \<longleftrightarrow>
     length (cn_tasks c) \<le> MAX_IN_FLIGHT_PER_CONNECTION \<and>
     length (cn_channel c) \<le> MAX_IN_FLIGHT_PER_CONNECTION"

lemma coalesce_shorter:
  "coalesce_native_responses r queue = (batch, queue1) \<Longrightarrow>
   \<exists>taken. queue = taken @ queue1 \<and> batch = r @ concat taken"
  using coalesce_loop_spec [of 1 r queue batch queue1]
  by (auto simp: coalesce_native_responses_def MAX_RESPONSE_WRITE_BATCH_FRAMES_def)

lemma frames_accounted_step:
  "conn_step h cid m (c, st) evs1 (c1, st1) \<Longrightarrow> frames_accounted evs c \<Longrightarrow> frames_accounted (evs @ evs1) c1"
  by (erule conn_stepE, erule conn_act.cases) (auto simp: frames_accounted_def histories ac_simps)

lemma within_limits_step:
  "conn_step h cid m (c, st) evs1 (c1, st1) \<Longrightarrow> within_limits c \<Longrightarrow> within_limits c1"
  by (erule conn_stepE, erule conn_act.cases)
    (auto simp: within_limits_def MAX_IN_FLIGHT_PER_CONNECTION_def dest!: coalesce_shorter)

lemma responses_act:
  assumes "conn_act h cid m (c, st) evs1 (c1, st1)"
  shows "\<exists>new. written evs1 = concat new \<and>
      mset new + mset (cn_channel c1) + mset (concat (map sending_of (cn_tasks c1))) =
      mset (map snd (executed evs1)) + mset (cn_channel c) + mset (concat (map sending_of (cn_tasks c)))"
  using assms
proof cases
  case (conn_write r queue batch)
  then obtain taken where "queue = taken @ cn_channel c1" "batch = r @ concat taken"
    using coalesce_shorter by force
  then show ?thesis
    using conn_write by (intro exI [of _ "r # taken"]) (simp add: histories)
next
  case (conn_exec f fs out)
  then show ?thesis
    by (intro exI [of _ "[out]"]) (simp add: histories)
qed (auto simp: histories ac_simps)

lemma responses_accounted_step:
  assumes "conn_step h cid m (c, st) evs1 (c1, st1)" "responses_accounted evs c"
  shows "responses_accounted (evs @ evs1) c1"
proof -
  obtain ws where ws: "written evs = concat ws" "mset ws + mset (cn_channel c) +
      mset (concat (map sending_of (cn_tasks c))) = mset (map snd (executed evs))"
    using assms(2) by (auto simp: responses_accounted_def)
  have "\<exists>new. written evs1 = concat new \<and>
      mset new + mset (cn_channel c1) + mset (concat (map sending_of (cn_tasks c1))) =
      mset (map snd (executed evs1)) + mset (cn_channel c) + mset (concat (map sending_of (cn_tasks c)))"
    using assms(1) responses_act by (elim conn_stepE) (blast, auto simp: histories intro: exI [of _ "[]"])
  then obtain new where new: "written evs1 = concat new"
    "mset new + mset (cn_channel c1) + mset (concat (map sending_of (cn_tasks c1))) =
     mset (map snd (executed evs1)) + mset (cn_channel c) + mset (concat (map sending_of (cn_tasks c)))"
    by blast
  have "mset (ws @ new) + mset (cn_channel c1) + mset (concat (map sending_of (cn_tasks c1))) =
      mset ws + (mset new + mset (cn_channel c1) + mset (concat (map sending_of (cn_tasks c1))))"
    by (simp add: ac_simps)
  also have "\<dots> = (mset ws + mset (cn_channel c) + mset (concat (map sending_of (cn_tasks c)))) +
      mset (map snd (executed evs1))"
    unfolding new(2) by (simp add: ac_simps)
  also have "\<dots> = mset (map snd (executed (evs @ evs1)))"
    unfolding ws(2) by (simp add: executed_def)
  finally show ?thesis
    using ws(1) new(1) unfolding responses_accounted_def
    by (intro exI [of _ "ws @ new"]) (simp add: written_def)
qed

lemma accounted_runs:
  "conn_runs h cid m s evs s1 \<Longrightarrow> s = (conn_new, st) \<Longrightarrow>
   frames_accounted evs (fst s1) \<and> responses_accounted evs (fst s1) \<and> within_limits (fst s1)"
proof (induction rule: conn_runs.induct)
  case (conn_refl s)
  then show ?case
    by (auto simp: frames_accounted_def responses_accounted_def within_limits_def histories conn_new_def
        intro: exI [of _ "[]"])
next
  case (conn_then s evs s1 evs1 s2)
  then show ?case
    using frames_accounted_step responses_accounted_step within_limits_step
    by (cases s1; cases s2) fastforce
qed

definition silent_frame :: bytes where
  "silent_frame = [0, 0, 0, 0, 0, 0, 0, 0, 0, 0, 0, 0, 0, 0, 0, 0, 0, 0, 0, 0, 0, 0, 0, 0]"

text \<open>C22. In every interleaving of reading, concurrent execution, sending and batched writing, with
  other connections changing the cache at any time, every frame taken from the stream is executed
  once or still waiting, apart from frames lost when a response cannot be encoded; the bytes
  written are whole responses, one for each executed frame that is no longer in a task or in the
  channel; and at most 128 tasks run and at most 128 responses wait in the channel.\<close>

theorem every_frame_answered_once:
  assumes "conn_runs h cid m (conn_new, st) evs (c, st1)"
  shows "mset (taken evs) =
      mset (map fst (executed evs)) + mset (lost evs) + mset (cn_todo c) +
      mset (concat (map running_of (cn_tasks c))) \<and>
    (\<exists>ws. written evs = concat ws \<and>
       mset ws + mset (cn_channel c) + mset (concat (map sending_of (cn_tasks c))) =
         mset (map snd (executed evs))) \<and>
    length (cn_tasks c) \<le> 128 \<and> length (cn_channel c) \<le> 128"
  using accounted_runs [OF assms refl]
  by (simp add: frames_accounted_def responses_accounted_def within_limits_def MAX_IN_FLIGHT_PER_CONNECTION_def)

lemma silent_frame_found: "find_complete_native_frames silent_frame 1024 = Frames [(0, 24)]"
  using find_frames_framed [of 1024 "[silent_frame]" "[]" "[]" 0 "[]"]
  by (simp add: find_complete_native_frames_def framed_def incomplete_def silent_frame_def HEADER_LEN_def
      from_be_def)

lemma silent_frame_thread: "frame_thread h cid m silent_frame = Returned (Some [])"
proof -
  have magic: "take 4 silent_frame \<noteq> MAGIC" and len: "length silent_frame = 24"
    by (simp_all add: silent_frame_def MAGIC_def)
  then have "decode_request_frame silent_frame m = Inl BadMagic"
    by (simp add: decode_request_frame_def decode_frame_start_def decode_header_def HEADER_LEN_def rbind_def)
  then show ?thesis
    using magic borrowed_view [of silent_frame m]
    by (cases "decode_borrowed_request_frame silent_frame m")
      (auto simp: frame_thread_def encode_decode_error_def native_decode_error_response_def split: option.split)
qed

lemma silent_acts:
  "conn_act h cid 1024 (conn_new, st) [] (conn_new\<lparr>cn_buffer := silent_frame\<rparr>, st)"
  "conn_act h cid 1024 (conn_new\<lparr>cn_buffer := silent_frame\<rparr>, st) [Take [silent_frame]]
     (conn_new\<lparr>cn_todo := [silent_frame]\<rparr>, st)"
  "conn_act h cid 1024 (conn_new\<lparr>cn_todo := [silent_frame]\<rparr>, st) []
     (conn_new\<lparr>cn_todo := [silent_frame], cn_current := Some (Returned (Some []))\<rparr>, st)"
  "conn_act h cid 1024 (conn_new\<lparr>cn_todo := [silent_frame], cn_current := Some (Returned (Some []))\<rparr>, st)
     [Exec silent_frame [], Write []] (conn_new, st)"
proof -
  let ?c1 = "conn_new\<lparr>cn_buffer := silent_frame\<rparr>" and ?c2 = "conn_new\<lparr>cn_todo := [silent_frame]\<rparr>"
  let ?c3 = "conn_new\<lparr>cn_todo := [silent_frame], cn_current := Some (Returned (Some []))\<rparr>"
  have "find_complete_native_frames [] 1024 = NeedMore"
    using find_frames_framed [of 1024 "[]" "[]" "[]" 0 "[]"]
    by (simp add: find_complete_native_frames_def incomplete_def HEADER_LEN_def)
  then show "conn_act h cid 1024 (conn_new, st) [] (?c1, st)"
    using conn_read [of conn_new 1024 silent_frame] by (simp add: conn_new_def silent_frame_def)
  show "conn_act h cid 1024 (?c1, st) [Take [silent_frame]] (?c2, st)"
    using conn_take [of ?c1 1024 "[(0, 24)]" "[silent_frame]"] silent_frame_found
    by (simp add: conn_new_def slice_def drain_frame_ranges_def silent_frame_def)
  show "conn_act h cid 1024 (?c2, st) [] (?c3, st)"
    using conn_start [of ?c2 silent_frame "[]" h cid 1024 st] by (simp add: conn_new_def silent_frame_thread)
  show "conn_act h cid 1024 (?c3, st) [Exec silent_frame [], Write []] (conn_new, st)"
    using conn_exec [of ?c3 silent_frame "[]" "[]" h cid 1024 st] by (simp add: conn_new_def)
qed

lemma silent_run:
  "conn_runs h cid 1024 (conn_new, st) [Take [silent_frame], Exec silent_frame [], Write []] (conn_new, st)"
  using conn_then [OF conn_then [OF conn_then [OF conn_then [OF conn_refl conn_own] conn_own] conn_own] conn_own,
      OF silent_acts(1) silent_acts(2) silent_acts(3) silent_acts(4)] by simp

theorem every_frame_answered_once_witness:
  "\<exists>evs. conn_runs sample_hasher 1 1024 (conn_new, sample_app) evs (conn_new, sample_app) \<and>
     mset (taken evs) = {#silent_frame#} \<and>
     mset (taken evs) = mset (map fst (executed evs)) + mset (lost evs)"
proof -
  let ?evs = "[Take [silent_frame], Exec silent_frame [], Write []]"
  have "mset (taken ?evs) = mset (map fst (executed ?evs)) + mset (lost ?evs)"
    using every_frame_answered_once [OF silent_run] by (simp add: conn_new_def)
  then show ?thesis
    using silent_run by (intro exI [of _ ?evs]) (simp add: histories)
qed

section \<open>Progress\<close>

definition work :: "conn \<Rightarrow> nat" where
  "work c = 4 * length (cn_todo c) +
     sum_list (map (\<lambda>t. case t of Running f t \<Rightarrow> 3 | Sending out \<Rightarrow> 2) (cn_tasks c)) + length (cn_channel c)"

lemma work_step: "conn_step h cid m (c, st) evs (c1, st1) \<Longrightarrow> taken evs = [] \<Longrightarrow> work c1 \<le> work c"
  by (erule conn_stepE, erule conn_act.cases) (auto simp: work_def histories dest!: coalesce_shorter)

lemma conn_runs_trans:
  "conn_runs h cid m s1 evs1 s2 \<Longrightarrow> conn_runs h cid m s evs s1 \<Longrightarrow> conn_runs h cid m s (evs @ evs1) s2"
proof (induction rule: conn_runs.induct)
  case (conn_then s1 evs1 s2 evs2 s3)
  then show ?case
    using conn_runs.conn_then [of h cid m s "evs @ evs1" s2 evs2 s3] by simp
qed simp

lemma conn_runs_first:
  "conn_act h cid m s evs s1 \<Longrightarrow> conn_runs h cid m s1 evs1 s2 \<Longrightarrow> conn_runs h cid m s (evs @ evs1) s2"
  using conn_runs_trans [OF _ conn_then [OF conn_refl conn_own]] by fastforce

text \<open>What a connection reaches on its own without taking frames, with less work left.\<close>

definition progresses :: "hasher \<Rightarrow> u64 \<Rightarrow> usize \<Rightarrow> nat \<Rightarrow> conn \<times> app_state \<Rightarrow> bool" where
  "progresses h cid m n s \<longleftrightarrow> (\<exists>evs s1. conn_runs h cid m s evs s1 \<and> taken evs = [] \<and> work (fst s1) < n)"

lemma progresses_now:
  "conn_act h cid m s evs s1 \<Longrightarrow> taken evs = [] \<Longrightarrow> work (fst s1) < n \<Longrightarrow> progresses h cid m n s"
  unfolding progresses_def using conn_runs_first [OF _ conn_refl] by fastforce

lemma progresses_after:
  "conn_act h cid m s evs s1 \<Longrightarrow> taken evs = [] \<Longrightarrow> progresses h cid m n s1 \<Longrightarrow> progresses h cid m n s"
  unfolding progresses_def using conn_runs_first [of h cid m s evs s1] by (fastforce simp: taken_def)

lemma current_progresses:
  "\<not> cn_pipelined c \<Longrightarrow> cn_todo c = f # fs \<Longrightarrow> cn_current c = Some t \<Longrightarrow> work c \<le> n \<Longrightarrow> progresses h cid m n (c, st)"
proof (induction t arbitrary: c st rule: thread_induct)
  case (Returned r)
  then show ?case
    using progresses_now [OF conn_exec_panic [OF Returned(1,2)]]
      progresses_now [OF conn_exec [OF Returned(1,2)]]
    by (cases r) (auto simp: work_def histories)
next
  case (Section sec)
  obtain t st1 where sec: "sec (sample_env 0) st = (t, st1)"
    by fastforce
  then have "progresses h cid m n (c\<lparr>cn_current := Some t\<rparr>, st1)"
    using Section.IH [of "c\<lparr>cn_current := Some t\<rparr>" "sample_env 0" st] Section.prems by (simp add: work_def)
  then show ?case
    by (intro progresses_after [OF conn_exec_section [OF Section.prems(1,3) sample_env_ok sec]]) (simp_all add: histories)
qed

lemma task_progresses:
  "cn_tasks c = us @ Running f t # vs \<Longrightarrow> work c \<le> n \<Longrightarrow> progresses h cid m n (c, st)"
proof (induction t arbitrary: c st rule: thread_induct)
  case (Returned r)
  then show ?case
    using progresses_now [OF conn_run_panic, of c us f vs]
      progresses_now [OF conn_run, of c us f _ vs]
    by (cases r) (auto simp: work_def histories)
next
  case (Section sec)
  obtain t st1 where sec: "sec (sample_env 0) st = (t, st1)"
    by fastforce
  then have "progresses h cid m n (c\<lparr>cn_tasks := us @ Running f t # vs\<rparr>, st1)"
    using Section.IH [of "c\<lparr>cn_tasks := us @ Running f t # vs\<rparr>" "sample_env 0" st] Section.prems by (simp add: work_def)
  then show ?case
    by (intro progresses_after [OF conn_run_section [OF Section.prems(1) sample_env_ok sec]]) (simp_all add: histories)
qed

lemma act_progress:
  assumes "work c \<noteq> 0"
  shows "progresses h cid m (work c) (c, st)"
proof -
  consider (channel) r queue where "cn_channel c = r # queue"
    | (running) us f t vs where "cn_tasks c = us @ Running f t # vs"
    | (sending) us out vs where "cn_tasks c = us @ Sending out # vs" "cn_channel c = []"
    | (todo) f fs where "cn_todo c = f # fs" "cn_tasks c = []"
  proof (cases "cn_channel c")
    case Nil
    show ?thesis
    proof (cases "cn_tasks c")
      case tasks: Nil
      then show ?thesis
        using Nil assms that(4) by (cases "cn_todo c") (auto simp: work_def)
    next
      case (Cons t ts)
      then show ?thesis
        using Nil that(2,3) [of "[]"] by (cases t) auto
    qed
  qed (use that(1) in blast)
  then show ?thesis
  proof cases
    case channel
    then show ?thesis
      using progresses_now [OF conn_write [OF channel, of _ _ h cid m st]] coalesce_shorter [of r queue]
      by (cases "coalesce_native_responses r queue") (fastforce simp: work_def histories)
  next
    case running
    then show ?thesis
      by (rule task_progresses) simp
  next
    case sending
    then show ?thesis
      using progresses_now [OF conn_send [OF sending(1), of h cid m st]]
      by (fastforce simp: work_def histories MAX_IN_FLIGHT_PER_CONNECTION_def)
  next
    case todo
    show ?thesis
    proof (cases "cn_pipelined c")
      case True
      then show ?thesis
        using progresses_now [OF conn_spawn [OF True todo(1), of h cid m st]] todo
        by (fastforce simp: work_def histories MAX_IN_FLIGHT_PER_CONNECTION_def)
    next
      case False
      note current = current_progresses [OF _ _ _ order_refl]
      show ?thesis
      proof (cases "cn_current c")
        case None
        let ?c = "c\<lparr>cn_current := Some (frame_thread h cid m f)\<rparr>"
        have "progresses h cid m (work c) (?c, st)"
          using current [of ?c f fs] False todo(1) by (simp add: work_def)
        then show ?thesis
          by (intro progresses_after [OF conn_start [OF False todo(1) None]]) (simp_all add: histories)
      qed (use current False todo(1) in blast)
    qed
  qed
qed

lemma runs_finish:
  "conn_runs h cid m s0 evs (c, st) \<Longrightarrow>
   \<exists>evs1 c1 st1. conn_runs h cid m s0 (evs @ evs1) (c1, st1) \<and> taken evs1 = [] \<and> work c1 = 0"
proof (induction "work c" arbitrary: evs c st rule: less_induct)
  case less
  show ?case
  proof (cases "work c = 0")
    case True
    then show ?thesis
      using less.prems by (intro exI [of _ "[]"]) (auto simp: taken_def)
  next
    case False
    then obtain evs1 c1 st1 where step: "conn_runs h cid m (c, st) evs1 (c1, st1)" "taken evs1 = []"
      "work c1 < work c"
      using act_progress [OF False, of h cid m st] unfolding progresses_def by fastforce
    obtain evs2 c2 st2 where "conn_runs h cid m s0 ((evs @ evs1) @ evs2) (c2, st2)" "taken evs2 = []" "work c2 = 0"
      using less.hyps [OF step(3) conn_runs_trans [OF step(1) less.prems]] by blast
    then show ?thesis
      using step(2) by (intro exI [of _ "evs1 @ evs2"]) (auto simp: taken_def)
  qed
qed

lemma work_0: "work c = 0 \<Longrightarrow> cn_todo c = [] \<and> cn_tasks c = [] \<and> cn_channel c = []"
  by (cases "cn_tasks c") (auto simp: work_def split: task.splits)

text \<open>C26. A connection can always finish what it has taken: from every state that it reaches, without
  reading anything more, it reaches one in which nothing is pending, every frame taken so far is
  executed or was lost to a panic, and the bytes written are the responses of all executed
  frames, each once. On the way no step other than taking new frames adds work.\<close>

theorem connection_can_finish:
  assumes "conn_runs h cid m (conn_new, st) evs (c, st1)"
  shows "\<exists>evs1 c1 st2. conn_runs h cid m (conn_new, st) (evs @ evs1) (c1, st2) \<and>
    cn_todo c1 = [] \<and> cn_tasks c1 = [] \<and> cn_channel c1 = [] \<and>
    mset (taken evs) = mset (map fst (executed (evs @ evs1))) + mset (lost (evs @ evs1)) \<and>
    (\<exists>ws. written (evs @ evs1) = concat ws \<and> mset ws = mset (map snd (executed (evs @ evs1)))) \<and>
    (\<forall>s evs2 s1. conn_step h cid m s evs2 s1 \<longrightarrow> taken evs2 = [] \<longrightarrow> work (fst s1) \<le> work (fst s))"
proof -
  obtain evs1 c1 st2 where run: "conn_runs h cid m (conn_new, st) (evs @ evs1) (c1, st2)"
    "taken evs1 = []" "work c1 = 0"
    using runs_finish [OF assms] by blast
  have idle: "cn_todo c1 = [] \<and> cn_tasks c1 = [] \<and> cn_channel c1 = []"
    by (rule work_0 [OF run(3)])
  have taken: "taken (evs @ evs1) = taken evs"
    using run(2) by (simp add: taken_def)
  have "frames_accounted (evs @ evs1) c1" "responses_accounted (evs @ evs1) c1"
    using accounted_runs [OF run(1) refl] by simp_all
  then have "mset (taken evs) = mset (map fst (executed (evs @ evs1))) + mset (lost (evs @ evs1))"
    "\<exists>ws. written (evs @ evs1) = concat ws \<and> mset ws = mset (map snd (executed (evs @ evs1)))"
    using idle by (simp_all add: frames_accounted_def responses_accounted_def taken)
  moreover have "\<forall>s evs2 s1. conn_step h cid m s evs2 s1 \<longrightarrow> taken evs2 = [] \<longrightarrow> work (fst s1) \<le> work (fst s)"
    using work_step by (metis prod.collapse)
  ultimately show ?thesis
    using run(1) idle by blast
qed

theorem connection_can_finish_witness:
  "\<exists>evs c1 st2. conn_runs sample_hasher 1 1024 (conn_new, sample_app) evs (c1, st2) \<and> cn_tasks c1 = [] \<and>
     {#silent_frame#} = mset (map fst (executed evs)) + mset (lost evs)"
proof -
  let ?evs = "[Take [silent_frame], Exec silent_frame [], Write []]"
  have "mset (taken ?evs) = {#silent_frame#}"
    by (simp add: taken_def)
  then show ?thesis
    using connection_can_finish [OF silent_run, of sample_hasher 1 sample_app] by fastforce
qed

end
