(* ===== verification/System.thy ===== *)
theory System
  imports Connection_Props
begin

text \<open>
  The whole server: listeners that accept connections at any time, every connection with its reader,
  tasks and writer, the expiration worker and the admin routes, all on one shared state and in
  any interleaving. A request is executed section by section, and between two sections of one request any
  other connection, the worker or an admin request may go on. The invariant of such runs is the one of the theory
  of races: it does not say that every tag is routed, because a put that overlaps a delete can lose a route.
\<close>

section \<open>The system\<close>

record system =
  sy_next_id :: u64
  sy_conns :: "(u64 \<times> conn) list"
  sy_worker :: "unit thread"
  sy_admin :: "unit thread list"
  sy_app :: app_state

definition system_new :: "app_state \<Rightarrow> system" where
  "system_new st = \<lparr>sy_next_id = 1, sy_conns = [], sy_worker = Returned (), sy_admin = [], sy_app = st\<rparr>"

text \<open>An event with the position of its connection.\<close>

type_synonym sys_event = "nat \<times> event"

inductive sys_step ::
  "hasher \<Rightarrow> usize \<Rightarrow> u64 \<Rightarrow> usize \<Rightarrow> system \<Rightarrow> sys_event list \<Rightarrow> system \<Rightarrow> bool"
  for h :: hasher and m :: usize and interval :: u64 and budget :: usize where
  sys_accept:
    "sys_step h m interval budget s []
       (s\<lparr>sy_conns := sy_conns s @ [(sy_next_id s, conn_new)], sy_next_id := sy_next_id s + 1\<rparr>)"
| sys_conn:
    "i < length (sy_conns s) \<Longrightarrow> sy_conns s ! i = (cid, c) \<Longrightarrow>
     conn_act h cid m (c, sy_app s) evs (c1, st1) \<Longrightarrow>
     sys_step h m interval budget s (map (Pair i) evs)
       (s\<lparr>sy_conns := (sy_conns s)[i := (cid, c1)], sy_app := st1\<rparr>)"
| sys_tick:
    "sy_worker s = Returned () \<Longrightarrow>
     sys_step h m interval budget s [] (s\<lparr>sy_worker := worker_thread interval budget\<rparr>)"
| sys_worker_section:
    "sy_worker s = Section sec \<Longrightarrow> env_ok env \<Longrightarrow> sec env (sy_app s) = (t, st1) \<Longrightarrow>
     sys_step h m interval budget s [] (s\<lparr>sy_worker := t, sy_app := st1\<rparr>)"
| sys_admin_request:
    "sys_step h m interval budget s [] (s\<lparr>sy_admin := sy_admin s @ [admin_thread meth path]\<rparr>)"
| sys_admin_section:
    "sy_admin s = us @ Section sec # vs \<Longrightarrow> env_ok env \<Longrightarrow> sec env (sy_app s) = (t, st1) \<Longrightarrow>
     sys_step h m interval budget s [] (s\<lparr>sy_admin := us @ t # vs, sy_app := st1\<rparr>)"

inductive sys_runs ::
  "hasher \<Rightarrow> usize \<Rightarrow> u64 \<Rightarrow> usize \<Rightarrow> system \<Rightarrow> sys_event list \<Rightarrow> system \<Rightarrow> bool"
  for h :: hasher and m :: usize and interval :: u64 and budget :: usize where
  sys_refl: "sys_runs h m interval budget s [] s"
| sys_then:
    "sys_runs h m interval budget s evs s1 \<Longrightarrow> sys_step h m interval budget s1 evs1 s2 \<Longrightarrow>
     sys_runs h m interval budget s (evs @ evs1) s2"

text \<open>The events of one connection.\<close>

definition events_of :: "nat \<Rightarrow> sys_event list \<Rightarrow> event list" where
  "events_of i evs = map snd (filter (\<lambda>e. fst e = i) evs)"

lemma events_of_simps [simp]:
  "events_of i [] = []" "events_of i (evs @ evs1) = events_of i evs @ events_of i evs1"
  "events_of i (map (Pair j) es) = (if i = j then es else [])"
  by (auto simp: events_of_def filter_map o_def)

section \<open>The shared state\<close>

text \<open>Every thread that is under way keeps the invariant in all its steps.\<close>

abbreviation safe_thread :: "hasher \<Rightarrow> engine_limits list \<Rightarrow> 'a thread \<Rightarrow> bool" where
  "safe_thread h L \<equiv> keeps (node_inv h L) (\<lambda>_. True)"

definition conn_safe :: "hasher \<Rightarrow> engine_limits list \<Rightarrow> conn \<Rightarrow> bool" where
  "conn_safe h L c \<longleftrightarrow>
     (\<forall>t. cn_current c = Some t \<longrightarrow> safe_thread h L t) \<and>
     (\<forall>f t. Running f t \<in> set (cn_tasks c) \<longrightarrow> safe_thread h L t)"

lemma conn_act_safe:
  "conn_act h cid m (c, st) evs (c1, st1) \<Longrightarrow> conn_safe h L c \<Longrightarrow> node_inv h L st \<Longrightarrow>
   conn_safe h L c1 \<and> node_inv h L st1"
proof (erule conn_act.cases, goal_cases)
  case (6 c sec env st t st1)
  then show ?case
    by (fastforce simp: conn_safe_def elim!: keeps_sectionE)
next
  case (10 c us f sec vs env st t st1)
  then have "safe_thread h L (Section sec)"
    by (auto simp: conn_safe_def)
  then show ?case
    using 10 by (fastforce simp: conn_safe_def elim!: keeps_sectionE)
qed (auto simp: conn_safe_def keeps_frame)

definition sys_safe :: "hasher \<Rightarrow> engine_limits list \<Rightarrow> system \<Rightarrow> bool" where
  "sys_safe h L s \<longleftrightarrow>
     node_inv h L (sy_app s) \<and> safe_thread h L (sy_worker s) \<and> list_all (safe_thread h L) (sy_admin s) \<and>
     list_all (\<lambda>(cid, c). conn_safe h L c) (sy_conns s)"

lemma sys_step_safe:
  assumes "sys_step h m interval budget s evs s1" "sys_safe h L s"
  shows "sys_safe h L s1"
  using assms(1)
proof cases
  case sys_accept
  then show ?thesis
    using assms(2) by (simp add: sys_safe_def conn_safe_def conn_new_def)
next
  case (sys_conn i cid c es c1 st1)
  then have "conn_safe h L c1 \<and> node_inv h L st1"
    using assms(2) by (intro conn_act_safe) (auto simp: sys_safe_def list_all_length)
  then show ?thesis
    using assms(2) sys_conn by (auto simp: sys_safe_def list_all_length nth_list_update)
next
  case (sys_worker_section sec env t st1)
  then show ?thesis
    using assms(2) by (fastforce simp: sys_safe_def elim!: keeps_sectionE)
next
  case (sys_admin_section us sec vs env t st1)
  then have "safe_thread h L (Section sec)"
    using assms(2) by (simp add: sys_safe_def)
  then show ?thesis
    using assms(2) sys_admin_section by (fastforce simp: sys_safe_def elim!: keeps_sectionE)
qed (use assms(2) in \<open>auto simp: sys_safe_def keeps_worker keeps_admin\<close>)

lemma sys_runs_safe: "sys_runs h m interval budget s evs s1 \<Longrightarrow> sys_safe h L s \<Longrightarrow> sys_safe h L s1"
  by (induction rule: sys_runs.induct) (auto intro: sys_step_safe)

text \<open>The state of a fresh server.\<close>

lemma fresh_node_inv: "app_inv h V st \<Longrightarrow> node_inv h (map limits (shards (ap_engine st))) st"
  by (auto simp: node_inv_def race_inv_iff app_inv_def sharded_inv_upto_def routed_upto_def)

lemma sys_runs_node_inv:
  assumes "app_from_limits lim = Some st" "max_memory_bytes lim < usize_max"
    and "sys_runs h m interval budget (system_new st) evs s"
  shows "node_inv h (map limits (shards (ap_engine st))) (sy_app s)"
proof -
  have "sys_safe h (map limits (shards (ap_engine st))) (system_new st)"
    using fresh_node_inv [OF app_inv_fresh [OF assms(1,2)], of h] by (simp add: sys_safe_def system_new_def keeps_returned)
  then show ?thesis
    using sys_runs_safe [OF assms(3)] by (simp add: sys_safe_def)
qed

section \<open>One connection among many\<close>

text \<open>Every connection of the system runs like a connection on its own whose surroundings change the
  shared state.\<close>

lemma sys_step_conn:
  assumes "sys_step h m interval budget s evs s1" "i < length (sy_conns s)" "sy_conns s ! i = (cid, c)"
  shows "\<exists>c1. i < length (sy_conns s1) \<and> sy_conns s1 ! i = (cid, c1) \<and>
    conn_step h cid m (c, sy_app s) (events_of i evs) (c1, sy_app s1)"
  using assms(1)
proof cases
  case (sys_conn j cid1 c1 es c2 st1)
  then show ?thesis
    using assms(2,3) conn_own conn_other by (cases "i = j") auto
qed (use assms(2,3) in \<open>auto simp: nth_append intro: conn_other\<close>)

lemma sys_step_accept:
  assumes "sys_step h m interval budget s evs s1" "i < length (sy_conns s1)" "\<not> i < length (sy_conns s)"
  shows "i = length (sy_conns s) \<and> sy_conns s1 ! i = (sy_next_id s, conn_new) \<and> events_of i evs = [] \<and>
    sy_app s1 = sy_app s"
  using assms by cases (auto simp: nth_append less_Suc_eq)

lemma sys_step_ids:
  "sys_step h m interval budget s evs s1 \<Longrightarrow>
   sy_next_id s1 - sy_next_id s = word_of_nat (length (sy_conns s1) - length (sy_conns s)) \<and>
   length (sy_conns s) \<le> length (sy_conns s1) \<and> fst ` set evs \<subseteq> {..<length (sy_conns s)}"
  by (erule sys_step.cases) auto

lemma sys_runs_next_id:
  "sys_runs h m interval budget s evs s1 \<Longrightarrow> s = system_new st \<Longrightarrow>
   sy_next_id s1 = word_of_nat (length (sy_conns s1) + 1) \<and> fst ` set evs \<subseteq> {..<length (sy_conns s1)}"
proof (induction rule: sys_runs.induct)
  case (sys_refl s)
  then show ?case
    by (simp add: system_new_def)
next
  case (sys_then s evs s1 evs1 s2)
  then show ?case
    using sys_step_ids [OF sys_then.hyps(2)] by (cases rule: sys_step.cases [OF sys_then.hyps(2)]) auto
qed

lemma conn_runs_sys:
  "sys_runs h m interval budget s evs s1 \<Longrightarrow> s = system_new st \<Longrightarrow>
   i < length (sy_conns s1) \<Longrightarrow> sy_conns s1 ! i = (cid, c) \<Longrightarrow>
   \<exists>st0. cid = word_of_nat (i + 1) \<and> conn_runs h cid m (conn_new, st0) (events_of i evs) (c, sy_app s1)"
proof (induction arbitrary: c rule: sys_runs.induct)
  case (sys_refl s)
  then show ?case
    by (simp add: system_new_def)
next
  case (sys_then s evs s1 evs1 s2)
  show ?case
  proof (cases "i < length (sy_conns s1)")
    case True
    obtain cid1 c1 where at: "sy_conns s1 ! i = (cid1, c1)"
      by (cases "sy_conns s1 ! i")
    obtain c2 where "sy_conns s2 ! i = (cid1, c2)"
      and step: "conn_step h cid1 m (c1, sy_app s1) (events_of i evs1) (c2, sy_app s2)"
      using sys_step_conn [OF sys_then.hyps(2) True at] by blast
    then have eqs: "cid1 = cid" "c2 = c"
      using sys_then.prems(3) by simp_all
    obtain st0 where "cid = word_of_nat (i + 1)"
      "conn_runs h cid m (conn_new, st0) (events_of i evs) (c1, sy_app s1)"
      using sys_then.IH [OF sys_then.prems(1) True] at eqs by blast
    then show ?thesis
      using conn_then step eqs by fastforce
  next
    case False
    then have new: "i = length (sy_conns s1)" "cid = sy_next_id s1" "c = conn_new" "events_of i evs1 = []"
      using sys_step_accept [OF sys_then.hyps(2) sys_then.prems(2)] sys_then.prems(3) by auto
    have ids: "sy_next_id s1 = word_of_nat (length (sy_conns s1) + 1)" "fst ` set evs \<subseteq> {..<length (sy_conns s1)}"
      using sys_runs_next_id [OF sys_then.hyps(1) sys_then.prems(1)] by auto
    have "events_of i evs = []"
      using ids(2) new(1) by (force simp: events_of_def filter_empty_conv)
    then show ?thesis
      using new ids(1) conn_refl [of h cid m "(conn_new, sy_app s2)"] by (intro exI [of _ "sy_app s2"]) simp
  qed
qed

lemma node_inv_consistent: "node_inv h L st \<Longrightarrow> shards_consistent h (ap_engine st)"
  by (simp add: node_inv_def race_inv_def shards_consistent_def list_all_iff)

text \<open>C16. The server, with a memory limit below the largest \<open>usize\<close>, serves all its clients at once:
  whatever connections are opened, whatever bytes they send and however the critical sections of
  their requests, of the clean-up and of admin requests interleave, every shard keeps exact indexes and stays within its limits, every entry stays in the shard of its key
  and the tag directory names existing shards; that the directory knows every tag is not claimed, since races can
  lose a route. Every connection runs like one connection on its own beside others that change the cache:
  each frame that it took is executed once, still waiting, or lost to a response that cannot be encoded, and each
  executed frame has its one response written whole or still waiting. Connections have consecutive
  identifiers.\<close>

theorem server_serves_every_connection:
  assumes "app_from_limits lim = Some st" "max_memory_bytes lim < usize_max"
    and "sys_runs h m interval budget (system_new st) evs s"
    and "i < length (sy_conns s)" "sy_conns s ! i = (cid, c)"
  shows "shards_consistent h (ap_engine (sy_app s)) \<and>
    map limits (shards (ap_engine (sy_app s))) = map limits (shards (ap_engine st)) \<and> cid = word_of_nat (i + 1) \<and>
    (\<exists>st0. conn_runs h cid m (conn_new, st0) (events_of i evs) (c, sy_app s)) \<and>
    frames_accounted (events_of i evs) c \<and> responses_accounted (events_of i evs) c \<and> within_limits c"
proof -
  have inv: "node_inv h (map limits (shards (ap_engine st))) (sy_app s)"
    by (rule sys_runs_node_inv [OF assms(1-3)])
  moreover obtain st0 where "cid = word_of_nat (i + 1)"
    "conn_runs h cid m (conn_new, st0) (events_of i evs) (c, sy_app s)"
    using conn_runs_sys [OF assms(3) refl assms(4,5)] by blast
  ultimately show ?thesis
    using accounted_runs node_inv_consistent [OF inv] by (fastforce simp: node_inv_def)
qed

lemma sys_runs_act:
  "sys_runs h m interval budget s0 evs s \<Longrightarrow> i < length (sy_conns s) \<Longrightarrow> sy_conns s ! i = (cid, c) \<Longrightarrow>
   conn_act h cid m (c, sy_app s) es (c1, st1) \<Longrightarrow>
   sys_runs h m interval budget s0 (evs @ map (Pair i) es) (s\<lparr>sy_conns := (sy_conns s)[i := (cid, c1)], sy_app := st1\<rparr>)"
  by (blast intro: sys_then sys_conn)

theorem server_serves_every_connection_witness:
  "\<exists>evs s. sys_runs sample_hasher 1024 50 10 (system_new sample_app) evs s \<and> sy_conns s ! 0 = (1, conn_new) \<and>
     executed (events_of 0 evs) = [(silent_frame, [])] \<and> frames_accounted (events_of 0 evs) conn_new \<and>
     shards_consistent sample_hasher (ap_engine (sy_app s))"
proof -
  let ?s = "(system_new sample_app)\<lparr>sy_conns := [(1, conn_new)], sy_next_id := 2\<rparr>"
  have "sys_runs sample_hasher 1024 50 10 (system_new sample_app) [] ?s"
    using sys_then [OF sys_refl sys_accept, of sample_hasher 1024 50 10 "system_new sample_app"] by (simp add: system_new_def)
  from sys_runs_act [OF this _ _ silent_acts(1)]
  have "sys_runs sample_hasher 1024 50 10 (system_new sample_app) []
      (?s\<lparr>sy_conns := [(1, conn_new\<lparr>cn_buffer := silent_frame\<rparr>)]\<rparr>)"
    by (simp add: system_new_def)
  from sys_runs_act [OF this _ _ silent_acts(2)]
  have "sys_runs sample_hasher 1024 50 10 (system_new sample_app) [(0, Take [silent_frame])]
      (?s\<lparr>sy_conns := [(1, conn_new\<lparr>cn_todo := [silent_frame]\<rparr>)]\<rparr>)"
    by (simp add: system_new_def)
  from sys_runs_act [OF this _ _ silent_acts(3)]
  have "sys_runs sample_hasher 1024 50 10 (system_new sample_app) [(0, Take [silent_frame])]
      (?s\<lparr>sy_conns := [(1, conn_new\<lparr>cn_todo := [silent_frame], cn_current := Some (Returned (Some []))\<rparr>)]\<rparr>)"
    by (simp add: system_new_def)
  from sys_runs_act [OF this _ _ silent_acts(4)]
  have run: "sys_runs sample_hasher 1024 50 10 (system_new sample_app)
      [(0, Take [silent_frame]), (0, Exec silent_frame []), (0, Write [])] ?s"
    by (simp add: system_new_def)
  show ?thesis
    using run server_serves_every_connection [OF sample_app_eq sample_limits_bounded run, of 0 1 conn_new]
    by (intro exI [of _ "[(0, Take [silent_frame]), (0, Exec silent_frame []), (0, Write [])]"] exI [of _ ?s])
      (simp add: system_new_def events_of_def histories sample_limits_def)
qed

end
