(* ===== verification/Engine_Evict.thy ===== *)
theory Engine_Evict
  imports Engine_Props
begin

text \<open>
  The eviction loop of \<open>put\<close> (\<open>evict_until_fits\<close> of src/engine.rs): every round removes an entry, the
  loop stops, and it stops as soon as the new entry fits.
\<close>

lemma evict_none:
  "fst (evict_until_fits env incoming e) = 0 \<Longrightarrow> env_ok env \<Longrightarrow> snd (evict_until_fits env incoming e) = e"
  using lru_SomeD [of env e]
  by (subst (asm) evict_until_fits.simps, subst evict_until_fits.simps)
    (auto simp: Let_def remove_entry_fst split: option.splits if_splits prod.splits)

lemma saturating_less: "k < usize_saturating_add a b \<Longrightarrow> k < a + b"
  by (auto simp: usize_saturating_add_def)

lemma evict_rounds:
  assumes "env_ok env"
  shows "fst (evict_until_fits env incoming e) + length (entries (snd (evict_until_fits env incoming e))) \<le> length (entries e) \<and>
    (0 < fst (evict_until_fits env incoming e) \<longrightarrow>
      (\<exists>eid en. map_of (entries e) eid = Some en \<and>
         map_of (entries (snd (evict_until_fits env incoming e))) eid = None \<and>
         max_memory_bytes (limits e) < memory_used_bytes (snd (evict_until_fits env incoming e)) + en_memory_bytes en + incoming))"
  using assms
proof (induction env incoming e rule: evict_until_fits.induct)
  case (1 env incoming e)
  show ?case
  proof (cases "usize_saturating_add (memory_used_bytes e) incoming > max_memory_bytes (limits e) \<and>
      least_recently_used_entry env e \<noteq> None")
    case False
    then have "evict_until_fits env incoming e = (0, e)"
      by (subst evict_until_fits.simps) (auto split: option.split)
    then show ?thesis
      by simp
  next
    case True
    then obtain eid where lru: "least_recently_used_entry env e = Some eid"
      and full: "max_memory_bytes (limits e) < usize_saturating_add (memory_used_bytes e) incoming"
      by auto
    obtain en where en: "map_of (entries e) eid = Some en"
      using lru_SomeD [OF "1.prems" lru] by auto
    then have rem: "fst (remove_entry eid e)"
      by (simp add: remove_entry_fst)
    define e1 where "e1 = (snd (remove_entry eid e))
      \<lparr>stats := (stats (snd (remove_entry eid e)))\<lparr>evictions := evictions (stats (snd (remove_entry eid e))) + 1\<rparr>\<rparr>"
    obtain n e2 where rec: "evict_until_fits env incoming e1 = (n, e2)"
      by fastforce
    have run: "evict_until_fits env incoming e = (Suc n, e2)"
      using full lru rem rec by (subst evict_until_fits.simps) (simp add: e1_def Let_def)
    have less: "length (entries e1) < length (entries e)"
      using remove_entry_shrinks [OF rem] by (simp add: e1_def)
    have used: "memory_used_bytes e \<le> memory_used_bytes e1 + en_memory_bytes en"
      using en by (simp add: e1_def remove_entry_def)
    have IH: "n + length (entries e2) \<le> length (entries e1)"
      "0 < n \<longrightarrow> (\<exists>eid en. map_of (entries e1) eid = Some en \<and> map_of (entries e2) eid = None \<and>
        max_memory_bytes (limits e1) < memory_used_bytes e2 + en_memory_bytes en + incoming)"
      using "1.IH" [OF full lru rem refl "1.prems"] rec by (simp_all add: e1_def)
    show ?thesis
    proof (cases "n = 0")
      case True
      then have "e2 = e1"
        using evict_none [OF _ "1.prems", of incoming e1] rec by simp
      then show ?thesis
        using run en less used IH(1) saturating_less [OF full] by (auto simp: e1_def alist intro!: exI [of _ eid] exI [of _ en])
    next
      case False
      then show ?thesis
        using run IH less by (auto simp: e1_def alist split: if_splits)
    qed
  qed
qed

text \<open>C17. The eviction loop stops: it evicts at most as many entries as the cache holds, the new entry
  fits afterwards, and no entry is evicted in vain: without the last eviction the new entry would
  not have fit.\<close>

theorem eviction_stops_when_it_fits:
  assumes "env_ok env" "engine_inv e" "incoming \<le> max_memory_bytes (limits e)"
    and "evict_until_fits env incoming e = (n, e1)"
  shows "n + length (entries e1) \<le> length (entries e) \<and>
    memory_used_bytes e1 + incoming \<le> max_memory_bytes (limits e) \<and>
    (n = 0 \<or> (\<exists>eid en. map_of (entries e) eid = Some en \<and> map_of (entries e1) eid = None \<and>
       max_memory_bytes (limits e) < memory_used_bytes e1 + en_memory_bytes en + incoming))"
  using evict_rounds [OF assms(1), of incoming e] evict_until_fits_fits [OF assms(1-3)] assms(4) by auto

theorem eviction_stops_when_it_fits_witness:
  "fst (evict_until_fits (sample_env 1) (max_memory_bytes (limits sample_engine)) sample_engine) \<le> 1 \<and>
   memory_used_bytes (snd (evict_until_fits (sample_env 1) (max_memory_bytes (limits sample_engine)) sample_engine)) = 0"
proof -
  let ?r = "evict_until_fits (sample_env 1) (max_memory_bytes (limits sample_engine)) sample_engine"
  have "length (entries sample_engine) = 1"
    by (simp add: sample_engine_entries)
  then show ?thesis
    using eviction_stops_when_it_fits [OF sample_env_ok sample_engine_inv order.refl, of 1 "fst ?r" "snd ?r"] by simp
qed

end
