(* ===== verification/Server_Errors.thy ===== *)
theory Server_Errors
  imports Server_Props
begin

text \<open>
  The error paths of the server: bytes that do not decode are answered by an error frame or not at
  all, and never touch the cache or the metrics; and the one response that cannot be
  encoded, that of a batch whose values together exceed a frame.
\<close>

section \<open>Bytes that do not decode\<close>

text \<open>Bytes that do not decode have no effect: neither the cache nor the metrics change. When they
  start with a header-sized block and the protocol's magic, the answer is a frame that decodes to
  an error with the code of the failure, under the request identifier and, where it is known, the
  command of the header; otherwise nothing is written. The server never panics on them.\<close>

lemma undecodable_frames_have_no_effect:
  assumes "decode_request_frame frame m = Inl err" "length frame \<le> usize_max" "m \<le> usize_max"
  shows "\<exists>out. execute_native_frame_bytes h env cid m frame st = (Some out, st) \<and>
    (if HEADER_LEN \<le> length frame \<and> take 4 frame = MAGIC
     then decode_response_frame out 1024 =
       Inr \<lparr>rs_request_id = word_of_nat (from_be (take 8 (drop 8 frame))),
            rs_command = (case command_from_id (frame ! 6) of Inl e \<Rightarrow> CmdGet | Inr c \<Rightarrow> c),
            rs_payload = RespError (native_decode_error_code err) (debug_decode_error err)\<rparr>
     else out = [])"
proof (cases "native_decode_error_response frame err")
  case None
  then show ?thesis
    using assms(1) by (auto simp: frame_bytes_agree execute_owned_frame_snd encode_decode_error_def
        native_decode_error_response_def split: if_splits)
next
  case (Some resp)
  then obtain out where out: "encode_response_frame resp = Some out" "decode_response_frame out 1024 = Inr resp"
    using decode_error_encodes [OF plain_request_frame [OF assms] _ order_refl] by blast
  moreover have "execute_native_frame_bytes h env cid m frame st = (Some out, st)"
    using assms(1) Some out(1) by (simp add: frame_bytes_agree execute_owned_frame_snd encode_decode_error_def)
  ultimately show ?thesis
    using Some by (auto simp: native_decode_error_response_def split: if_splits)
qed

definition bad_version :: bytes where
  "bad_version = [67, 66, 88, 49, 9, 0, 2, 0, 0, 0, 0, 0, 0, 0, 0, 5, 0, 0, 0, 0, 0, 0, 0, 0]"

section \<open>A response that does not fit a frame\<close>

text \<open>The shard of the key holds a value without expiry under it.\<close>

definition holds_value :: "hasher \<Rightarrow> string \<Rightarrow> bytes \<Rightarrow> bytes \<Rightarrow> sharded_engine \<Rightarrow> bool" where
  "holds_value h ns key v s \<longleftrightarrow>
     shards s \<noteq> [] \<and>
     (\<exists>en. map_of (entries (shards s ! shard_index_for h ns key s)) (EntryId ns key) = Some en \<and>
        en_expires_at_ms en = None \<and> en_value en = v)"

lemma get_holds_value:
  assumes "holds_value h ns key v s"
  shows "fst (sharded_get h env ns key s) = OutHit v \<and> holds_value h ns key v (snd (sharded_get h env ns key s))"
proof -
  let ?i = "shard_index_for h ns key s"
  obtain en where en: "map_of (entries (shards s ! ?i)) (EntryId ns key) = Some en"
    "en_expires_at_ms en = None" "en_value en = v"
    using assms by (auto simp: holds_value_def)
  have i: "?i < length (shards s)"
    using assms by (auto simp: holds_value_def shard_index_for_def)
  have "engine_get env ns key (shards s ! ?i) = (OutHit v, touch (EntryId ns key) (shards s ! ?i))"
    using en by (simp add: engine_get_def get_ref_def get_ref_inner_unfold engine_entry_state_def entry_state_at_def)
  then have get: "sharded_get h env ns key s =
      (OutHit v, s\<lparr>shards := (shards s)[?i := touch (EntryId ns key) (shards s ! ?i)]\<rparr>)"
    by (simp add: sharded_get_def with_shard_def)
  have "shard_index_for h ns key (snd (sharded_get h env ns key s)) = ?i"
    by (simp add: get shard_index_for_def)
  then show ?thesis
    using en i get assms by (simp add: holds_value_def touch_entries)
qed

lemma batch_holds_value:
  "holds_value h ns key v s \<Longrightarrow> fst (sharded_batch_get h env ns (replicate n key) s) = replicate n (OutHit v)"
proof (induction n arbitrary: env s)
  case (Suc n)
  then show ?case
    using get_holds_value [OF Suc.prems, of env] by (simp add: case_prod_beta Let_def)
qed simp

lemma length_repeated_items:
  "length (encode_response_payload (RespBatchGet (map item_of (replicate n (OutHit v))))) = 5 + n * (5 + length v)"
  by (induction n) simp_all

text \<open>C27. A short batch request can make the server panic: asking \<open>n\<close> times for the same key, whose value
  takes more than a frame when it is sent \<open>n\<close> times, makes the encoder's assertion on the length
  of the payload fail, so the request is never answered and its task ends.\<close>

theorem repeated_batch_get_panics:
  assumes "decode_request_frame frame m = Inr f" "rq_payload f = ReqBatchGet ns (replicate n key)"
    and "holds_value h ns key v (ap_engine st)" "2 ^ 32 \<le> 5 + n * (5 + length v)"
  shows "fst (execute_native_frame_bytes h env cid m frame st) = None"
proof -
  let ?payload = "response_of (fst (sharded_exec h (op_of env (rq_payload f)) (ap_engine st)))"
  have "?payload = RespBatchGet (map item_of (replicate n (OutHit v)))"
    using assms(2) batch_holds_value [OF assms(3), of env n] by simp
  then have "length (encode_response_payload ?payload) = 5 + n * (5 + length v)"
    by (simp only: length_repeated_items)
  then show ?thesis
    using assms(1,4) by (simp add: frame_bytes_agree execute_owned_frame_snd encode_response_frame_def
        encode_frame_into_eq)
qed

definition many :: nat where
  "many = 1024"

definition big_value :: bytes where
  "big_value = replicate (2 ^ 22) 0"

definition big_batch :: request_frame where
  "big_batch = \<lparr>rq_request_id = 1, rq_command = CmdBatchGet, rq_payload = ReqBatchGet ''ns'' (replicate many [1])\<rparr>"

definition big_app :: app_state where
  "big_app =
     \<lparr>ap_engine =
        \<lparr>shards = [(engine_with_limits engine_limits_default)\<lparr>entries :=
           [(EntryId ''ns'' [1], \<lparr>en_value = big_value, en_expires_at_ms = None, en_stale_until_ms = None,
              en_tags = [], en_cost = None, en_memory_bytes = 96 + 3 + length big_value, en_last_access = 0\<rparr>)]\<rparr>],
         tag_directory = [], sharded_limits = engine_limits_default\<rparr>,
      ap_metrics = metrics_default\<rparr>"

lemma big_batch_size: "length (encode_request_payload (rq_payload big_batch)) = 10 + many * 5"
proof -
  have "length (concat (map write_bytes (replicate n [1]))) = n * 5" for n
    by (induction n) simp_all
  then show ?thesis
    by (simp add: big_batch_def)
qed

theorem repeated_batch_get_panics_witness:
  "\<exists>bs. encode_request_frame big_batch = Some bs \<and> length bs < 6000 \<and>
     fst (execute_native_frame_bytes sample_hasher (sample_env 1) 1 8192 bs big_app) = None"
proof -
  have small: "length (encode_request_payload (rq_payload big_batch)) \<le> 8192"
    by (simp add: big_batch_size many_def)
  then obtain bs where bs: "encode_request_frame big_batch = Some bs"
    by (auto simp: encode_request_frame_def encode_frame_into_eq)
  have "length bs < 6000"
    using bs big_batch_size
    by (auto simp: encode_request_frame_def encode_frame_into_eq MAGIC_def many_def split: if_splits)
  moreover have "request_ok (rq_command big_batch) (rq_payload big_batch)"
    by (simp add: big_batch_def request_ok_def namespace_ok_def short_def is_valid_namespace_def
        sample_strings is_ascii_alphanumeric_def list_all_iff many_def)
  note decoded = request_round_trip [OF bs this small, of "[]", simplified]
  have "holds_value sample_hasher ''ns'' [1] big_value (ap_engine big_app)"
    by (simp add: holds_value_def big_app_def shard_index_for_def)
  moreover have "2 ^ 32 \<le> 5 + many * (5 + length big_value)"
    by (simp add: many_def big_value_def)
  ultimately show ?thesis
    using repeated_batch_get_panics [OF decoded, of "''ns''" many "[1]" sample_hasher big_value big_app] bs
    by (simp add: big_batch_def)
qed

end
