(* ===== verification/Server_Metrics.thy ===== *)
theory Server_Metrics
  imports Server_Props
begin

text \<open>
  The metrics of the server are exact: a request adds to one metrics shard exactly the counters
  that its kind and its result call for, and the snapshot of the admin page is the saturated sum
  of the shards, counter by counter.
\<close>

section \<open>What a request counts\<close>

definition metrics_plus :: "metrics \<Rightarrow> metrics \<Rightarrow> metrics" where
  "metrics_plus a b =
     \<lparr>requests_total = requests_total a + requests_total b,
      health_requests = health_requests a + health_requests b,
      get_requests = get_requests a + get_requests b,
      put_requests = put_requests a + put_requests b,
      delete_requests = delete_requests a + delete_requests b,
      batch_get_requests = batch_get_requests a + batch_get_requests b,
      tag_invalidate_requests = tag_invalidate_requests a + tag_invalidate_requests b,
      hits_total = hits_total a + hits_total b,
      misses_total = misses_total a + misses_total b,
      stale_total = stale_total a + stale_total b,
      lease_grants = lease_grants a + lease_grants b,
      lease_denials = lease_denials a + lease_denials b,
      errors_total = errors_total a + errors_total b\<rparr>"

fun hit_count :: "get_outcome \<Rightarrow> nat" where "hit_count (OutHit v) = 1" | "hit_count out = 0"
fun stale_count :: "get_outcome \<Rightarrow> nat" where "stale_count (OutStale v) = 1" | "stale_count out = 0"
fun miss_count :: "get_outcome \<Rightarrow> nat" where "miss_count OutMiss = 1" | "miss_count out = 0"

definition read_delta :: "get_outcome list \<Rightarrow> metrics" where
  "read_delta outs = metrics_zero
     \<lparr>hits_total := word_of_nat (sum_list (map hit_count outs)),
      stale_total := word_of_nat (sum_list (map stale_count outs)),
      misses_total := word_of_nat (sum_list (map miss_count outs))\<rparr>"

fun result_delta :: "engine_result \<Rightarrow> metrics" where
  "result_delta (ResGet out) = (read_delta [out])\<lparr>get_requests := 1\<rparr>"
| "result_delta (ResBatch outs) = (read_delta outs)\<lparr>batch_get_requests := 1\<rparr>"
| "result_delta (ResPut (Inr out)) = metrics_zero\<lparr>put_requests := 1\<rparr>"
| "result_delta (ResPut (Inl err)) = metrics_zero\<lparr>put_requests := 1, errors_total := 1\<rparr>"
| "result_delta (ResDeleted b) = metrics_zero\<lparr>delete_requests := 1\<rparr>"
| "result_delta (ResCount n) = metrics_zero\<lparr>tag_invalidate_requests := 1\<rparr>"
| "result_delta (ResLease (SlHit v)) = metrics_zero\<lparr>hits_total := 1\<rparr>"
| "result_delta (ResLease (SlStale v)) = metrics_zero\<lparr>stale_total := 1\<rparr>"
| "result_delta (ResLease (SlLeaseGranted token stale)) = metrics_zero\<lparr>lease_grants := 1\<rparr>"
| "result_delta (ResLease SlLeaseDenied) = metrics_zero\<lparr>lease_denials := 1\<rparr>"
| "result_delta (ResComplete (Inr out)) = metrics_zero"
| "result_delta (ResComplete (Inl err)) = metrics_zero\<lparr>errors_total := 1\<rparr>"
| "result_delta (ResRef r) = metrics_zero"

text \<open>Bumping a counter is adding a one, and adding is associative.\<close>

lemma increments:
  "inc_hits m = metrics_plus m (metrics_zero\<lparr>hits_total := 1\<rparr>)"
  "inc_stale m = metrics_plus m (metrics_zero\<lparr>stale_total := 1\<rparr>)"
  "inc_misses m = metrics_plus m (metrics_zero\<lparr>misses_total := 1\<rparr>)"
  "inc_errors m = metrics_plus m (metrics_zero\<lparr>errors_total := 1\<rparr>)"
  "inc_gets m = metrics_plus m (metrics_zero\<lparr>get_requests := 1\<rparr>)"
  "inc_puts m = metrics_plus m (metrics_zero\<lparr>put_requests := 1\<rparr>)"
  "inc_deletes m = metrics_plus m (metrics_zero\<lparr>delete_requests := 1\<rparr>)"
  "inc_batch_gets m = metrics_plus m (metrics_zero\<lparr>batch_get_requests := 1\<rparr>)"
  "inc_tag_invalidates m = metrics_plus m (metrics_zero\<lparr>tag_invalidate_requests := 1\<rparr>)"
  "inc_lease_grants m = metrics_plus m (metrics_zero\<lparr>lease_grants := 1\<rparr>)"
  "inc_lease_denials m = metrics_plus m (metrics_zero\<lparr>lease_denials := 1\<rparr>)"
  by (cases m; simp add: metrics_plus_def metrics_zero_def inc_hits_def inc_stale_def inc_misses_def
      inc_errors_def inc_gets_def inc_puts_def inc_deletes_def inc_batch_gets_def inc_tag_invalidates_def
      inc_lease_grants_def inc_lease_denials_def)+

lemma plus_assoc [simp]: "metrics_plus (metrics_plus a b) c = metrics_plus a (metrics_plus b c)"
  by (simp add: metrics_plus_def ac_simps)

lemma plus_zero [simp]: "metrics_plus m metrics_zero = m"
  by (cases m) (simp add: metrics_plus_def metrics_zero_def)

lemma put_error_delta:
  "metrics_plus (metrics_zero\<lparr>put_requests := 1\<rparr>) (metrics_zero\<lparr>errors_total := 1\<rparr>) =
   metrics_zero\<lparr>put_requests := 1, errors_total := 1\<rparr>"
  by (simp add: metrics_plus_def metrics_zero_def)

lemma read_delta_simps:
  "read_delta [] = metrics_zero"
  "read_delta (OutHit v # outs) = metrics_plus (metrics_zero\<lparr>hits_total := 1\<rparr>) (read_delta outs)"
  "read_delta (OutStale v # outs) = metrics_plus (metrics_zero\<lparr>stale_total := 1\<rparr>) (read_delta outs)"
  "read_delta (OutMiss # outs) = metrics_plus (metrics_zero\<lparr>misses_total := 1\<rparr>) (read_delta outs)"
  by (simp_all add: read_delta_def metrics_plus_def metrics_zero_def ac_simps)

definition counted :: "nat \<Rightarrow> metrics \<Rightarrow> app_state \<Rightarrow> app_state \<Rightarrow> bool" where
  "counted i d st st1 \<longleftrightarrow>
     ap_metrics st1 = (ap_metrics st)[i := metrics_plus (ap_metrics st ! i) d]"

lemma counted_count: "i < length (ap_metrics st) \<Longrightarrow> f (ap_metrics st ! i) = metrics_plus (ap_metrics st ! i) d \<Longrightarrow>
  counted i d st (count i f st)"
  by (simp add: counted_def count_def)

lemma counted_then:
  "counted i d st st1 \<Longrightarrow> counted i d1 st1 st2 \<Longrightarrow> counted i (metrics_plus d d1) st st2"
  by (cases "i < length (ap_metrics st)") (simp_all add: counted_def list_update_beyond)

lemma counted_batch_items:
  "i < length (ap_metrics st) \<Longrightarrow> counted i (read_delta outs) st (snd (batch_items i outs st))"
proof (induction outs arbitrary: st)
  case Nil
  then show ?case
    by (simp add: counted_def read_delta_simps)
next
  case (Cons out outs)
  have step: "counted i (metrics_plus d (read_delta outs)) st (snd (batch_items i outs (count i f st)))"
    if "f (ap_metrics st ! i) = metrics_plus (ap_metrics st ! i) d" for f d
    using counted_then [OF counted_count [of i st f d] Cons.IH [of "count i f st"]] Cons.prems that by simp
  show ?case
    by (cases out) (simp_all add: case_prod_beta Let_def read_delta_simps step increments)
qed

lemma payload_counted:
  assumes "i < length (ap_metrics st)"
  shows "counted i (result_delta (fst (sharded_exec h (op_of env p) (ap_engine st)))) st
    (snd (execute_native_payload_with_metrics h env i p st))"
proof (cases p)
  case (ReqBatchGet ns keys)
  let ?outs = "fst (sharded_batch_get h env ns keys (ap_engine st))"
  let ?st = "snd (on_engine (sharded_batch_get h env ns keys) (count i inc_batch_gets st))"
  have "counted i (metrics_zero\<lparr>batch_get_requests := 1\<rparr>) st ?st"
    using assms by (simp add: counted_def on_engine_eq count_def increments)
  moreover have "counted i (read_delta ?outs) ?st (snd (batch_items i ?outs ?st))"
    using assms by (intro counted_batch_items) (simp add: on_engine_eq)
  ultimately have "counted i (metrics_plus (metrics_zero\<lparr>batch_get_requests := 1\<rparr>) (read_delta ?outs)) st
      (snd (batch_items i ?outs ?st))"
    by (rule counted_then)
  moreover have "metrics_plus (metrics_zero\<lparr>batch_get_requests := 1\<rparr>) (read_delta ?outs) =
      (read_delta ?outs)\<lparr>batch_get_requests := 1\<rparr>"
    by (simp add: metrics_plus_def metrics_zero_def read_delta_def)
  ultimately show ?thesis
    using ReqBatchGet by (simp add: on_engine_eq case_prod_beta Let_def)
next
  case (ReqGet ns key)
  have "metrics_plus (metrics_zero\<lparr>get_requests := 1\<rparr>) (read_delta [out]) = (read_delta [out])\<lparr>get_requests := 1\<rparr>" for out
    by (simp add: metrics_plus_def metrics_zero_def read_delta_def)
  note get = this [symmetric]
  show ?thesis
    using assms ReqGet
    by (auto simp: counted_def handlers on_engine_eq count_def case_prod_beta Let_def increments get
        read_delta_simps split: get_outcome.split)
qed (use assms in \<open>auto simp: counted_def handlers on_engine_eq count_def case_prod_beta Let_def increments
    put_error_delta split: sum.split start_lease_outcome.split complete_lease_error.split\<close>)

text \<open>Every request is counted exactly: one metrics shard, chosen by the connection and the request
  identifier, grows by the counters of the request's kind and of its result, with one hit, stale
  read or miss for every key of a read, a grant, denial, hit or stale read for a lease, and an
  error for a refused write; all other counters and shards stay as they are.\<close>

lemma requests_counted_exactly:
  assumes "decode_request_frame frame m = Inr f" "ap_metrics st \<noteq> []"
  shows "ap_metrics (snd (execute_native_frame_bytes h env cid m frame st)) =
    (let i = metrics_shard_for_request st cid (rq_request_id f);
         r = fst (sharded_exec h (op_of env (rq_payload f)) (ap_engine st))
     in (ap_metrics st)[i := metrics_plus (ap_metrics st ! i) (result_delta r)])"
proof -
  have "metrics_shard_for_request st cid (rq_request_id f) < length (ap_metrics st)"
    using assms(2) by (simp add: metrics_shard_for_request_def)
  then show ?thesis
    using payload_counted assms(1)
    by (simp add: counted_def frame_bytes_agree execute_owned_frame_snd Let_def)
qed

section \<open>The snapshot\<close>

text \<open>A counter is a field that the saturating sum adds on its own.\<close>

locale counter =
  fixes field :: "metrics \<Rightarrow> u64"
  assumes field_zero: "field metrics_zero = 0"
    and field_add: "field (metrics_saturating_add a b) = u64_saturating_add (field a) (field b)"
begin

lemma field_fold:
  "unat (field (fold (\<lambda>m total. metrics_saturating_add total m) ms acc)) =
   min (unat (field acc) + sum_list (map (\<lambda>m. unat (field m)) ms)) (2 ^ 64 - 1)"
proof (induction ms arbitrary: acc)
  case Nil
  then show ?case
    using unat_u64_less [of "field acc"] by simp
next
  case (Cons m ms)
  then show ?case
    by (simp add: field_add unat_u64_saturating_add min_def)
qed

lemma field_snapshot:
  "unat (field (metrics_snapshot st)) = min (sum_list (map (\<lambda>m. unat (field m)) (ap_metrics st))) (2 ^ 64 - 1)"
  by (simp add: metrics_snapshot_def field_fold field_zero)

end

interpretation requests_total: counter requests_total
  by unfold_locales (simp_all add: metrics_zero_def metrics_saturating_add_def)
interpretation health_requests: counter health_requests
  by unfold_locales (simp_all add: metrics_zero_def metrics_saturating_add_def)
interpretation get_requests: counter get_requests
  by unfold_locales (simp_all add: metrics_zero_def metrics_saturating_add_def)
interpretation put_requests: counter put_requests
  by unfold_locales (simp_all add: metrics_zero_def metrics_saturating_add_def)
interpretation delete_requests: counter delete_requests
  by unfold_locales (simp_all add: metrics_zero_def metrics_saturating_add_def)
interpretation batch_get_requests: counter batch_get_requests
  by unfold_locales (simp_all add: metrics_zero_def metrics_saturating_add_def)
interpretation tag_invalidate_requests: counter tag_invalidate_requests
  by unfold_locales (simp_all add: metrics_zero_def metrics_saturating_add_def)
interpretation hits_total: counter hits_total
  by unfold_locales (simp_all add: metrics_zero_def metrics_saturating_add_def)
interpretation misses_total: counter misses_total
  by unfold_locales (simp_all add: metrics_zero_def metrics_saturating_add_def)
interpretation stale_total: counter stale_total
  by unfold_locales (simp_all add: metrics_zero_def metrics_saturating_add_def)
interpretation lease_grants: counter lease_grants
  by unfold_locales (simp_all add: metrics_zero_def metrics_saturating_add_def)
interpretation lease_denials: counter lease_denials
  by unfold_locales (simp_all add: metrics_zero_def metrics_saturating_add_def)
interpretation errors_total: counter errors_total
  by unfold_locales (simp_all add: metrics_zero_def metrics_saturating_add_def)

definition counters :: "(metrics \<Rightarrow> u64) list" where
  "counters = [requests_total, health_requests, get_requests, put_requests, delete_requests,
     batch_get_requests, tag_invalidate_requests, hits_total, misses_total, stale_total, lease_grants,
     lease_denials, errors_total]"

text \<open>The metrics page reports, for each of the thirteen counters, the sum of the counter over all
  metrics shards, cut off at the largest 64-bit number.\<close>

lemma snapshot_sums_shards:
  "list_all (\<lambda>field. unat (field (metrics_snapshot st)) =
     min (sum_list (map (\<lambda>m. unat (field m)) (ap_metrics st))) (2 ^ 64 - 1)) counters"
  by (simp only: counters_def list.pred_inject requests_total.field_snapshot health_requests.field_snapshot
      get_requests.field_snapshot put_requests.field_snapshot delete_requests.field_snapshot
      batch_get_requests.field_snapshot tag_invalidate_requests.field_snapshot hits_total.field_snapshot
      misses_total.field_snapshot stale_total.field_snapshot lease_grants.field_snapshot
      lease_denials.field_snapshot errors_total.field_snapshot simp_thms)

end
