(* ===== verification/Py_Protocol.thy ===== *)
theory Py_Protocol
  imports Wire "HOL-Library.Char_ord"
begin

text \<open>
  The codec of the Python client (clients/python/python/cachebox/protocol.py): the second
  implementation of the native protocol. Integers of Python are \<open>int\<close>, so the writers raise
  where a number does not fit. A text of Python is the list of the bytes that UTF-8 writes for
  its code points, with lone surrogates written the same way; encoding such a surrogate raises.
  An exception is a value, with its class and the data that callers read; the texts of decode
  errors are left out. The enumerations have the members of their Rust counterparts and are shared.
\<close>

section \<open>Exceptions\<close>

text \<open>The classes of the whole package; \<open>PyRaised\<close> is an exception of the code of the user.\<close>

datatype py_exception =
  PyIncompleteHeader | PyBadMagic | PyUnsupportedVersion | PyInvalidKind | PyUnknownCommand
| PyNonzeroFlags | PyNonzeroReserved | PyFrameTooLarge | PyTruncatedPayload | PyInvalidPayload
| PyInvalidUtf8 | PyInvalidNamespace | PyInvalidTag | PyInvalidBool | PyTrailingBytes
| PyOverflowError | PyValueError | PyUnicodeEncodeError | PyTimeoutError | PyOSError | PyIncompleteReadError
| PyCancelledError | PyQueueEmpty
| PyClientError | PyConnectionClosed | PyUnexpectedResponse | PyServerError error_code string
| PyKeyBuildError | PySerdeEncodeError | PySerdeDecodeError | PyDogpileTimeout | PyRaised string

type_synonym 'a py_result = "py_exception + 'a"

section \<open>Data classes\<close>

text \<open>Looking a number up in an enumeration.\<close>

definition py_Command :: "int \<Rightarrow> command option" where
  "py_Command v =
     (if v = 0x01 then Some CmdGet else if v = 0x02 then Some CmdPut else if v = 0x03 then Some CmdDelete
      else if v = 0x04 then Some CmdBatchGet else if v = 0x05 then Some CmdTagInvalidate
      else if v = 0x06 then Some CmdLeaseStart else if v = 0x07 then Some CmdLeaseComplete else None)"

fun py_command_value :: "command \<Rightarrow> int" where
  "py_command_value CmdGet = 0x01"
| "py_command_value CmdPut = 0x02"
| "py_command_value CmdDelete = 0x03"
| "py_command_value CmdBatchGet = 0x04"
| "py_command_value CmdTagInvalidate = 0x05"
| "py_command_value CmdLeaseStart = 0x06"
| "py_command_value CmdLeaseComplete = 0x07"

definition py_ContentType :: "int \<Rightarrow> content_type option" where
  "py_ContentType v = (if v = 0x00 then Some OctetStream else if v = 0x01 then Some OtherContent else None)"

fun py_content_type_value :: "content_type \<Rightarrow> int" where
  "py_content_type_value OctetStream = 0x00"
| "py_content_type_value OtherContent = 0x01"

definition py_ErrorCode :: "int \<Rightarrow> error_code option" where
  "py_ErrorCode v =
     (if v = 0x0001 then Some EcBadFrame else if v = 0x0002 then Some EcUnsupportedVersion
      else if v = 0x0003 then Some EcUnknownCommand else if v = 0x0004 then Some EcInvalidNamespace
      else if v = 0x0005 then Some EcInvalidTag else if v = 0x0006 then Some EcInvalidTtl
      else if v = 0x0007 then Some EcValueTooLarge else if v = 0x0008 then Some EcEntryTooLarge
      else if v = 0x0009 then Some EcInsufficientMemory else if v = 0x000A then Some EcInvalidLeaseToken
      else if v = 0x000B then Some EcFrameTooLarge else None)"

fun py_error_code_value :: "error_code \<Rightarrow> int" where
  "py_error_code_value EcBadFrame = 0x0001"
| "py_error_code_value EcUnsupportedVersion = 0x0002"
| "py_error_code_value EcUnknownCommand = 0x0003"
| "py_error_code_value EcInvalidNamespace = 0x0004"
| "py_error_code_value EcInvalidTag = 0x0005"
| "py_error_code_value EcInvalidTtl = 0x0006"
| "py_error_code_value EcValueTooLarge = 0x0007"
| "py_error_code_value EcEntryTooLarge = 0x0008"
| "py_error_code_value EcInsufficientMemory = 0x0009"
| "py_error_code_value EcInvalidLeaseToken = 0x000A"
| "py_error_code_value EcFrameTooLarge = 0x000B"

datatype py_ttl = PyTtl int

record py_metadata =
  py_md_ttl :: "py_ttl option"
  py_md_stale_ttl :: "py_ttl option"
  py_md_cost :: "int option"
  py_md_tags :: "string list"
  py_md_content_type :: content_type

definition py_metadata_default :: py_metadata where
  "py_metadata_default =
     \<lparr>py_md_ttl = None, py_md_stale_ttl = None, py_md_cost = None, py_md_tags = [],
      py_md_content_type = OctetStream\<rparr>"

datatype py_request =
  PyGet string bytes
| PyPut string bytes py_metadata bytes
| PyDelete string bytes
| PyBatchGet string "bytes list"
| PyTagInvalidate string string
| PyLeaseStart string bytes int "int option"
| PyLeaseComplete string bytes string py_metadata bytes

record py_request_frame =
  py_rq_request_id :: int
  py_rq_command :: command
  py_rq_payload :: py_request

record py_batch_item =
  py_bi_state :: string
  py_bi_value :: "bytes option"

datatype py_response =
  PyOk
| PyHit bytes
| PyStale bytes
| PyMiss
| PyStored int
| PyDeleted bool
| PyInvalidated int
| PyLeaseGranted string "bytes option"
| PyLeaseDenied
| PyError error_code string
| PyBatchGetResult "py_batch_item list"

record py_response_frame =
  py_rs_request_id :: int
  py_rs_command :: command
  py_rs_payload :: py_response

section \<open>Writers\<close>

text \<open>\<open>int.to_bytes\<close> raises for a negative number and for one that needs more bytes;
  \<open>str.encode\<close> raises for a lone surrogate.\<close>

definition py_to_bytes :: "nat \<Rightarrow> int \<Rightarrow> bytes py_result" where
  "py_to_bytes n v = (if v < 0 \<or> v \<ge> 256 ^ n then Inl PyOverflowError else Inr (be_bytes n (nat v)))"

definition py_utf8_encode :: "string \<Rightarrow> bytes py_result" where
  "py_utf8_encode s =
     (if utf8_valid (string_bytes s) then Inr (string_bytes s) else Inl PyUnicodeEncodeError)"

text \<open>Operands of \<open>+\<close> and items of \<open>join\<close> are evaluated from left to right.\<close>

fun py_concat :: "bytes py_result list \<Rightarrow> bytes py_result" where
  "py_concat [] = Inr []"
| "py_concat (r # rs) = rbind r (\<lambda>bs. rbind (py_concat rs) (\<lambda>cs. Inr (bs @ cs)))"

definition py_u8 :: "int \<Rightarrow> bytes py_result" where "py_u8 v = py_to_bytes 1 v"

definition py_u16 :: "int \<Rightarrow> bytes py_result" where "py_u16 v = py_to_bytes 2 v"

definition py_u32 :: "int \<Rightarrow> bytes py_result" where "py_u32 v = py_to_bytes 4 v"

definition py_u64 :: "int \<Rightarrow> bytes py_result" where "py_u64 v = py_to_bytes 8 v"

definition py_bool :: "bool \<Rightarrow> bytes py_result" where "py_bool v = py_u8 (if v then 1 else 0)"

definition py_bytes :: "bytes \<Rightarrow> bytes py_result" where
  "py_bytes v = py_concat [py_u32 (int (length v)), Inr v]"

definition py_string :: "string \<Rightarrow> bytes py_result" where
  "py_string v = rbind (py_utf8_encode v) py_bytes"

fun py_ttl_or_0 :: "py_ttl option \<Rightarrow> int" where
  "py_ttl_or_0 (Some (PyTtl ms)) = ms"
| "py_ttl_or_0 None = 0"

definition py_metadata_bytes :: "py_metadata \<Rightarrow> bytes py_result" where
  "py_metadata_bytes md =
     py_concat ([py_u64 (py_ttl_or_0 (py_md_ttl md)), py_u64 (py_ttl_or_0 (py_md_stale_ttl md)),
       py_bool (py_md_cost md \<noteq> None), py_u64 (case py_md_cost md of None \<Rightarrow> 0 | Some c \<Rightarrow> c),
       py_u16 (int (length (py_md_tags md)))] @
       map py_string (py_md_tags md) @ [py_u8 (py_content_type_value (py_md_content_type md))])"

fun py_encode_request_payload :: "py_request \<Rightarrow> bytes py_result" where
  "py_encode_request_payload (PyGet ns key) = py_concat [py_string ns, py_bytes key]"
| "py_encode_request_payload (PyDelete ns key) = py_concat [py_string ns, py_bytes key]"
| "py_encode_request_payload (PyPut ns key md val) =
     py_concat [py_string ns, py_bytes key, py_metadata_bytes md, py_bytes val]"
| "py_encode_request_payload (PyBatchGet ns keys) =
     py_concat ([py_string ns, py_u32 (int (length keys))] @ map py_bytes keys)"
| "py_encode_request_payload (PyTagInvalidate ns tag) = py_concat [py_string ns, py_string tag]"
| "py_encode_request_payload (PyLeaseStart ns key ttl allow) =
     py_concat [py_string ns, py_bytes key, py_u64 ttl, py_u64 (case allow of None \<Rightarrow> 0 | Some v \<Rightarrow> v)]"
| "py_encode_request_payload (PyLeaseComplete ns key token md val) =
     py_concat [py_string ns, py_bytes key, py_string token, py_metadata_bytes md, py_bytes val]"

definition py_encode_batch_item :: "py_batch_item \<Rightarrow> bytes py_result" where
  "py_encode_batch_item item =
     (if py_bi_state item = ''hit''
      then (case py_bi_value item of None \<Rightarrow> Inl PyValueError | Some v \<Rightarrow> py_concat [py_u8 0x01, py_bytes v])
      else if py_bi_state item = ''stale''
      then (case py_bi_value item of None \<Rightarrow> Inl PyValueError | Some v \<Rightarrow> py_concat [py_u8 0x02, py_bytes v])
      else if py_bi_state item = ''miss'' then py_u8 0x03
      else Inl PyValueError)"

fun py_encode_response_payload :: "command \<Rightarrow> py_response \<Rightarrow> bytes py_result" where
  "py_encode_response_payload cmd (PyHit v) = py_concat [py_u8 0x01, py_bytes v]"
| "py_encode_response_payload cmd (PyStale v) = py_concat [py_u8 0x02, py_bytes v]"
| "py_encode_response_payload cmd PyMiss = py_u8 0x03"
| "py_encode_response_payload cmd (PyStored evicted) = py_concat [py_u8 0x04, py_u32 evicted]"
| "py_encode_response_payload cmd (PyDeleted removed) = py_concat [py_u8 0x05, py_bool removed]"
| "py_encode_response_payload cmd (PyInvalidated removed) = py_concat [py_u8 0x06, py_u32 removed]"
| "py_encode_response_payload cmd (PyLeaseGranted token stale) =
     py_concat [py_u8 0x07, py_string token, py_bool (stale \<noteq> None),
       (case stale of None \<Rightarrow> Inr [] | Some v \<Rightarrow> py_bytes v)]"
| "py_encode_response_payload cmd PyLeaseDenied = py_u8 0x08"
| "py_encode_response_payload cmd (PyError code message) =
     py_concat [py_u8 0xFF, py_u16 (py_error_code_value code), py_string message]"
| "py_encode_response_payload cmd (PyBatchGetResult items) =
     (if cmd \<noteq> CmdBatchGet then Inl PyValueError
      else py_concat ([py_u8 0x00, py_u32 (int (length items))] @ map py_encode_batch_item items))"
| "py_encode_response_payload cmd PyOk = py_u8 0x00"

definition py_MAGIC :: bytes where "py_MAGIC = string_bytes ''CBX1''"
definition py_VERSION :: int where "py_VERSION = 1"
definition py_HEADER_LEN :: nat where "py_HEADER_LEN = 24"
definition py_KIND_REQUEST :: int where "py_KIND_REQUEST = 0x00"
definition py_KIND_RESPONSE :: int where "py_KIND_RESPONSE = 0x01"

text \<open>The payload is an argument, so its exceptions come first.\<close>

definition py_encode_frame :: "int \<Rightarrow> command \<Rightarrow> int \<Rightarrow> bytes py_result \<Rightarrow> bytes py_result" where
  "py_encode_frame kind cmd request_id payload =
     rbind payload (\<lambda>bs.
       if \<not> (0 \<le> request_id \<and> request_id \<le> 2 ^ 64 - 1) then Inl PyValueError
       else if length bs > 2 ^ 32 - 1 then Inl PyValueError
       else py_concat [Inr py_MAGIC, py_u8 py_VERSION, py_u8 kind, py_u8 (py_command_value cmd), py_u8 0,
              py_u64 request_id, py_u32 (int (length bs)), py_u32 0, Inr bs])"

definition py_encode_request_frame :: "py_request_frame \<Rightarrow> bytes py_result" where
  "py_encode_request_frame f =
     py_encode_frame py_KIND_REQUEST (py_rq_command f) (py_rq_request_id f)
       (py_encode_request_payload (py_rq_payload f))"

definition py_encode_response_frame :: "py_response_frame \<Rightarrow> bytes py_result" where
  "py_encode_response_frame f =
     py_encode_frame py_KIND_RESPONSE (py_rs_command f) (py_rs_request_id f)
       (py_encode_response_payload (py_rs_command f) (py_rs_payload f))"

section \<open>The cursor\<close>

text \<open>The class \<open>_Cursor\<close> has the data and the offset, like its counterpart in Rust; running readers
  one after another is the order of the statements.\<close>

type_synonym 'a py_reader = "cursor \<Rightarrow> ('a \<times> cursor) py_result"

definition py_return :: "'a \<Rightarrow> 'a py_reader" where
  "py_return a c = Inr (a, c)"

definition py_raise :: "py_exception \<Rightarrow> 'a py_reader" where
  "py_raise err c = Inl err"

definition py_bind :: "'a py_reader \<Rightarrow> ('a \<Rightarrow> 'b py_reader) \<Rightarrow> 'b py_reader" where
  "py_bind rd f c = rbind (rd c) (\<lambda>(a, c1). f a c1)"

definition py_read_exact :: "nat \<Rightarrow> bytes py_reader" where
  "py_read_exact n c =
     (let stop = cu_offset c + n
      in if stop > length (cu_input c) then Inl PyInvalidPayload
         else Inr (take n (drop (cu_offset c) (cu_input c)), c\<lparr>cu_offset := stop\<rparr>))"

definition py_read_u8 :: "int py_reader" where
  "py_read_u8 = py_bind (py_read_exact 1) (\<lambda>bs. py_return (uint (bs ! 0)))"

definition py_read_u16 :: "int py_reader" where
  "py_read_u16 = py_bind (py_read_exact 2) (\<lambda>bs. py_return (int (from_be bs)))"

definition py_read_u32 :: "int py_reader" where
  "py_read_u32 = py_bind (py_read_exact 4) (\<lambda>bs. py_return (int (from_be bs)))"

definition py_read_u64 :: "int py_reader" where
  "py_read_u64 = py_bind (py_read_exact 8) (\<lambda>bs. py_return (int (from_be bs)))"

definition py_read_bool :: "bool py_reader" where
  "py_read_bool =
     py_bind py_read_u8 (\<lambda>v. if v = 0 then py_return False else if v = 1 then py_return True
                            else py_raise PyInvalidBool)"

definition py_read_bytes :: "bytes py_reader" where
  "py_read_bytes = py_bind py_read_u32 (\<lambda>n. py_read_exact (nat n))"

definition py_read_string :: "string py_reader" where
  "py_read_string =
     py_bind py_read_bytes (\<lambda>bs. if utf8_valid bs then py_return (bytes_string bs) else py_raise PyInvalidUtf8)"

definition py_expect_empty :: "cursor \<Rightarrow> unit py_result" where
  "py_expect_empty c =
     (let remaining = int (length (cu_input c)) - int (cu_offset c)
      in if remaining \<noteq> 0 then Inl PyTrailingBytes else Inr ())"

text \<open>Reading in a loop over a range.\<close>

fun py_read_many :: "nat \<Rightarrow> 'a py_reader \<Rightarrow> 'a list py_reader" where
  "py_read_many 0 rd = py_return []"
| "py_read_many (Suc n) rd = py_bind rd (\<lambda>a. py_bind (py_read_many n rd) (\<lambda>as. py_return (a # as)))"

section \<open>Fields\<close>

definition py_isascii :: "char \<Rightarrow> bool" where
  "py_isascii c \<longleftrightarrow> of_char c < (128 :: nat)"

text \<open>\<open>isalnum\<close> of an ASCII character; the callers ask \<open>isascii\<close> first.\<close>

definition py_isalnum :: "char \<Rightarrow> bool" where
  "py_isalnum c \<longleftrightarrow>
     (CHR ''0'' \<le> c \<and> c \<le> CHR ''9'') \<or> (CHR ''A'' \<le> c \<and> c \<le> CHR ''Z'') \<or> (CHR ''a'' \<le> c \<and> c \<le> CHR ''z'')"

definition py_NAMESPACE_CHARS :: "char list" where "py_NAMESPACE_CHARS = ''-_''"
definition py_TAG_CHARS :: "char list" where "py_TAG_CHARS = ''-_:/.''"

definition py_read_namespace :: "string py_reader" where
  "py_read_namespace =
     py_bind py_read_string (\<lambda>ns.
       if ns = [] \<or> \<not> list_all (\<lambda>c. py_isascii c \<and> (py_isalnum c \<or> c \<in> set py_NAMESPACE_CHARS)) ns
       then py_raise PyInvalidNamespace else py_return ns)"

definition py_read_tag :: "string py_reader" where
  "py_read_tag =
     py_bind py_read_string (\<lambda>tag.
       if tag = [] \<or> \<not> list_all (\<lambda>c. py_isascii c \<and> (py_isalnum c \<or> c \<in> set py_TAG_CHARS)) tag
       then py_raise PyInvalidTag else py_return tag)"

definition py_ignore_u64 :: "int option py_reader" where
  "py_ignore_u64 = py_bind py_read_u64 (\<lambda>_. py_return None)"

definition py_read_metadata :: "py_metadata py_reader" where
  "py_read_metadata =
     py_bind py_read_u64 (\<lambda>ttl_ms.
     py_bind py_read_u64 (\<lambda>stale_ttl_ms.
     py_bind (py_bind py_read_bool (\<lambda>has_cost.
       if has_cost then py_bind py_read_u64 (\<lambda>v. py_return (Some v)) else py_ignore_u64)) (\<lambda>cost.
     py_bind (py_bind py_read_u16 (\<lambda>n. py_read_many (nat n) py_read_tag)) (\<lambda>tags.
     py_bind py_read_u8 (\<lambda>ct.
       case py_ContentType ct of
         None \<Rightarrow> py_raise PyInvalidPayload
       | Some content_type \<Rightarrow> py_return
           \<lparr>py_md_ttl = (if ttl_ms \<noteq> 0 then Some (PyTtl ttl_ms) else None),
            py_md_stale_ttl = (if stale_ttl_ms \<noteq> 0 then Some (PyTtl stale_ttl_ms) else None),
            py_md_cost = cost, py_md_tags = tags, py_md_content_type = content_type\<rparr>)))))"

section \<open>Payloads\<close>

fun py_decode_request_payload :: "command \<Rightarrow> py_request py_reader" where
  "py_decode_request_payload CmdGet =
     py_bind py_read_namespace (\<lambda>ns. py_bind py_read_bytes (\<lambda>key. py_return (PyGet ns key)))"
| "py_decode_request_payload CmdPut =
     py_bind py_read_namespace (\<lambda>ns. py_bind py_read_bytes (\<lambda>key. py_bind py_read_metadata (\<lambda>md.
     py_bind py_read_bytes (\<lambda>val. py_return (PyPut ns key md val)))))"
| "py_decode_request_payload CmdDelete =
     py_bind py_read_namespace (\<lambda>ns. py_bind py_read_bytes (\<lambda>key. py_return (PyDelete ns key)))"
| "py_decode_request_payload CmdBatchGet =
     py_bind py_read_namespace (\<lambda>ns. py_bind py_read_u32 (\<lambda>key_count.
       if key_count = 0 then py_raise PyInvalidPayload
       else py_bind (py_read_many (nat key_count) py_read_bytes) (\<lambda>keys. py_return (PyBatchGet ns keys))))"
| "py_decode_request_payload CmdTagInvalidate =
     py_bind py_read_namespace (\<lambda>ns. py_bind py_read_tag (\<lambda>tag. py_return (PyTagInvalidate ns tag)))"
| "py_decode_request_payload CmdLeaseStart =
     py_bind py_read_namespace (\<lambda>ns. py_bind py_read_bytes (\<lambda>key. py_bind py_read_u64 (\<lambda>lease_ttl_ms.
       if lease_ttl_ms = 0 then py_raise PyInvalidPayload
       else py_bind py_read_u64 (\<lambda>allow_stale_ms.
         py_return (PyLeaseStart ns key lease_ttl_ms (if allow_stale_ms \<noteq> 0 then Some allow_stale_ms else None))))))"
| "py_decode_request_payload CmdLeaseComplete =
     py_bind py_read_namespace (\<lambda>ns. py_bind py_read_bytes (\<lambda>key. py_bind py_read_string (\<lambda>token.
       if token = [] then py_raise PyInvalidPayload
       else py_bind py_read_metadata (\<lambda>md. py_bind py_read_bytes (\<lambda>val.
         py_return (PyLeaseComplete ns key token md val))))))"

definition py_read_batch_item :: "py_batch_item py_reader" where
  "py_read_batch_item =
     py_bind py_read_u8 (\<lambda>item_status.
       if item_status = 0x01
       then py_bind py_read_bytes (\<lambda>v. py_return \<lparr>py_bi_state = ''hit'', py_bi_value = Some v\<rparr>)
       else if item_status = 0x02
       then py_bind py_read_bytes (\<lambda>v. py_return \<lparr>py_bi_state = ''stale'', py_bi_value = Some v\<rparr>)
       else if item_status = 0x03 then py_return \<lparr>py_bi_state = ''miss'', py_bi_value = None\<rparr>
       else py_raise PyInvalidPayload)"

definition py_decode_response_payload :: "command \<Rightarrow> py_response py_reader" where
  "py_decode_response_payload cmd =
     py_bind py_read_u8 (\<lambda>status.
       if status = 0x00 \<and> cmd = CmdBatchGet
       then py_bind py_read_u32 (\<lambda>n. py_bind (py_read_many (nat n) py_read_batch_item) (\<lambda>items.
              py_return (PyBatchGetResult items)))
       else if status = 0x00 then py_return PyOk
       else if status = 0x01 then py_bind py_read_bytes (\<lambda>v. py_return (PyHit v))
       else if status = 0x02 then py_bind py_read_bytes (\<lambda>v. py_return (PyStale v))
       else if status = 0x03 then py_return PyMiss
       else if status = 0x04 then py_bind py_read_u32 (\<lambda>n. py_return (PyStored n))
       else if status = 0x05 then py_bind py_read_bool (\<lambda>b. py_return (PyDeleted b))
       else if status = 0x06 then py_bind py_read_u32 (\<lambda>n. py_return (PyInvalidated n))
       else if status = 0x07
       then py_bind py_read_string (\<lambda>lease_token.
            py_bind (py_bind py_read_bool (\<lambda>b. if b then py_bind py_read_bytes (\<lambda>v. py_return (Some v))
              else py_return None)) (\<lambda>stale_value. py_return (PyLeaseGranted lease_token stale_value)))
       else if status = 0x08 then py_return PyLeaseDenied
       else if status = 0xFF
       then py_bind py_read_u16 (\<lambda>v. case py_ErrorCode v of
              None \<Rightarrow> py_raise PyInvalidPayload
            | Some code \<Rightarrow> py_bind py_read_string (\<lambda>message. py_return (PyError code message)))
       else py_raise PyInvalidPayload)"

section \<open>Frames\<close>

record py_header =
  py_hd_command :: command
  py_hd_request_id :: int
  py_hd_payload_len :: int

definition py_decode_header :: "bytes \<Rightarrow> int \<Rightarrow> int \<Rightarrow> py_header py_result" where
  "py_decode_header frame expected_kind max_payload_len =
     (if length frame < py_HEADER_LEN then Inl PyIncompleteHeader
      else if take 4 frame \<noteq> py_MAGIC then Inl PyBadMagic
      else if uint (frame ! 4) \<noteq> py_VERSION then Inl PyUnsupportedVersion
      else if uint (frame ! 5) \<noteq> expected_kind then Inl PyInvalidKind
      else case py_Command (uint (frame ! 6)) of
        None \<Rightarrow> Inl PyUnknownCommand
      | Some cmd \<Rightarrow>
          if uint (frame ! 7) \<noteq> 0 then Inl PyNonzeroFlags
          else
           (let request_id = int (from_be (take 8 (drop 8 frame)));
                payload_len = int (from_be (take 4 (drop 16 frame)))
            in if payload_len > max_payload_len then Inl PyFrameTooLarge
               else if int (from_be (take 4 (drop 20 frame))) \<noteq> 0 then Inl PyNonzeroReserved
               else Inr \<lparr>py_hd_command = cmd, py_hd_request_id = request_id, py_hd_payload_len = payload_len\<rparr>))"

definition py_decode_request_frame :: "bytes \<Rightarrow> int \<Rightarrow> py_request_frame py_result" where
  "py_decode_request_frame frame max_payload_len =
     rbind (py_decode_header frame py_KIND_REQUEST max_payload_len) (\<lambda>hd.
       let payload_end = py_HEADER_LEN + nat (py_hd_payload_len hd)
       in if length frame < payload_end then Inl PyTruncatedPayload
          else
           (let c = cursor_new (take (payload_end - py_HEADER_LEN) (drop py_HEADER_LEN frame))
            in rbind (py_decode_request_payload (py_hd_command hd) c) (\<lambda>(payload, c1).
               rbind (py_expect_empty c1) (\<lambda>_.
                 Inr \<lparr>py_rq_request_id = py_hd_request_id hd, py_rq_command = py_hd_command hd,
                      py_rq_payload = payload\<rparr>))))"

definition py_decode_response_frame :: "bytes \<Rightarrow> int \<Rightarrow> py_response_frame py_result" where
  "py_decode_response_frame frame max_payload_len =
     rbind (py_decode_header frame py_KIND_RESPONSE max_payload_len) (\<lambda>hd.
       let payload_end = py_HEADER_LEN + nat (py_hd_payload_len hd)
       in if length frame < payload_end then Inl PyTruncatedPayload
          else
           (let c = cursor_new (take (payload_end - py_HEADER_LEN) (drop py_HEADER_LEN frame))
            in rbind (py_decode_response_payload (py_hd_command hd) c) (\<lambda>(payload, c1).
               rbind (py_expect_empty c1) (\<lambda>_.
                 Inr \<lparr>py_rs_request_id = py_hd_request_id hd, py_rs_command = py_hd_command hd,
                      py_rs_payload = payload\<rparr>))))"

end
