(* ===== verification/Py_Client.thy ===== *)
theory Py_Client
  imports Py_Protocol
begin

text \<open>
  The clients of the Python package (clients/python/python/cachebox/client.py and async_client.py).
  A client owns one socket and its request identifiers. The operating system answers through the record
  \<open>py_socket\<close>: what arrives after a frame was sent, and how much of it each receive returns, or
  which exception it raises. Bytes that arrived and were not received stay in the socket, so that a
  later call finds them. The two clients differ in what they do after a failure.
\<close>

section \<open>Sockets\<close>

datatype recv_outcome = RecvChunk nat | RecvRaises py_exception

record py_socket =
  sk_sendall :: "bytes \<Rightarrow> bytes py_result"
  sk_recv :: "nat \<Rightarrow> bytes \<Rightarrow> recv_outcome"

text \<open>A receive returns at most the number of bytes asked for; no bytes is the end of the stream.\<close>

definition py_recv :: "py_socket \<Rightarrow> nat \<Rightarrow> bytes \<Rightarrow> bytes py_result" where
  "py_recv sk n stream =
     (case sk_recv sk n stream of
        RecvRaises err \<Rightarrow> Inl err
      | RecvChunk k \<Rightarrow> Inr (take (min k n) stream))"

text \<open>Receiving until the number of bytes is there; the exception for the end of the stream is that of the
  caller: \<open>ConnectionClosed\<close> in the synchronous client, the incomplete read of the standard
  library in the other one. What is left in the socket is returned too.\<close>

function py_recv_exactly :: "py_socket \<Rightarrow> py_exception \<Rightarrow> nat \<Rightarrow> bytes \<Rightarrow> bytes \<Rightarrow> bytes py_result \<times> bytes" where
  "py_recv_exactly sk at_eof n chunks stream =
     (if length chunks < n
      then (case py_recv sk (n - length chunks) stream of
              Inl err \<Rightarrow> (Inl err, stream)
            | Inr chunk \<Rightarrow>
                if chunk = [] then (Inl at_eof, stream)
                else py_recv_exactly sk at_eof n (chunks @ chunk) (drop (length chunk) stream))
      else (Inr chunks, stream))"
  by pat_completeness auto
termination
  by (relation "measure (\<lambda>(sk, at_eof, n, chunks, stream). n - length chunks)") (auto simp: neq_Nil_conv)

declare py_recv_exactly.simps [simp del]

definition py_read_response ::
  "py_socket \<Rightarrow> py_exception \<Rightarrow> int \<Rightarrow> bytes \<Rightarrow> py_response_frame py_result \<times> bytes" where
  "py_read_response sk at_eof max_len stream =
     (case py_recv_exactly sk at_eof py_HEADER_LEN [] stream of
        (Inl err, left) \<Rightarrow> (Inl err, left)
      | (Inr head, left) \<Rightarrow>
          let payload_len = from_be (take 4 (drop 16 head))
          in case py_recv_exactly sk at_eof payload_len [] left of
               (Inl err, left1) \<Rightarrow> (Inl err, left1)
             | (Inr payload, left1) \<Rightarrow> (py_decode_response_frame (head @ payload) max_len, left1))"

section \<open>Clients\<close>

record py_client =
  pyc_unread :: bytes
  pyc_max_payload_len :: int
  pyc_next_request_id :: int
  pyc_closed :: bool

type_synonym 'a py_call = "py_client \<Rightarrow> 'a py_result \<times> py_client"

definition py_client_new :: "int \<Rightarrow> py_client" where
  "py_client_new max_len =
     \<lparr>pyc_unread = [], pyc_max_payload_len = max_len, pyc_next_request_id = 1, pyc_closed = False\<rparr>"

definition py_close :: "py_client \<Rightarrow> py_client" where
  "py_close c = c\<lparr>pyc_closed := True\<rparr>"

definition py_next_id :: "py_client \<Rightarrow> int \<times> py_client" where
  "py_next_id c =
     (let request_id = pyc_next_request_id c;
          following = request_id + 1
      in (request_id, c\<lparr>pyc_next_request_id := if following > 2 ^ 64 - 1 then 1 else following\<rparr>))"

text \<open>What both clients do with a response they could read.\<close>

definition py_accept :: "int \<Rightarrow> command \<Rightarrow> py_response_frame \<Rightarrow> py_response py_result" where
  "py_accept request_id cmd resp =
     (if py_rs_request_id resp \<noteq> request_id \<or> py_rs_command resp \<noteq> cmd then Inl PyUnexpectedResponse
      else case py_rs_payload resp of
        PyError code message \<Rightarrow> Inl (PyServerError code message)
      | payload \<Rightarrow> Inr payload)"

text \<open>A request of \<open>Client\<close>: an exception leaves the connection as it is. Sending on a socket that was
  closed raises.\<close>

definition py_client_request :: "py_socket \<Rightarrow> command \<Rightarrow> py_request \<Rightarrow> py_response py_call" where
  "py_client_request sk cmd payload c =
     (let (request_id, c1) = py_next_id c
      in case py_encode_request_frame
                \<lparr>py_rq_request_id = request_id, py_rq_command = cmd, py_rq_payload = payload\<rparr> of
           Inl err \<Rightarrow> (Inl err, c1)
         | Inr out \<Rightarrow>
             if pyc_closed c1 then (Inl PyOSError, c1)
             else case sk_sendall sk out of
               Inl err \<Rightarrow> (Inl err, c1)
             | Inr arriving \<Rightarrow>
                 let (r, left) = py_read_response sk PyConnectionClosed (pyc_max_payload_len c1)
                       (pyc_unread c1 @ arriving)
                 in (rbind r (py_accept request_id cmd), c1\<lparr>pyc_unread := left\<rparr>))"

text \<open>A request of \<open>AsyncClient\<close>: cancellation closes the connection, and so do the exceptions of the
  transport, which are reported as a closed connection. Time-outs of the system are such exceptions.\<close>

definition py_transport_error :: "py_exception \<Rightarrow> bool" where
  "py_transport_error err \<longleftrightarrow> err \<in> {PyOSError, PyTimeoutError, PyIncompleteReadError}"

definition py_async_failure :: "py_exception \<Rightarrow> py_client \<Rightarrow> 'a py_result \<times> py_client" where
  "py_async_failure err c =
     (if err = PyCancelledError then (Inl PyCancelledError, py_close c)
      else if py_transport_error err then (Inl PyConnectionClosed, py_close c)
      else (Inl err, c))"

definition py_async_request :: "py_socket \<Rightarrow> command \<Rightarrow> py_request \<Rightarrow> py_response py_call" where
  "py_async_request sk cmd payload c =
     (if pyc_closed c then (Inl PyConnectionClosed, c)
      else let (request_id, c1) = py_next_id c
      in case py_encode_request_frame
                \<lparr>py_rq_request_id = request_id, py_rq_command = cmd, py_rq_payload = payload\<rparr> of
           Inl err \<Rightarrow> (Inl err, c1)
         | Inr out \<Rightarrow>
             case sk_sendall sk out of
               Inl err \<Rightarrow> py_async_failure err c1
             | Inr arriving \<Rightarrow>
                 let (r, left) = py_read_response sk PyIncompleteReadError (pyc_max_payload_len c1)
                       (pyc_unread c1 @ arriving);
                     c2 = c1\<lparr>pyc_unread := left\<rparr>
                 in case r of
                      Inl err \<Rightarrow> py_async_failure err c2
                    | Inr resp \<Rightarrow> (py_accept request_id cmd resp, c2))"

section \<open>Operations\<close>

text \<open>The operations are the same in both clients; they take the request function of the client.\<close>

type_synonym py_requester = "command \<Rightarrow> py_request \<Rightarrow> py_response py_call"

definition py_then :: "(py_response \<Rightarrow> 'a py_result) \<Rightarrow> py_response py_call \<Rightarrow> 'a py_call" where
  "py_then f call c = (let (r, c1) = call c in (rbind r f, c1))"

definition py_metadata_or_default :: "py_metadata option \<Rightarrow> py_metadata" where
  "py_metadata_or_default md = (case md of None \<Rightarrow> py_metadata_default | Some m \<Rightarrow> m)"

definition py_get :: "py_requester \<Rightarrow> string \<Rightarrow> bytes \<Rightarrow> py_response py_call" where
  "py_get req ns key =
     py_then (\<lambda>p. case p of PyHit v \<Rightarrow> Inr p | PyStale v \<Rightarrow> Inr p | PyMiss \<Rightarrow> Inr p | _ \<Rightarrow> Inl PyUnexpectedResponse)
       (req CmdGet (PyGet ns key))"

definition py_put :: "py_requester \<Rightarrow> string \<Rightarrow> bytes \<Rightarrow> bytes \<Rightarrow> py_metadata option \<Rightarrow> int py_call" where
  "py_put req ns key val md =
     py_then (\<lambda>p. case p of PyStored evicted \<Rightarrow> Inr evicted | _ \<Rightarrow> Inl PyUnexpectedResponse)
       (req CmdPut (PyPut ns key (py_metadata_or_default md) val))"

definition py_delete :: "py_requester \<Rightarrow> string \<Rightarrow> bytes \<Rightarrow> bool py_call" where
  "py_delete req ns key =
     py_then (\<lambda>p. case p of PyDeleted removed \<Rightarrow> Inr removed | _ \<Rightarrow> Inl PyUnexpectedResponse)
       (req CmdDelete (PyDelete ns key))"

definition py_batch_get :: "py_requester \<Rightarrow> string \<Rightarrow> bytes list \<Rightarrow> py_batch_item list py_call" where
  "py_batch_get req ns keys =
     py_then (\<lambda>p. case p of PyBatchGetResult items \<Rightarrow> Inr items | _ \<Rightarrow> Inl PyUnexpectedResponse)
       (req CmdBatchGet (PyBatchGet ns keys))"

definition py_invalidate_tag :: "py_requester \<Rightarrow> string \<Rightarrow> string \<Rightarrow> int py_call" where
  "py_invalidate_tag req ns tag =
     py_then (\<lambda>p. case p of PyInvalidated removed \<Rightarrow> Inr removed | _ \<Rightarrow> Inl PyUnexpectedResponse)
       (req CmdTagInvalidate (PyTagInvalidate ns tag))"

definition py_start_lease :: "py_requester \<Rightarrow> string \<Rightarrow> bytes \<Rightarrow> int \<Rightarrow> int option \<Rightarrow> py_response py_call" where
  "py_start_lease req ns key ttl allow =
     py_then (\<lambda>p. case p of PyHit v \<Rightarrow> Inr p | PyStale v \<Rightarrow> Inr p | PyLeaseGranted token stale \<Rightarrow> Inr p
        | PyLeaseDenied \<Rightarrow> Inr p | _ \<Rightarrow> Inl PyUnexpectedResponse)
       (req CmdLeaseStart (PyLeaseStart ns key ttl allow))"

definition py_complete_lease ::
  "py_requester \<Rightarrow> string \<Rightarrow> bytes \<Rightarrow> string \<Rightarrow> bytes \<Rightarrow> py_metadata option \<Rightarrow> int py_call" where
  "py_complete_lease req ns key token val md =
     py_then (\<lambda>p. case p of PyStored evicted \<Rightarrow> Inr evicted | _ \<Rightarrow> Inl PyUnexpectedResponse)
       (req CmdLeaseComplete (PyLeaseComplete ns key token (py_metadata_or_default md) val))"

end
