(* ===== verification/Py_Protocol_Props.thy ===== *)
theory Py_Protocol_Props
  imports Py_Protocol Protocol_Props
begin

text \<open>
  The two implementations of the protocol agree: the decoders of the Python client accept the frames
  that the decoders of the server's language accept and read the same contents, and the encoders write the
  same bytes. The agreement of two readers is carried field by field through the payloads.
\<close>

section \<open>Corresponding values\<close>

fun py_error_of :: "decode_error \<Rightarrow> py_exception" where
  "py_error_of IncompleteHeader = PyIncompleteHeader"
| "py_error_of BadMagic = PyBadMagic"
| "py_error_of (UnsupportedVersion v) = PyUnsupportedVersion"
| "py_error_of (InvalidKind v) = PyInvalidKind"
| "py_error_of (UnknownCommand v) = PyUnknownCommand"
| "py_error_of (NonzeroFlags v) = PyNonzeroFlags"
| "py_error_of (NonzeroReserved v) = PyNonzeroReserved"
| "py_error_of (FrameTooLarge a b) = PyFrameTooLarge"
| "py_error_of (TruncatedPayload a b) = PyTruncatedPayload"
| "py_error_of (InvalidPayload msg) = PyInvalidPayload"
| "py_error_of InvalidUtf8 = PyInvalidUtf8"
| "py_error_of InvalidNamespace = PyInvalidNamespace"
| "py_error_of InvalidTag = PyInvalidTag"
| "py_error_of (InvalidBool v) = PyInvalidBool"
| "py_error_of (TrailingBytes n) = PyTrailingBytes"

definition py_ttl_of :: "ttl \<Rightarrow> py_ttl" where
  "py_ttl_of t = PyTtl (uint (milliseconds t))"

definition py_metadata_of :: "metadata \<Rightarrow> py_metadata" where
  "py_metadata_of md =
     \<lparr>py_md_ttl = map_option py_ttl_of (md_ttl md), py_md_stale_ttl = map_option py_ttl_of (md_stale_ttl md),
      py_md_cost = map_option uint (md_cost md), py_md_tags = md_tags md,
      py_md_content_type = md_content_type md\<rparr>"

fun py_request_of :: "request_payload \<Rightarrow> py_request" where
  "py_request_of (ReqGet ns key) = PyGet ns key"
| "py_request_of (ReqPut ns key md val) = PyPut ns key (py_metadata_of md) val"
| "py_request_of (ReqDelete ns key) = PyDelete ns key"
| "py_request_of (ReqBatchGet ns keys) = PyBatchGet ns keys"
| "py_request_of (ReqTagInvalidate ns tag) = PyTagInvalidate ns tag"
| "py_request_of (ReqLeaseStart ns key ttl allow) = PyLeaseStart ns key (uint ttl) (map_option uint allow)"
| "py_request_of (ReqLeaseComplete ns key token md val) = PyLeaseComplete ns key token (py_metadata_of md) val"

fun py_item_of :: "batch_item \<Rightarrow> py_batch_item" where
  "py_item_of (ItemHit v) = \<lparr>py_bi_state = ''hit'', py_bi_value = Some v\<rparr>"
| "py_item_of (ItemStale v) = \<lparr>py_bi_state = ''stale'', py_bi_value = Some v\<rparr>"
| "py_item_of ItemMiss = \<lparr>py_bi_state = ''miss'', py_bi_value = None\<rparr>"

fun py_response_of :: "response_payload \<Rightarrow> py_response" where
  "py_response_of RespOk = PyOk"
| "py_response_of (RespHit v) = PyHit v"
| "py_response_of (RespStale v) = PyStale v"
| "py_response_of RespMiss = PyMiss"
| "py_response_of (RespStored n) = PyStored (uint n)"
| "py_response_of (RespDeleted b) = PyDeleted b"
| "py_response_of (RespInvalidated n) = PyInvalidated (uint n)"
| "py_response_of (RespLeaseGranted token stale) = PyLeaseGranted token stale"
| "py_response_of RespLeaseDenied = PyLeaseDenied"
| "py_response_of (RespError code msg) = PyError code msg"
| "py_response_of (RespBatchGet items) = PyBatchGetResult (map py_item_of items)"

definition py_request_frame_of :: "request_frame \<Rightarrow> py_request_frame" where
  "py_request_frame_of f =
     \<lparr>py_rq_request_id = uint (rq_request_id f), py_rq_command = rq_command f,
      py_rq_payload = py_request_of (rq_payload f)\<rparr>"

definition py_response_frame_of :: "response_frame \<Rightarrow> py_response_frame" where
  "py_response_frame_of f =
     \<lparr>py_rs_request_id = uint (rs_request_id f), py_rs_command = rs_command f,
      py_rs_payload = py_response_of (rs_payload f)\<rparr>"

section \<open>Agreement of readers\<close>

definition agree :: "'b py_reader \<Rightarrow> 'a reader \<Rightarrow> ('a \<Rightarrow> 'b) \<Rightarrow> bool" where
  "agree prd rd conv \<longleftrightarrow>
     (\<forall>c. cursor_ok c \<longrightarrow> prd c = map_sum py_error_of (map_prod conv (\<lambda>c. c)) (rd c))"

named_theorems agree_intros \<open>readers of the two implementations that agree\<close>

lemma agreeD: "agree prd rd conv \<Longrightarrow> cursor_ok c \<Longrightarrow> prd c = map_sum py_error_of (map_prod conv (\<lambda>c. c)) (rd c)"
  by (simp add: agree_def)

lemma agree_return [agree_intros]: "conv a = b \<Longrightarrow> agree (py_return b) (rd_return a) conv"
  by (simp add: agree_def py_return_def rd_return_def)

lemma agree_raise [agree_intros]: "py_error_of e = x \<Longrightarrow> agree (py_raise x) (rd_fail e) conv"
  by (simp add: agree_def py_raise_def rd_fail_def)

lemma agree_bind:
  assumes "agree p r f" "sound r ok" "\<And>a. ok a \<Longrightarrow> agree (k (f a)) (l a) g"
  shows "agree (py_bind p k) (rd_bind r l) g"
  unfolding agree_def
proof (intro allI impI)
  fix c :: cursor
  assume c: "cursor_ok c"
  show "py_bind p k c = map_sum py_error_of (map_prod g (\<lambda>c. c)) (rd_bind r l c)"
  proof (cases "r c")
    case (Inl e)
    then show ?thesis
      using agreeD [OF assms(1) c] by (simp add: py_bind_def rd_bind_def rbind_def)
  next
    case (Inr x)
    moreover obtain a c1 where "x = (a, c1)"
      by (cases x)
    moreover have "ok a" "cursor_ok c1"
      using assms(2) c calculation unfolding sound_def by blast+
    ultimately show ?thesis
      using agreeD [OF assms(1) c] agreeD [OF assms(3), of a c1] by (simp add: py_bind_def rd_bind_def rbind_def)
  qed
qed

lemma agree_if [agree_intros]:
  "P = Q \<Longrightarrow> (Q \<Longrightarrow> agree p r f) \<Longrightarrow> (\<not> Q \<Longrightarrow> agree p' r' f) \<Longrightarrow> agree (if P then p else p') (if Q then r else r') f"
  by simp

lemma agree_many:
  assumes "agree p r f" "sound r ok"
  shows "agree (py_read_many n p) (read_many n r) (map f)"
proof (induction n)
  case (Suc n)
  have "sound (read_many n r) (\<lambda>_. True)"
    by (induction n) (auto intro!: sound_intros sound_bind [OF assms(2)] sound_bind)
  then show ?case
    by (auto intro!: agree_bind [OF assms] agree_bind [OF Suc.IH] agree_intros)
qed (simp add: agree_return)

section \<open>Fields\<close>

lemma agree_exact [agree_intros]: "agree (py_read_exact n) (read_exact n) (\<lambda>bs. bs)"
  by (auto simp: agree_def py_read_exact_def read_exact_def Let_def cursor_ok_def)

lemma agree_u8 [agree_intros]: "agree py_read_u8 read_u8 uint"
  by (auto simp: agree_def py_read_u8_def py_bind_def py_read_exact_def read_u8_def Let_def rbind_def py_return_def
      cursor_ok_def)

lemma agree_be:
  assumes "n = LENGTH('a) div 8" "LENGTH('a) = 8 * n"
  shows "agree (py_bind (py_read_exact n) (\<lambda>bs. py_return (int (from_be bs))))
    (rd_bind (read_exact n) (\<lambda>bs. rd_return (word_of_nat (from_be bs) :: 'a::len word))) uint"
proof (rule agree_bind [OF agree_exact sound_exact])
  fix bs :: bytes
  assume "length bs = n"
  then have "from_be bs < 2 ^ LENGTH('a)"
    using from_be_less [of bs] assms(2) by (simp add: power_mult)
  then show "agree (py_return (int (from_be bs))) (rd_return (word_of_nat (from_be bs) :: 'a word)) uint"
    by (intro agree_return) (simp add: uint_nat unat_of_nat)
qed

lemma agree_ints [agree_intros]:
  "agree py_read_u16 read_u16 uint" "agree py_read_u32 read_u32 uint" "agree py_read_u64 read_u64 uint"
  unfolding py_read_u16_def read_u16_def py_read_u32_def read_u32_def py_read_u64_def read_u64_def
  by (rule agree_be; simp)+

lemma uint_word_eq: "0 \<le> k \<Longrightarrow> k < 2 ^ LENGTH('a) \<Longrightarrow> uint w = k \<longleftrightarrow> w = word_of_int k" for w :: "'a::len word"
  by (metis mod_pos_pos_trivial uint_word_of_int word_of_int_uint)

lemma uint_u8_eq [simp]:
  "uint (w :: u8) = 0 \<longleftrightarrow> w = 0" "uint (w :: u8) = 1 \<longleftrightarrow> w = 1" "uint (w :: u8) = 2 \<longleftrightarrow> w = 2"
  "uint (w :: u8) = 3 \<longleftrightarrow> w = 3" "uint (w :: u8) = 4 \<longleftrightarrow> w = 4" "uint (w :: u8) = 5 \<longleftrightarrow> w = 5"
  "uint (w :: u8) = 6 \<longleftrightarrow> w = 6" "uint (w :: u8) = 7 \<longleftrightarrow> w = 7" "uint (w :: u8) = 8 \<longleftrightarrow> w = 8"
  "uint (w :: u8) = 255 \<longleftrightarrow> w = 255"
  by (simp_all add: uint_word_eq)

lemma agree_bool [agree_intros]: "agree py_read_bool read_bool (\<lambda>b. b)"
  unfolding py_read_bool_def read_bool_def
  by (rule agree_bind [OF agree_u8 sound_u8]) (auto intro!: agree_intros)

lemma agree_bytes [agree_intros]: "agree py_read_bytes read_bytes (\<lambda>bs. bs)"
  unfolding py_read_bytes_def read_bytes_def
  by (rule agree_bind [OF agree_ints(2) u32.sound_rd]) (simp add: agree_exact)

lemma agree_string [agree_intros]: "agree py_read_string read_string (\<lambda>s. s)"
  unfolding py_read_string_def read_string_def
  by (rule agree_bind [OF agree_bytes bytes.sound_rd]) (auto intro!: agree_intros)

text \<open>The two ways to say which characters a namespace and a tag may have.\<close>

lemma char_range:
  "a \<le> c \<longleftrightarrow> (word_of_nat (of_char a) :: u8) \<le> word_of_nat (of_char c)" for a c :: char
  by (simp add: less_eq_char_def word_le_nat_alt unat_of_nat)

lemma char_eq_byte: "c = a \<longleftrightarrow> (word_of_nat (of_char c) :: u8) = word_of_nat (of_char a)" for a c :: char
  by (auto dest!: arg_cong [where f = unat] simp: unat_of_nat)

lemma alnum_bytes: "py_isalnum c \<longleftrightarrow> is_ascii_alphanumeric (word_of_nat (of_char c))"
  by (simp add: py_isalnum_def is_ascii_alphanumeric_def char_range)

lemma ascii_byte: "py_isascii c \<longleftrightarrow> (word_of_nat (of_char c) :: u8) < 0x80"
  by (simp add: py_isascii_def word_less_nat_alt unat_of_nat)

lemma namespace_chars:
  "ns \<noteq> [] \<and> list_all (\<lambda>c. py_isascii c \<and> (py_isalnum c \<or> c \<in> set py_NAMESPACE_CHARS)) ns \<longleftrightarrow>
   is_valid_namespace ns"
  unfolding is_valid_namespace_def string_bytes_def list.pred_map comp_def
  by (intro conj_cong refl arg_cong [where f = "\<lambda>P. list_all P ns"] ext)
    (auto simp: alnum_bytes ascii_byte py_NAMESPACE_CHARS_def char_eq_byte dest: alphanumeric_ascii)

lemma tag_chars:
  "tag \<noteq> [] \<and> list_all (\<lambda>c. py_isascii c \<and> (py_isalnum c \<or> c \<in> set py_TAG_CHARS)) tag \<longleftrightarrow> is_valid_tag tag"
  unfolding is_valid_tag_def string_bytes_def list.pred_map comp_def
  by (intro conj_cong refl arg_cong [where f = "\<lambda>P. list_all P tag"] ext)
    (auto simp: alnum_bytes ascii_byte py_TAG_CHARS_def char_eq_byte dest: alphanumeric_ascii)

lemma agree_namespace [agree_intros]: "agree py_read_namespace read_namespace (\<lambda>s. s)"
  unfolding py_read_namespace_def read_namespace_def
  by (rule agree_bind [OF agree_string str.sound_rd])
    (auto intro!: agree_intros simp flip: namespace_chars)

lemma agree_tag [agree_intros]: "agree py_read_tag read_tag (\<lambda>s. s)"
  unfolding py_read_tag_def read_tag_def
  by (rule agree_bind [OF agree_string str.sound_rd]) (auto intro!: agree_intros simp flip: tag_chars)

section \<open>Payloads\<close>

lemma py_bind_assoc: "py_bind (py_bind m f) g = py_bind m (\<lambda>a. py_bind (f a) g)"
  by (auto simp: py_bind_def rbind_def split: sum.split)

lemma py_bind_return [simp]: "py_bind (py_return a) f = f a"
  by (rule ext) (simp add: py_bind_def py_return_def rbind_def)

lemma rd_bind_return [simp]: "rd_bind (rd_return a) f = f a"
  by (rule ext) (simp add: rd_bind_def rd_return_def rbind_def)

lemma py_bind_if: "py_bind (if b then p else q) f = (if b then py_bind p f else py_bind q f)"
  by simp

lemmas agree_field =
  agree_bind [OF agree_namespace namespace.sound_rd] agree_bind [OF agree_bytes bytes.sound_rd]
  agree_bind [OF agree_tag tag.sound_rd] agree_bind [OF agree_string str.sound_rd]
  agree_bind [OF agree_bool bool.sound_rd] agree_bind [OF agree_u8 sound_u8]
  agree_bind [OF agree_ints(1) u16.sound_rd] agree_bind [OF agree_ints(2) u32.sound_rd]
  agree_bind [OF agree_ints(3) u64.sound_rd]
  agree_bind [OF agree_many [OF agree_tag tag.sound_rd] tag.sound_many]
  agree_bind [OF agree_many [OF agree_bytes bytes.sound_rd] bytes.sound_many]

lemma uint_eq_iff: "uint v = uint w \<longleftrightarrow> v = w" for v w :: "'a::len word"
  by (metis word_of_int_uint)

lemma uint_zero_iff: "uint w = 0 \<longleftrightarrow> w = 0" for w :: "'a::len word"
  by (simp add: uint_0_iff)

lemma agree_content_type:
  "agree (case py_ContentType (uint ct) of None \<Rightarrow> py_raise PyInvalidPayload | Some t \<Rightarrow> py_return (f t))
     (if ct = 0 then rd_return a else if ct = 1 then rd_return b else rd_fail (InvalidPayload msg)) conv"
  if "conv a = f OctetStream" "conv b = f OtherContent" for ct :: u8
  using that by (auto simp: py_ContentType_def intro!: agree_intros)

lemma agree_cost:
  "(\<And>w. agree (k (if b then Some (uint w) else None)) (l w) g) \<Longrightarrow>
   agree (if b then py_bind py_read_u64 (\<lambda>v. k (Some v)) else py_bind py_read_u64 (\<lambda>_. k None)) (rd_bind read_u64 l) g"
  by (auto intro!: agree_bind [OF agree_ints(3) u64.sound_rd])

lemma agree_metadata [agree_intros]: "agree py_read_metadata read_metadata py_metadata_of"
  unfolding py_read_metadata_def read_metadata_def py_bind_assoc py_bind_if py_ignore_u64_def py_bind_return Let_def
  apply (rule agree_field, rule agree_field, rule agree_field, rule agree_cost, rule agree_field)
  apply (unfold unat_eq_nat_uint [symmetric])
  apply (rule agree_field, rule agree_field, rule agree_content_type)
  apply (simp_all add: py_metadata_of_def py_ttl_of_def uint_zero_iff)
  done

lemma rd_bind_assoc: "rd_bind (rd_bind m f) g = rd_bind m (\<lambda>a. rd_bind (f a) g)"
  by (auto simp: rd_bind_def rbind_def split: sum.split)

lemma rd_bind_if: "rd_bind (if b then p else q) f = (if b then rd_bind p f else rd_bind q f)"
  by simp

lemma rd_bind_fail: "rd_bind (rd_fail e) f = rd_fail e"
  by (rule ext) (simp add: rd_bind_def rd_fail_def rbind_def)

lemma agree_lease_times:
  "agree (py_bind py_read_u64 (\<lambda>ttl. if ttl = 0 then py_raise PyInvalidPayload
       else py_bind py_read_u64 (\<lambda>allow. py_return (PyLeaseStart ns key ttl (if allow \<noteq> 0 then Some allow else None)))))
     (rd_bind read_lease_times (\<lambda>(ttl, allow). rd_return (ReqLeaseStart ns key ttl allow))) py_request_of"
  unfolding read_lease_times_def rd_bind_assoc rd_bind_if rd_bind_fail rd_bind_return prod.case
  by (intro agree_field agree_if) (auto intro!: agree_intros simp: uint_zero_iff)

lemma agree_request: "agree (py_decode_request_payload cmd) (decode_request_payload cmd) py_request_of"
proof (cases cmd)
  case CmdBatchGet
  then show ?thesis
    unfolding CmdBatchGet py_decode_request_payload.simps decode_request_payload.simps
    by (intro agree_field agree_if) (auto intro!: agree_intros agree_field simp: uint_zero_iff simp flip: unat_eq_nat_uint)
next
  case CmdPut
  show ?thesis
    unfolding CmdPut py_decode_request_payload.simps decode_request_payload.simps
    by (intro agree_field agree_bind [OF agree_metadata metadata.sound_rd] agree_return) simp
next
  case CmdLeaseComplete
  show ?thesis
    unfolding CmdLeaseComplete py_decode_request_payload.simps decode_request_payload.simps
    by (intro agree_field agree_if agree_bind [OF agree_metadata metadata.sound_rd] agree_return agree_raise) simp_all
next
  case CmdLeaseStart
  show ?thesis
    unfolding CmdLeaseStart py_decode_request_payload.simps decode_request_payload.simps
    by (intro agree_field agree_lease_times)
qed (auto intro!: agree_field agree_return)

lemma agree_item: "agree py_read_batch_item read_batch_item py_item_of"
  unfolding py_read_batch_item_def read_batch_item_def
  by (intro agree_field agree_if) (auto intro!: agree_intros agree_field)

lemma error_code_agrees: "py_ErrorCode (uint v) = (case error_code_from_id v of Inl e \<Rightarrow> None | Inr code \<Rightarrow> Some code)"
  by (simp add: py_ErrorCode_def error_code_from_id_def uint_word_eq)

lemma agree_error_code:
  "(\<And>code. agree (k code) (l code) g) \<Longrightarrow>
   agree (case py_ErrorCode (uint v) of None \<Rightarrow> py_raise PyInvalidPayload | Some code \<Rightarrow> k code)
     (rd_bind (rd_lift (error_code_from_id v)) l) g"
proof -
  assume k: "\<And>code. agree (k code) (l code) g"
  have "e = InvalidPayload ''unknown error code''" if "error_code_from_id v = Inl e" for e
    using that by (auto simp: error_code_from_id_def split: if_splits)
  then show ?thesis
    by (cases "error_code_from_id v") (auto simp: error_code_agrees rd_lift_def rd_bind_fail k intro!: agree_raise)
qed

lemma agree_response: "agree (py_decode_response_payload cmd) (decode_response_payload cmd) py_response_of"
  unfolding py_decode_response_payload_def decode_response_payload_def py_bind_assoc py_bind_if py_bind_return
  by (intro agree_field agree_if agree_error_code agree_return agree_raise)
    (auto simp flip: unat_eq_nat_uint intro!: agree_return
      agree_bind [OF agree_many [OF agree_item item.sound_rd] item.sound_many])

section \<open>Frames\<close>

lemma command_agrees: "py_Command (uint v) = (case command_from_id v of Inl e \<Rightarrow> None | Inr cmd \<Rightarrow> Some cmd)"
  by (simp add: py_Command_def command_from_id_def)

lemma py_constants:
  "py_MAGIC = MAGIC" "py_VERSION = uint VERSION" "py_HEADER_LEN = HEADER_LEN"
  "py_KIND_REQUEST = uint KIND_REQUEST" "py_KIND_RESPONSE = uint KIND_RESPONSE"
  by (simp_all add: py_MAGIC_def MAGIC_def string_bytes_def py_VERSION_def VERSION_def py_HEADER_LEN_def HEADER_LEN_def
      py_KIND_REQUEST_def KIND_REQUEST_def py_KIND_RESPONSE_def KIND_RESPONSE_def)

lemma agree_expect_empty:
  "cursor_ok c \<Longrightarrow> py_expect_empty c = map_sum py_error_of (\<lambda>u. u) (expect_empty c)"
  by (auto simp: py_expect_empty_def expect_empty_def cursor_ok_def Let_def)

text \<open>The header: the Python decoder looks the command up first, the other one last.\<close>

lemma from_be_u32: "length bs = 4 \<Longrightarrow> (word_of_nat (from_be bs) :: u32) = 0 \<longleftrightarrow> from_be bs = 0"
  using from_be_less [of bs] by (auto simp: word_of_nat_eq_0_iff dest: nat_dvd_not_less)

lemma from_be_u64: "length bs = 8 \<Longrightarrow> uint (word_of_nat (from_be bs) :: u64) = int (from_be bs)"
  using from_be_less [of bs] by (simp add: uint_nat unat_of_nat)

definition known_command :: "bytes \<Rightarrow> bool" where
  "known_command frame \<longleftrightarrow> HEADER_LEN \<le> length frame \<and> py_Command (uint (frame ! 6)) \<noteq> None"

lemma header_agrees:
  assumes "known_command frame" "command_from_id (frame ! 6) = Inr cmd"
  shows "py_decode_header frame (uint kind) (int max_len) =
    map_sum py_error_of (\<lambda>hd. \<lparr>py_hd_command = cmd, py_hd_request_id = uint (hd_request_id hd),
      py_hd_payload_len = int (hd_payload_len hd)\<rparr>) (decode_header frame max_len kind)"
proof -
  have len: "length (take 8 (drop 8 frame)) = 8" "length (take 4 (drop 20 frame)) = 4"
    using assms(1) by (auto simp: known_command_def HEADER_LEN_def)
  show ?thesis
    using assms(2) from_be_u32 [OF len(2)] from_be_u64 [OF len(1)]
    by (auto simp: py_decode_header_def decode_header_def py_constants command_agrees Let_def uint_eq_iff)
qed

lemma frame_agrees:
  assumes known: "known_command frame"
    and agree: "\<And>cmd. agree (prd cmd) (rd cmd) g" and sound: "\<And>cmd. sound (rd cmd) (ok cmd)"
    and conv: "\<And>rid cmd p. conv (mk rid cmd p) = pmk (uint rid) cmd (g p)"
  shows "rbind (py_decode_header frame (uint kind) (int m)) (\<lambda>hd.
      let payload_end = HEADER_LEN + nat (py_hd_payload_len hd)
      in if length frame < payload_end then Inl PyTruncatedPayload
         else let c = cursor_new (take (payload_end - HEADER_LEN) (drop HEADER_LEN frame))
           in rbind (prd (py_hd_command hd) c) (\<lambda>(p, c1). rbind (py_expect_empty c1) (\<lambda>_.
                Inr (pmk (py_hd_request_id hd) (py_hd_command hd) p)))) =
    map_sum py_error_of conv (rbind (decode_frame_start frame m kind) (\<lambda>(rid, cmd, c).
      rbind (rd cmd c) (\<lambda>(p, c1). rbind (expect_empty c1) (\<lambda>_. Inr (mk rid cmd p)))))"
proof -
  obtain cmd where cmd: "command_from_id (frame ! 6) = Inr cmd"
    using known by (auto simp: known_command_def command_agrees split: sum.splits)
  note hd = header_agrees [OF known cmd, of kind m]
  show ?thesis
  proof (cases "decode_header frame m kind")
    case (Inl e)
    then show ?thesis
      by (simp add: hd decode_frame_start_def rbind_def)
  next
    case (Inr h)
    then have h6: "hd_command h = frame ! 6" and short: "hd_payload_len h < 2 ^ 32"
      using from_be_less [of "take 4 (drop 16 frame)"]
      by (auto simp: decode_header_def Let_def HEADER_LEN_def split: if_splits)
    let ?c = "cursor_new (take (hd_payload_len h) (drop HEADER_LEN frame))"
    have c: "cursor_ok ?c"
      using short by (simp add: cursor_new_ok)
    have "cursor_ok c1" if "rd cmd ?c = Inr (p, c1)" for p c1
      using sound c that unfolding sound_def by blast
    then show ?thesis
      using Inr h6 cmd agreeD [OF agree c, of cmd] agree_expect_empty
      by (cases "rd cmd ?c") (auto simp: hd decode_frame_start_def rbind_def conv Let_def split: sum.split)
  qed
qed

lemma unknown_command_rejected:
  assumes "\<not> known_command frame"
  shows "isl (py_decode_header frame kind m)" "isl (decode_frame_start frame n k)"
proof -
  show "isl (py_decode_header frame kind m)"
    using assms by (auto simp: known_command_def py_decode_header_def py_constants split: option.split)
  show "isl (decode_frame_start frame n k)"
  proof (cases "decode_header frame n k")
    case (Inr h)
    then have "HEADER_LEN \<le> length frame" "hd_command h = frame ! 6"
      by (auto simp: decode_header_def Let_def split: if_splits)
    then show ?thesis
      using assms Inr by (auto simp: known_command_def command_agrees decode_frame_start_def rbind_def Let_def
          split: sum.splits)
  qed (simp add: decode_frame_start_def rbind_def)
qed

lemma isl_rbind: "isl r \<Longrightarrow> isl (rbind r f)"
  by (cases r) (simp_all add: rbind_def)

lemma unknown_frames_rejected:
  assumes "\<not> known_command frame"
  shows "isl (py_decode_request_frame frame n)" "isl (decode_request_frame frame m)"
    "isl (py_decode_response_frame frame n)" "isl (decode_response_frame frame m)"
  using unknown_command_rejected [OF assms]
  by (simp_all add: py_decode_request_frame_def decode_request_frame_def py_decode_response_frame_def
      decode_response_frame_def isl_rbind)

lemma request_frames_agree:
  "known_command frame \<Longrightarrow>
   py_decode_request_frame frame (int m) = map_sum py_error_of py_request_frame_of (decode_request_frame frame m)"
  unfolding py_decode_request_frame_def decode_request_frame_def py_constants
  by (rule frame_agrees [OF _ agree_request request.sound_rd]) (simp_all add: py_request_frame_of_def)

lemma response_frames_agree:
  "known_command frame \<Longrightarrow>
   py_decode_response_frame frame (int m) = map_sum py_error_of py_response_frame_of (decode_response_frame frame m)"
  unfolding py_decode_response_frame_def decode_response_frame_def py_constants
  by (rule frame_agrees [OF _ agree_response response.sound_rd]) (simp_all add: py_response_frame_of_def)

text \<open>C36. The decoders of the Python client and of the server's crate are the same function: on any
  bytes and any limit, when the command byte is a known command both return the same frame or the same
  kind of error, and otherwise both refuse the bytes.\<close>

theorem py_decoders_agree:
  "if known_command frame
   then py_decode_request_frame frame (int m) =
          map_sum py_error_of py_request_frame_of (decode_request_frame frame m) \<and>
        py_decode_response_frame frame (int m) =
          map_sum py_error_of py_response_frame_of (decode_response_frame frame m)
   else isl (py_decode_request_frame frame (int m)) \<and> isl (decode_request_frame frame m) \<and>
        isl (py_decode_response_frame frame (int m)) \<and> isl (decode_response_frame frame m)"
  by (simp add: request_frames_agree response_frames_agree unknown_frames_rejected)

section \<open>Encoders\<close>

text \<open>What the Python encoder can write: texts without lone surrogates, lengths of 32 bits, and of
  16 bits for the tags.\<close>

definition metadata_writable :: "metadata \<Rightarrow> bool" where
  "metadata_writable md \<longleftrightarrow> length (md_tags md) < 2 ^ 16 \<and> list_all rust_string (md_tags md)"

fun writable :: "request_payload \<Rightarrow> bool" where
  "writable (ReqGet ns key) = (rust_string ns \<and> short key)"
| "writable (ReqPut ns key md val) = (rust_string ns \<and> short key \<and> metadata_writable md \<and> short val)"
| "writable (ReqDelete ns key) = (rust_string ns \<and> short key)"
| "writable (ReqBatchGet ns keys) = (rust_string ns \<and> length keys < 2 ^ 32 \<and> list_all short keys)"
| "writable (ReqTagInvalidate ns tag) = (rust_string ns \<and> rust_string tag)"
| "writable (ReqLeaseStart ns key ttl allow) = (rust_string ns \<and> short key)"
| "writable (ReqLeaseComplete ns key token md val) =
     (rust_string ns \<and> short key \<and> rust_string token \<and> metadata_writable md \<and> short val)"

lemma py_concat_iff [simp]:
  "py_concat (r # rs) = Inr bs \<longleftrightarrow> (\<exists>x y. r = Inr x \<and> py_concat rs = Inr y \<and> bs = x @ y)"
  by (auto simp: rbind_eq_Inr_iff)

declare py_concat.simps(2) [simp del]

lemma py_concat_append: "py_concat (rs @ ss) = Inr bs \<longleftrightarrow>
    (\<exists>x y. py_concat rs = Inr x \<and> py_concat ss = Inr y \<and> bs = x @ y)"
  by (induction rs arbitrary: bs) auto

lemma py_concat_map:
  assumes "\<And>a bs. w a = Inr bs \<longleftrightarrow> ok a \<and> bs = wr a"
  shows "py_concat (map w as) = Inr bs \<longleftrightarrow> list_all ok as \<and> bs = concat (map wr as)"
  using assms by (induction as arbitrary: bs) auto

lemma py_to_bytes_iff:
  "LENGTH('a) = 8 * n \<Longrightarrow>
   py_to_bytes n v = Inr bs \<longleftrightarrow> (\<exists>w :: 'a::len word. v = uint w \<and> bs = be_bytes n (unat w))"
proof -
  assume n: "LENGTH('a) = 8 * n"
  have pow: "(256::int) ^ n = 2 ^ LENGTH('a)"
    by (simp add: n power_mult)
  show ?thesis
  proof
    assume "py_to_bytes n v = Inr bs"
    then have v: "0 \<le> v" "v < 2 ^ LENGTH('a)" and bs: "bs = be_bytes n (nat v)"
      by (auto simp: py_to_bytes_def pow split: if_splits)
    then have u: "uint (word_of_int v :: 'a word) = v"
      by (simp add: uint_word_of_int)
    show "\<exists>w :: 'a word. v = uint w \<and> bs = be_bytes n (unat w)"
      by (rule exI [of _ "word_of_int v"]) (simp add: u bs unat_eq_nat_uint)
  next
    assume "\<exists>w :: 'a word. v = uint w \<and> bs = be_bytes n (unat w)"
    then obtain w :: "'a word" where w: "v = uint w" "bs = be_bytes n (unat w)"
      by blast
    have "uint w < 256 ^ n"
      unfolding pow by (rule uint_lt2p)
    then show "py_to_bytes n v = Inr bs"
      by (simp add: py_to_bytes_def w not_le)
  qed
qed

lemma py_ints_iff:
  "py_u8 v = Inr bs \<longleftrightarrow> (\<exists>w :: u8. v = uint w \<and> bs = [w])"
  "py_u16 v = Inr bs \<longleftrightarrow> (\<exists>w. v = uint w \<and> bs = write_u16 w)"
  "py_u32 v = Inr bs \<longleftrightarrow> (\<exists>w. v = uint w \<and> bs = write_u32 w)"
  "py_u64 v = Inr bs \<longleftrightarrow> (\<exists>w. v = uint w \<and> bs = write_u64 w)"
proof -
  have "be_bytes 1 (unat w) = [w]" for w :: u8
    using unsigned_less [of w, where ?'a = nat] by simp
  then show "py_u8 v = Inr bs \<longleftrightarrow> (\<exists>w :: u8. v = uint w \<and> bs = [w])"
    using py_to_bytes_iff [where ?'a = 8 and n = 1] by (simp add: py_u8_def)
qed (simp_all add: py_u16_def py_u32_def py_u64_def write_u16_def write_u32_def write_u64_def
    py_to_bytes_iff [where ?'a = 16 and n = 2] py_to_bytes_iff [where ?'a = 32 and n = 4]
    py_to_bytes_iff [where ?'a = 64 and n = 8])

lemma int_eq_uint_iff: "int n = uint w \<longleftrightarrow> n < 2 ^ LENGTH('a) \<and> w = word_of_nat n" for w :: "'a::len word"
proof
  assume "int n = uint w"
  then have "n = nat (uint w)"
    by linarith
  then have "n = unat w"
    by simp
  then show "n < 2 ^ LENGTH('a) \<and> w = word_of_nat n"
    using unsigned_less [of w, where ?'a = nat] by simp
qed (auto simp: unsigned_of_nat take_bit_nat_eq_self)

lemma py_length_iff:
  "py_u32 (int n) = Inr bs \<longleftrightarrow> n < 2 ^ 32 \<and> bs = write_u32 (word_of_nat n)"
  "py_u16 (int n) = Inr bs \<longleftrightarrow> n < 2 ^ 16 \<and> bs = write_u16 (word_of_nat n)"
  by (auto simp: py_ints_iff int_eq_uint_iff)

lemma py_bool_iff: "py_bool b = Inr bs \<longleftrightarrow> bs = write_bool b"
  by (auto simp: py_bool_def py_u8_def py_to_bytes_def write_bool_def)

lemma py_bytes_iff: "py_bytes v = Inr bs \<longleftrightarrow> short v \<and> bs = write_bytes v"
  by (auto simp: py_bytes_def py_length_iff short_def write_bytes_def)

lemma py_string_iff: "py_string s = Inr bs \<longleftrightarrow> rust_string s \<and> bs = write_string s"
  by (auto simp: py_string_def rbind_eq_Inr_iff py_utf8_encode_def py_bytes_iff rust_string_def write_string_def)

lemma ex_ttl: "(\<exists>t. P t) \<longleftrightarrow> (\<exists>w. P (Ttl w))"
  by (metis ttl.exhaust)

lemma py_ttl_iff:
  "py_u64 (py_ttl_or_0 t) = Inr bs \<longleftrightarrow>
   (\<exists>u. t = map_option py_ttl_of u \<and> bs = write_u64 (case u of None \<Rightarrow> 0 | Some x \<Rightarrow> milliseconds x))"
proof (cases t)
  case None
  then show ?thesis
    by (auto simp: py_ints_iff uint_zero_iff intro!: exI [of _ 0] dest: sym)
next
  case (Some p)
  obtain ms where "p = PyTtl ms"
    by (cases p)
  then show ?thesis
    using Some by (simp add: py_ints_iff py_ttl_of_def split_option_ex ex_ttl)
qed

lemma py_option_iff:
  "py_u64 (case v of None \<Rightarrow> 0 | Some c \<Rightarrow> c) = Inr bs \<longleftrightarrow>
   (\<exists>u. v = map_option uint u \<and> bs = write_u64 (case u of None \<Rightarrow> 0 | Some x \<Rightarrow> x))"
proof (cases v)
  case None
  then show ?thesis
    by (auto simp: py_ints_iff uint_zero_iff intro!: exI [of _ 0] dest: sym)
next
  case (Some n)
  then show ?thesis
    by (simp add: py_ints_iff split_option_ex)
qed

lemma py_content_type_iff:
  "py_u8 (py_content_type_value t) = Inr bs \<longleftrightarrow> bs = [case t of OctetStream \<Rightarrow> 0 | OtherContent \<Rightarrow> 1]"
  by (cases t) (simp_all add: py_u8_def py_to_bytes_def eq_commute)

lemma py_written:
  "py_u64 (py_ttl_or_0 (map_option py_ttl_of u)) = Inr (write_u64 (case u of None \<Rightarrow> 0 | Some x \<Rightarrow> milliseconds x))"
  "py_u64 (case map_option uint v of None \<Rightarrow> 0 | Some c \<Rightarrow> c) = Inr (write_u64 (case v of None \<Rightarrow> 0 | Some x \<Rightarrow> x))"
  "py_bool b = Inr (write_bool b)" "py_u64 (uint w) = Inr (write_u64 w)"
  "n < 2 ^ 16 \<Longrightarrow> py_u16 (int n) = Inr (write_u16 (word_of_nat n))"
  "n < 2 ^ 32 \<Longrightarrow> py_u32 (int n) = Inr (write_u32 (word_of_nat n))"
  "py_u8 (py_content_type_value t) = Inr [case t of OctetStream \<Rightarrow> 0 | OtherContent \<Rightarrow> 1]"
  "short val \<Longrightarrow> py_bytes val = Inr (write_bytes val)" "rust_string s \<Longrightarrow> py_string s = Inr (write_string s)"
  by (cases u; auto simp: py_ints_iff(4) py_ttl_of_def intro: exI [of _ 0])
    (cases v; auto simp: py_bool_iff py_length_iff py_content_type_iff py_bytes_iff py_string_iff py_ints_iff(4)
      intro: exI [of _ 0])+

lemma py_concat_split:
  "py_concat (rs @ ss) = rbind (py_concat rs) (\<lambda>bs. rbind (py_concat ss) (\<lambda>cs. Inr (bs @ cs)))"
  by (induction rs) (auto simp: py_concat.simps(2) rbind_def split: sum.split)

lemma py_metadata_iff:
  "py_metadata_bytes pmd = Inr bs \<longleftrightarrow> (\<exists>md. pmd = py_metadata_of md \<and> metadata_writable md \<and> bs = write_metadata md)"
proof
  assume "py_metadata_bytes pmd = Inr bs"
  then obtain t s c where *: "py_md_ttl pmd = map_option py_ttl_of t" "py_md_stale_ttl pmd = map_option py_ttl_of s"
      "py_md_cost pmd = map_option uint c" "length (py_md_tags pmd) < 2 ^ 16" "list_all rust_string (py_md_tags pmd)"
      "bs = write_u64 (case t of None \<Rightarrow> 0 | Some x \<Rightarrow> milliseconds x) @
        write_u64 (case s of None \<Rightarrow> 0 | Some x \<Rightarrow> milliseconds x) @
        write_bool (py_md_cost pmd \<noteq> None) @ write_u64 (case c of None \<Rightarrow> 0 | Some x \<Rightarrow> x) @
        write_u16 (word_of_nat (length (py_md_tags pmd))) @ concat (map write_string (py_md_tags pmd)) @
        [case py_md_content_type pmd of OctetStream \<Rightarrow> 0 | OtherContent \<Rightarrow> 1]"
    by (auto simp: py_metadata_bytes_def py_ttl_iff py_option_iff py_bool_iff py_length_iff py_concat_append
        py_concat_map [OF py_string_iff] py_content_type_iff)
  show "\<exists>md. pmd = py_metadata_of md \<and> metadata_writable md \<and> bs = write_metadata md"
    by (rule exI [of _ "\<lparr>md_ttl = t, md_stale_ttl = s, md_cost = c, md_tags = py_md_tags pmd,
        md_content_type = py_md_content_type pmd\<rparr>"])
      (use * in \<open>simp add: py_metadata_of_def metadata_writable_def write_metadata_def\<close>)
next
  assume "\<exists>md. pmd = py_metadata_of md \<and> metadata_writable md \<and> bs = write_metadata md"
  then obtain md where md: "pmd = py_metadata_of md" "metadata_writable md" "bs = write_metadata md"
    by blast
  have tags: "py_concat (map py_string (md_tags md)) = Inr (concat (map write_string (md_tags md)))"
    using md(2) by (subst py_concat_map [OF py_string_iff]) (simp add: metadata_writable_def)
  show "py_metadata_bytes pmd = Inr bs"
    using md by (simp add: py_metadata_bytes_def py_metadata_of_def metadata_writable_def write_metadata_def
        py_concat.simps(2) py_written py_concat_split tags rbind_def
        del: case_map_option)
qed

lemmas py_writers_iff =
  py_string_iff py_bytes_iff py_metadata_iff py_length_iff py_option_iff py_bool_iff py_concat_append
  py_concat_map [OF py_bytes_iff]

lemma py_written_metadata: "metadata_writable md \<Longrightarrow> py_metadata_bytes (py_metadata_of md) = Inr (write_metadata md)"
  by (auto simp: py_metadata_iff)

lemma py_written_keys: "list_all short keys \<Longrightarrow> py_concat (map py_bytes keys) = Inr (concat (map write_bytes keys))"
  by (auto simp: py_concat_map [OF py_bytes_iff])

lemma py_request_written:
  "writable p \<Longrightarrow> py_encode_request_payload (py_request_of p) = Inr (encode_request_payload p)"
  by (cases p) (auto simp: py_concat.simps(2) py_written rbind_def py_written_metadata py_written_keys
      simp del: case_map_option)

lemma py_request_writable:
  assumes "py_encode_request_payload q = Inr bs"
  shows "\<exists>p. q = py_request_of p \<and> writable p"
proof (cases q)
  case (PyGet ns key)
  then show ?thesis
    using assms by (intro exI [of _ "ReqGet ns key"]) (auto simp: py_writers_iff)
next
  case (PyPut ns key pmd val)
  then obtain md where "pmd = py_metadata_of md" "writable (ReqPut ns key md val)"
    using assms by (auto simp: py_writers_iff)
  then show ?thesis
    using PyPut by (intro exI [of _ "ReqPut ns key md val"]) simp
next
  case (PyDelete ns key)
  then show ?thesis
    using assms by (intro exI [of _ "ReqDelete ns key"]) (auto simp: py_writers_iff)
next
  case (PyBatchGet ns keys)
  then show ?thesis
    using assms by (intro exI [of _ "ReqBatchGet ns keys"]) (auto simp: py_writers_iff)
next
  case (PyTagInvalidate ns tag)
  then show ?thesis
    using assms by (intro exI [of _ "ReqTagInvalidate ns tag"]) (auto simp: py_writers_iff)
next
  case (PyLeaseStart ns key ttl allow)
  then obtain x y where "py_u64 ttl = Inr x" "py_u64 (case allow of None \<Rightarrow> 0 | Some v \<Rightarrow> v) = Inr y"
      "rust_string ns" "short key"
    using assms by (auto simp: py_string_iff py_bytes_iff)
  then obtain w :: u64 and u :: "u64 option" where "ttl = uint w" "allow = map_option uint u" "rust_string ns" "short key"
    using py_ints_iff(4) [of ttl x] py_option_iff [of allow y] by blast
  then show ?thesis
    using PyLeaseStart by (intro exI [of _ "ReqLeaseStart ns key w u"]) simp
next
  case (PyLeaseComplete ns key token pmd val)
  then obtain md where "pmd = py_metadata_of md" "writable (ReqLeaseComplete ns key token md val)"
    using assms by (auto simp: py_writers_iff)
  then show ?thesis
    using PyLeaseComplete by (intro exI [of _ "ReqLeaseComplete ns key token md val"]) simp
qed

lemma command_byte: "py_u8 (py_command_value cmd) = Inr bs \<longleftrightarrow> bs = [command_id cmd]"
  by (cases cmd) (auto simp: py_u8_def py_to_bytes_def)

lemma py_frame_iff:
  "py_encode_frame (uint kind) cmd rid (Inr bs) = Inr out \<longleftrightarrow>
   (\<exists>w. rid = uint w \<and> encode_frame_into kind cmd w bs (\<lambda>bs. bs) = Some out)"
proof -
  have id: "0 \<le> rid \<and> rid \<le> 2 ^ 64 - 1 \<longleftrightarrow> (\<exists>w :: u64. rid = uint w)"
  proof
    assume r: "0 \<le> rid \<and> rid \<le> 2 ^ 64 - 1"
    have "rid = uint (word_of_int rid :: u64)"
      using r by (simp add: uint_word_of_int)
    then show "\<exists>w :: u64. rid = uint w" ..
  next
    assume "\<exists>w :: u64. rid = uint w"
    then obtain w :: u64 where "rid = uint w" ..
    then show "0 \<le> rid \<and> rid \<le> 2 ^ 64 - 1"
      using uint_lt2p [of w] by simp
  qed
  have const: "py_u8 (uint b) = Inr x \<longleftrightarrow> x = [b]" "py_u8 py_VERSION = Inr x \<longleftrightarrow> x = [VERSION]"
    "py_u8 0 = Inr x \<longleftrightarrow> x = [0]" "py_u32 0 = Inr x \<longleftrightarrow> x = write_u32 0" for b x
    by (auto simp: py_constants py_ints_iff uint_eq_iff uint_zero_iff eq_commute [of 0])
  show ?thesis
    unfolding py_encode_frame_def encode_frame_into_eq id
    by (auto simp: rbind_def const command_byte py_length_iff py_ints_iff(4) py_constants uint_eq_iff)
qed

lemma encode_frame_payload:
  "encode_frame_into kind cmd w (enc p) (\<lambda>bs. bs) = encode_frame_into kind cmd w p enc"
  by (simp add: encode_frame_into_eq)

lemma py_request_frame_written:
  "encode_request_frame f = Some out \<Longrightarrow> writable (rq_payload f) \<Longrightarrow>
   py_encode_request_frame (py_request_frame_of f) = Inr out"
  by (auto simp: py_encode_request_frame_def py_request_frame_of_def py_request_written py_constants py_frame_iff
      encode_frame_payload encode_request_frame_def)

text \<open>C37. The Python encoder writes exactly the frames that the server's crate writes: it returns bytes for
  a request frame just when that frame stands for one of the crate whose texts are valid and whose
  lengths and counts fit their fields, and the bytes are the same. Every other request raises, where the
  encoder of the crate would truncate a count.\<close>

theorem py_encoder_agrees:
  "py_encode_request_frame g = Inr out \<longleftrightarrow>
     (\<exists>f. g = py_request_frame_of f \<and> writable (rq_payload f) \<and> encode_request_frame f = Some out)"
proof
  assume enc: "py_encode_request_frame g = Inr out"
  then obtain bs where bs: "py_encode_request_payload (py_rq_payload g) = Inr bs"
    by (cases "py_encode_request_payload (py_rq_payload g)")
      (simp_all add: py_encode_request_frame_def py_encode_frame_def rbind_def)
  then obtain p where p: "py_rq_payload g = py_request_of p" "writable p"
    using py_request_writable by blast
  then have "bs = encode_request_payload p"
    using bs py_request_written by simp
  then obtain w where "py_rq_request_id g = uint w"
      "encode_frame_into KIND_REQUEST (py_rq_command g) w p encode_request_payload = Some out"
    using enc bs by (auto simp: py_encode_request_frame_def py_constants py_frame_iff encode_frame_payload)
  then show "\<exists>f. g = py_request_frame_of f \<and> writable (rq_payload f) \<and> encode_request_frame f = Some out"
    using p by (intro exI [of _ "\<lparr>rq_request_id = w, rq_command = py_rq_command g, rq_payload = p\<rparr>"])
      (simp add: py_request_frame_of_def encode_request_frame_def)
qed (auto intro: py_request_frame_written)

end
