(* ===== verification/Client.thy ===== *)
theory Client
  imports Server_Props
begin

text \<open>
  The Rust client (clients/rust/cachebox-client/src/lib.rs): request identifiers, the exchange of
  one request, the typed operations on top of it, and the matcher that brings the responses of
  pipelined requests back into order. The socket is a function from the bytes written to the bytes
  that can be read; a read beyond them is the I/O error of a closed connection.
\<close>

section \<open>Results\<close>

datatype client_error =
    ClientIo
  | ClientDecode decode_error
  | ClientServer error_code string
  | UnexpectedResponse string

datatype get_result = GetHit bytes | GetStale bytes | GetMiss

definition get_result_of :: "response_payload \<Rightarrow> client_error + get_result" where
  "get_result_of p =
     (case p of
        RespHit v \<Rightarrow> Inr (GetHit v)
      | RespStale v \<Rightarrow> Inr (GetStale v)
      | RespMiss \<Rightarrow> Inr GetMiss
      | _ \<Rightarrow> Inl (UnexpectedResponse ''get did not return hit, stale, or miss''))"

fun get_result_of_item :: "batch_item \<Rightarrow> get_result" where
  "get_result_of_item (ItemHit v) = GetHit v"
| "get_result_of_item (ItemStale v) = GetStale v"
| "get_result_of_item ItemMiss = GetMiss"

datatype lease_start_result =
    LeaseHit bytes
  | LeaseStale bytes
  | LeaseGranted string "bytes option"
  | LeaseDenied

definition lease_start_result_of :: "response_payload \<Rightarrow> client_error + lease_start_result" where
  "lease_start_result_of p =
     (case p of
        RespHit v \<Rightarrow> Inr (LeaseHit v)
      | RespStale v \<Rightarrow> Inr (LeaseStale v)
      | RespLeaseGranted token stale \<Rightarrow> Inr (LeaseGranted token stale)
      | RespLeaseDenied \<Rightarrow> Inr LeaseDenied
      | _ \<Rightarrow> Inl (UnexpectedResponse ''lease start did not return a lease state''))"

section \<open>One request\<close>

record native_client =
  next_request_id :: u64
  max_payload_len :: usize

definition client_connect :: native_client where
  "client_connect = \<lparr>next_request_id = 1, max_payload_len = usize_max\<rparr>"

definition set_max_payload_len :: "usize \<Rightarrow> native_client \<Rightarrow> native_client" where
  "set_max_payload_len n c = c\<lparr>max_payload_len := n\<rparr>"

definition id_after :: "u64 \<Rightarrow> u64" where
  "id_after i = max (i + 1) 1"

text \<open>Reading a header and then the payload it announces; the rest of the stream is returned.\<close>

definition read_response_frame :: "usize \<Rightarrow> bytes \<Rightarrow> (client_error + response_frame) \<times> bytes" where
  "read_response_frame max_len stream =
     (if length stream < HEADER_LEN then (Inl ClientIo, [])
      else
       (let payload_len = from_be (take 4 (drop 16 stream))
        in if length stream < HEADER_LEN + payload_len then (Inl ClientIo, [])
           else
            (case decode_response_frame (take (HEADER_LEN + payload_len) stream) max_len of
               Inl err \<Rightarrow> Inl (ClientDecode err)
             | Inr resp \<Rightarrow> Inr resp,
             drop (HEADER_LEN + payload_len) stream)))"

definition accept_payload :: "response_payload \<Rightarrow> client_error + response_payload" where
  "accept_payload p = (case p of RespError code msg \<Rightarrow> Inl (ClientServer code msg) | _ \<Rightarrow> Inr p)"

text \<open>\<open>None\<close> is the panic of the encoder on a payload beyond \<open>u32\<close>.\<close>

definition client_request ::
  "(bytes \<Rightarrow> bytes) \<Rightarrow> command \<Rightarrow> request_payload \<Rightarrow> native_client \<Rightarrow>
     ((client_error + response_payload) \<times> native_client) option" where
  "client_request socket cmd payload c =
     (let request_id = next_request_id c;
          c1 = c\<lparr>next_request_id := id_after request_id\<rparr>
      in map_option (\<lambda>out.
           (rbind (fst (read_response_frame (max_payload_len c) (socket out))) (\<lambda>resp.
              if rs_request_id resp \<noteq> request_id \<or> rs_command resp \<noteq> cmd
              then Inl (UnexpectedResponse ''response header mismatch'')
              else accept_payload (rs_payload resp)),
            c1))
         (encode_request_frame \<lparr>rq_request_id = request_id, rq_command = cmd, rq_payload = payload\<rparr>))"

type_synonym 'a client_call = "native_client \<Rightarrow> ((client_error + 'a) \<times> native_client) option"

text \<open>What an operation does with the payload of its response.\<close>

definition client_then ::
  "(response_payload \<Rightarrow> client_error + 'a) \<Rightarrow> response_payload client_call \<Rightarrow> 'a client_call" where
  "client_then f call c = map_option (\<lambda>(r, c1). (rbind r f, c1)) (call c)"

definition client_get_raw :: "(bytes \<Rightarrow> bytes) \<Rightarrow> string \<Rightarrow> bytes \<Rightarrow> response_payload client_call" where
  "client_get_raw socket ns key = client_request socket CmdGet (ReqGet ns key)"

definition client_get :: "(bytes \<Rightarrow> bytes) \<Rightarrow> string \<Rightarrow> bytes \<Rightarrow> get_result client_call" where
  "client_get socket ns key = client_then get_result_of (client_get_raw socket ns key)"

definition client_put ::
  "(bytes \<Rightarrow> bytes) \<Rightarrow> string \<Rightarrow> bytes \<Rightarrow> metadata \<Rightarrow> bytes \<Rightarrow> u32 client_call" where
  "client_put socket ns key md val =
     client_then (\<lambda>p. case p of RespStored evicted \<Rightarrow> Inr evicted
        | _ \<Rightarrow> Inl (UnexpectedResponse ''put did not return stored''))
       (client_request socket CmdPut (ReqPut ns key md val))"

definition client_delete :: "(bytes \<Rightarrow> bytes) \<Rightarrow> string \<Rightarrow> bytes \<Rightarrow> bool client_call" where
  "client_delete socket ns key =
     client_then (\<lambda>p. case p of RespDeleted removed \<Rightarrow> Inr removed
        | _ \<Rightarrow> Inl (UnexpectedResponse ''delete did not return deleted''))
       (client_request socket CmdDelete (ReqDelete ns key))"

definition client_batch_get_raw ::
  "(bytes \<Rightarrow> bytes) \<Rightarrow> string \<Rightarrow> bytes list \<Rightarrow> batch_item list client_call" where
  "client_batch_get_raw socket ns keys =
     client_then (\<lambda>p. case p of RespBatchGet items \<Rightarrow> Inr items
        | _ \<Rightarrow> Inl (UnexpectedResponse ''batch get did not return batch''))
       (client_request socket CmdBatchGet (ReqBatchGet ns keys))"

definition client_batch_get ::
  "(bytes \<Rightarrow> bytes) \<Rightarrow> string \<Rightarrow> bytes list \<Rightarrow> get_result list client_call" where
  "client_batch_get socket ns keys =
     client_then (\<lambda>p. case p of RespBatchGet items \<Rightarrow> Inr (map get_result_of_item items)
        | _ \<Rightarrow> Inl (UnexpectedResponse ''batch get did not return batch''))
       (client_request socket CmdBatchGet (ReqBatchGet ns keys))"

definition client_invalidate_tag :: "(bytes \<Rightarrow> bytes) \<Rightarrow> string \<Rightarrow> string \<Rightarrow> u32 client_call" where
  "client_invalidate_tag socket ns tag =
     client_then (\<lambda>p. case p of RespInvalidated removed \<Rightarrow> Inr removed
        | _ \<Rightarrow> Inl (UnexpectedResponse ''tag invalidation did not return invalidated''))
       (client_request socket CmdTagInvalidate (ReqTagInvalidate ns tag))"

definition client_start_lease_raw ::
  "(bytes \<Rightarrow> bytes) \<Rightarrow> string \<Rightarrow> bytes \<Rightarrow> u64 \<Rightarrow> u64 option \<Rightarrow> response_payload client_call" where
  "client_start_lease_raw socket ns key ttl allow =
     client_request socket CmdLeaseStart (ReqLeaseStart ns key ttl allow)"

definition client_start_lease ::
  "(bytes \<Rightarrow> bytes) \<Rightarrow> string \<Rightarrow> bytes \<Rightarrow> u64 \<Rightarrow> u64 option \<Rightarrow> lease_start_result client_call" where
  "client_start_lease socket ns key ttl allow =
     client_then lease_start_result_of (client_start_lease_raw socket ns key ttl allow)"

definition client_complete_lease ::
  "(bytes \<Rightarrow> bytes) \<Rightarrow> string \<Rightarrow> bytes \<Rightarrow> string \<Rightarrow> metadata \<Rightarrow> bytes \<Rightarrow> u32 client_call" where
  "client_complete_lease socket ns key token md val =
     client_then (\<lambda>p. case p of RespStored evicted \<Rightarrow> Inr evicted
        | _ \<Rightarrow> Inl (UnexpectedResponse ''lease completion did not return stored''))
       (client_request socket CmdLeaseComplete (ReqLeaseComplete ns key token md val))"

section \<open>Pipelined requests\<close>

record expected_response =
  ex_index :: usize
  ex_command :: command

record response_matcher =
  pm_expected :: "(u64 \<times> expected_response) list"
  pm_payloads :: "response_payload option list"
  pm_errors :: "(error_code \<times> string) option list"

definition matcher_new :: "usize \<Rightarrow> (u64 \<times> expected_response) list \<Rightarrow> response_matcher" where
  "matcher_new expected_count expected =
     \<lparr>pm_expected = expected, pm_payloads = replicate expected_count None,
      pm_errors = replicate expected_count None\<rparr>"

definition matcher_push :: "response_frame \<Rightarrow> response_matcher \<Rightarrow> client_error + response_matcher" where
  "matcher_push resp m =
     (case map_of (pm_expected m) (rs_request_id resp) of
        None \<Rightarrow> Inl (UnexpectedResponse ''unknown response request id'')
      | Some ex \<Rightarrow>
          (let m1 = m\<lparr>pm_expected := AList.delete (rs_request_id resp) (pm_expected m)\<rparr>
           in if rs_command resp \<noteq> ex_command ex
              then Inl (UnexpectedResponse ''response command mismatch'')
              else (case rs_payload resp of
                      RespError code msg \<Rightarrow>
                        Inr (m1\<lparr>pm_errors := (pm_errors m1)[ex_index ex := Some (code, msg)]\<rparr>)
                    | payload \<Rightarrow>
                        Inr (m1\<lparr>pm_payloads := (pm_payloads m1)[ex_index ex := Some payload]\<rparr>))))"

fun collect_payloads :: "response_payload option list \<Rightarrow> client_error + response_payload list" where
  "collect_payloads [] = Inr []"
| "collect_payloads (None # ps) = Inl (UnexpectedResponse ''missing pipelined response payload'')"
| "collect_payloads (Some p # ps) = rbind (collect_payloads ps) (\<lambda>qs. Inr (p # qs))"

definition matcher_finish :: "response_matcher \<Rightarrow> client_error + response_payload list" where
  "matcher_finish m =
     (case List.find (\<lambda>e. e \<noteq> None) (pm_errors m) of
        Some (Some (code, msg)) \<Rightarrow> Inl (ClientServer code msg)
      | _ \<Rightarrow> collect_payloads (pm_payloads m))"

text \<open>The loop that writes the frames, with what is expected so far and the request buffer; the
  result carries the next identifier. \<open>None\<close> is the encoder's panic.\<close>

fun pipeline_requests ::
  "nat \<Rightarrow> (command \<times> request_payload) list \<Rightarrow> u64 \<Rightarrow> (u64 \<times> expected_response) list \<Rightarrow> bytes \<Rightarrow>
     ((u64 \<times> expected_response) list \<times> bytes \<times> u64) option" where
  "pipeline_requests index [] rid expected buffer = Some (expected, buffer, rid)"
| "pipeline_requests index ((cmd, payload) # reqs) rid expected buffer =
     (case encode_request_frame \<lparr>rq_request_id = rid, rq_command = cmd, rq_payload = payload\<rparr> of
        None \<Rightarrow> None
      | Some frame \<Rightarrow>
          pipeline_requests (index + 1) reqs (id_after rid)
            (AList.update rid \<lparr>ex_index = index, ex_command = cmd\<rparr> expected) (buffer @ frame))"

text \<open>The loop that reads as many responses as there were requests.\<close>

fun read_responses :: "nat \<Rightarrow> usize \<Rightarrow> bytes \<Rightarrow> response_matcher \<Rightarrow> client_error + response_matcher" where
  "read_responses 0 max_len stream m = Inr m"
| "read_responses (Suc n) max_len stream m =
     (let (r, stream1) = read_response_frame max_len stream
      in rbind r (\<lambda>resp. rbind (matcher_push resp m) (\<lambda>m1. read_responses n max_len stream1 m1)))"

definition request_pipelined ::
  "(bytes \<Rightarrow> bytes) \<Rightarrow> (command \<times> request_payload) list \<Rightarrow> response_payload list client_call" where
  "request_pipelined socket reqs c =
     (if reqs = [] then Some (Inr [], c)
      else
       map_option (\<lambda>(expected, buffer, rid1).
           (rbind (read_responses (length reqs) (max_payload_len c) (socket buffer)
                     (matcher_new (length reqs) expected)) matcher_finish,
            c\<lparr>next_request_id := rid1\<rparr>))
         (pipeline_requests 0 reqs (next_request_id c) [] []))"

end
