(* ===== verification/Client_Props.thy ===== *)
theory Client_Props
  imports Client
begin

text \<open>
  The client and the server together: a request that the client sends to the server returns the
  result of the call on the cache, and pipelined requests return their responses in the order of
  the requests whatever order the responses arrive in.
\<close>

section \<open>Reading an encoded response\<close>

lemma read_response_encoded:
  assumes "encode_response_frame resp = Some bs" "response_ok (rs_command resp) (rs_payload resp)"
    and "length (encode_response_payload (rs_payload resp)) \<le> max_len"
  shows "read_response_frame max_len (bs @ later) = (Inr resp, later)"
proof -
  let ?p = "encode_response_payload (rs_payload resp)"
  have len: "length ?p < 2 ^ 32" and bs: "bs = MAGIC @ [VERSION, KIND_RESPONSE, command_id (rs_command resp), 0] @
      write_u64 (rs_request_id resp) @ write_u32 (word_of_nat (length ?p)) @ write_u32 0 @ ?p"
    using assms(1) by (auto simp: encode_response_frame_def encode_frame_into_eq split: if_splits)
  have n: "from_be (take 4 (drop 16 (bs @ later))) = length ?p"
    using len by (simp add: bs MAGIC_def from_be_write unat_of_nat)
  have length_bs: "length bs = HEADER_LEN + length ?p"
    by (simp add: bs MAGIC_def HEADER_LEN_def)
  have "decode_response_frame bs max_len = Inr resp"
    using response_round_trip [OF assms, of "[]"] by simp
  then show ?thesis
    unfolding read_response_frame_def Let_def n by (simp add: length_bs)
qed

section \<open>The client against the server\<close>

text \<open>The socket of a connection to the server: the bytes written are one frame, and what can be
  read is its response.\<close>

definition server_socket :: "hasher \<Rightarrow> env \<Rightarrow> u64 \<Rightarrow> usize \<Rightarrow> app_state \<Rightarrow> bytes \<Rightarrow> bytes" where
  "server_socket h env cid m st out =
     (case fst (execute_native_frame_bytes h env cid m out st) of None \<Rightarrow> [] | Some bs \<Rightarrow> bs)"

text \<open>A request that fits is answered by one frame, the response of the call on the cache.\<close>

lemma server_replies:
  fixes h env payload st rid
  defines "resp \<equiv> \<lparr>rs_request_id = rid, rs_command = request_command payload,
    rs_payload = response_of (fst (sharded_exec h (op_of env payload) (ap_engine st)))\<rparr>"
  assumes "app_inv h V st" "env_ok env" "V + 100 < 2 ^ 32"
    and "request_payload_ok payload" "length (encode_request_payload payload) \<le> m" "m < 2 ^ 32"
    and "response_room V payload < 2 ^ 32"
  obtains out bs where
    "encode_request_frame \<lparr>rq_request_id = rid, rq_command = request_command payload, rq_payload = payload\<rparr> = Some out"
    "server_socket h env cid m st out = bs" "encode_response_frame resp = Some bs"
    "response_ok (rs_command resp) (rs_payload resp)"
    "length (encode_response_payload (rs_payload resp)) \<le> response_room V payload"
proof -
  let ?req = "\<lparr>rq_request_id = rid, rq_command = request_command payload, rq_payload = payload\<rparr>"
  obtain out where out: "encode_request_frame ?req = Some out"
    using assms(6,7) by (auto simp: encode_request_frame_def encode_frame_into_eq)
  have "decode_request_frame (out @ []) m = Inr ?req"
    using assms(5,6) by (intro request_round_trip [OF out]) (simp_all add: request_ok_def)
  then have reply: "fst (execute_native_frame_bytes h env cid m out st) = encode_response_frame resp"
    by (simp add: frame_bytes_agree execute_owned_frame_snd resp_def)
  note fits = response_fits [OF assms(2-4,8)]
  then obtain bs where "encode_response_frame resp = Some bs"
    using assms(8) by (auto simp: encode_response_frame_def encode_frame_into_eq resp_def)
  then show thesis
    using that out reply fits by (simp add: server_socket_def resp_def)
qed

lemma client_request_cache:
  assumes "app_inv h V st" "env_ok env" "V + 100 < 2 ^ 32"
    and "request_ok cmd payload" "length (encode_request_payload payload) \<le> m" "m < 2 ^ 32"
    and "response_room V payload < 2 ^ 32" "response_room V payload \<le> max_payload_len c"
  shows "client_request (server_socket h env cid m st) cmd payload c =
    Some (accept_payload (response_of (fst (sharded_exec h (op_of env payload) (ap_engine st)))),
          c\<lparr>next_request_id := id_after (next_request_id c)\<rparr>)"
proof -
  let ?resp = "\<lparr>rs_request_id = next_request_id c, rs_command = cmd,
    rs_payload = response_of (fst (sharded_exec h (op_of env payload) (ap_engine st)))\<rparr>"
  have cmd: "request_command payload = cmd" "request_payload_ok payload"
    using assms(4) by (simp_all add: request_ok_def)
  obtain out bs where out: "encode_request_frame
      \<lparr>rq_request_id = next_request_id c, rq_command = cmd, rq_payload = payload\<rparr> = Some out"
    "server_socket h env cid m st out = bs" and bs: "encode_response_frame ?resp = Some bs"
    "response_ok (rs_command ?resp) (rs_payload ?resp)"
    "length (encode_response_payload (rs_payload ?resp)) \<le> response_room V payload"
    using server_replies [OF assms(1-3) cmd(2) assms(5-7), of "next_request_id c" cid] unfolding cmd(1) by blast
  have "read_response_frame (max_payload_len c) (bs @ []) = (Inr ?resp, [])"
    using bs(3) assms(8) by (intro read_response_encoded [OF bs(1,2)]) simp
  then show ?thesis
    using out by (simp add: client_request_def Let_def)
qed

text \<open>C24. A request of the client is a call on the cache: sent to a consistent server it returns the
  result of that call on the server's cache, a refused call as a server error, under all
  conditions under which request and response fit their frames. The client never reports a
  decoding error, a mismatch or an I/O error against this server.\<close>

theorem client_request_is_cache_call:
  assumes "app_inv h V st" "env_ok env" "V + 100 < 2 ^ 32"
    and "request_ok cmd payload" "length (encode_request_payload payload) \<le> m" "m < 2 ^ 32"
    and "response_room V payload < 2 ^ 32" "response_room V payload \<le> max_payload_len c"
  shows "client_request (server_socket h env cid m st) cmd payload c =
    Some (accept_payload (response_of (fst (sharded_exec h (op_of env payload) (ap_engine st)))),
          c\<lparr>next_request_id := id_after (next_request_id c)\<rparr>)"
  using assms by (rule client_request_cache)

theorem client_request_is_cache_call_witness:
  "client_request (server_socket sample_hasher (sample_env 1) 1 1024 sample_app) CmdGet (ReqGet ''ns'' [1])
     client_connect = Some (Inr RespMiss, client_connect\<lparr>next_request_id := 2\<rparr>)"
proof -
  have inv: "app_inv sample_hasher 100 sample_app"
    using app_inv_fresh [OF sample_app_eq sample_limits_bounded] by (simp add: sample_limits_def)
  have ok: "request_ok CmdGet (ReqGet ''ns'' [1])"
    by (simp add: request_ok_def namespace_ok_def short_def is_valid_namespace_def sample_strings
        is_ascii_alphanumeric_def)
  have "fst (sharded_get sample_hasher (sample_env 1) ''ns'' [1] (ap_engine sample_app)) = OutMiss"
    by (simp add: sample_app_def sharded_with_limits_def sharded_with_clock_and_limits_def
        DEFAULT_SHARD_COUNT_def sharded_get_def with_shard_def shard_index_for_def sample_hasher_def
        engine_get_def get_ref_def get_ref_inner_unfold engine_entry_state_def engine_with_limits_def Let_def
        case_prod_beta)
  then show ?thesis
    using client_request_is_cache_call [OF inv sample_env_ok _ ok, of 1024 client_connect 1 1]
    by (simp add: client_connect_def response_room_def usize_max_def accept_payload_def id_after_def)
qed

section \<open>Request identifiers\<close>

abbreviation nth_id :: "u64 \<Rightarrow> nat \<Rightarrow> u64" where
  "nth_id rid k \<equiv> (id_after ^^ k) rid"

lemma unat_id_after: "unat (id_after i) = (if unat i = 2 ^ 64 - 1 then 1 else unat i + 1)"
proof (cases "i = - 1")
  case True
  then show ?thesis
    by (simp add: id_after_def unat_max_u64)
next
  case False
  then have "unat i \<noteq> 2 ^ 64 - 1"
    using unat_max_u64 by (simp add: word_unat_eq_iff)
  then have "unat i < 2 ^ 64 - 1"
    using unat_u64_less [of i] by simp
  then have "unat (i + 1) = unat i + 1"
    by (simp add: unat_word_ariths)
  then show ?thesis
    using \<open>unat i < 2 ^ 64 - 1\<close> by (simp add: id_after_def max_def word_le_nat_alt)
qed

lemma unat_nth_id:
  assumes "rid \<noteq> 0"
  shows "unat (nth_id rid k) = (unat rid - 1 + k) mod (2 ^ 64 - 1) + 1"
proof (induction k)
  case 0
  have "0 < unat rid" "unat rid < 2 ^ 64"
    using assms unat_u64_less [of rid] by (simp_all add: unat_gt_0)
  then show ?case
    by simp
next
  case (Suc k)
  then show ?case
    by (simp add: unat_id_after mod_Suc)
qed

lemma nth_id_inj:
  assumes "rid \<noteq> 0" "n < 2 ^ 64"
  shows "inj_on (nth_id rid) {..<n}"
proof (rule inj_onI)
  fix j k
  assume jk: "j \<in> {..<n}" "k \<in> {..<n}" "nth_id rid j = nth_id rid k"
  then have "(unat rid - 1 + j) mod (2 ^ 64 - 1) = (unat rid - 1 + k) mod (2 ^ 64 - 1)"
    using unat_nth_id [OF assms(1), of j] unat_nth_id [OF assms(1), of k] by simp
  then have "j mod (2 ^ 64 - 1) = k mod (2 ^ 64 - 1)"
    by (simp add: nat_mod_eq_iff)
  then show "j = k"
    using jk(1,2) assms(2) by simp
qed

section \<open>Matching responses\<close>

lemma pipeline_expected_other:
  "pipeline_requests index reqs rid expected buffer = Some (expected1, buffer1, rid1) \<Longrightarrow>
   x \<notin> nth_id rid ` {..<length reqs} \<Longrightarrow> map_of expected1 x = map_of expected x"
proof (induction reqs arbitrary: index rid expected buffer)
  case (Cons req reqs)
  have "x \<noteq> rid" "x \<notin> nth_id (id_after rid) ` {..<length reqs}"
    using Cons.prems(2) image_subset_iff [of "nth_id rid" "Suc ` {..<length reqs}"]
    by (force simp: lessThan_Suc_eq_insert_0 image_image funpow_swap1)+
  then show ?case
    using Cons.IH [of "index + 1" "id_after rid"] Cons.prems(1)
    by (cases req) (auto simp: alist split: option.splits)
qed simp

lemma pipeline_expected:
  "pipeline_requests index reqs rid expected buffer = Some (expected1, buffer1, rid1) \<Longrightarrow>
   inj_on (nth_id rid) {..<length reqs} \<Longrightarrow> k < length reqs \<Longrightarrow>
   map_of expected1 (nth_id rid k) = Some \<lparr>ex_index = index + k, ex_command = fst (reqs ! k)\<rparr>"
proof (induction reqs arbitrary: index rid expected buffer k)
  case (Cons req reqs)
  obtain cmd payload frame where req: "req = (cmd, payload)"
    and run: "pipeline_requests (index + 1) reqs (id_after rid)
      (AList.update rid \<lparr>ex_index = index, ex_command = cmd\<rparr> expected) (buffer @ frame) =
      Some (expected1, buffer1, rid1)"
    using Cons.prems(1) by (cases req) (auto split: option.splits)
  have inj: "inj_on (nth_id (id_after rid)) {..<length reqs}" "rid \<notin> nth_id (id_after rid) ` {..<length reqs}"
    using Cons.prems(2)
    by (auto simp: lessThan_Suc_eq_insert_0 inj_on_def funpow_swap1 image_image)
  show ?case
  proof (cases k)
    case 0
    then show ?thesis
      using pipeline_expected_other [OF run inj(2)] req by (simp add: alist)
  next
    case (Suc j)
    then show ?thesis
      using Cons.IH [OF run inj(1), of j] Cons.prems(3) by (simp add: funpow_swap1)
  qed
qed simp

definition error_of :: "response_payload \<Rightarrow> (error_code \<times> string) option" where
  "error_of p = (case p of RespError code msg \<Rightarrow> Some (code, msg) | _ \<Rightarrow> None)"

definition response_to :: "(command \<times> request_payload) list \<Rightarrow> u64 \<Rightarrow> response_payload list \<Rightarrow> nat \<Rightarrow> response_frame" where
  "response_to reqs rid ps k = \<lparr>rs_request_id = nth_id rid k, rs_command = fst (reqs ! k), rs_payload = ps ! k\<rparr>"

text \<open>The matcher once the responses to the requests \<open>S\<close> have arrived.\<close>

definition matched ::
  "(command \<times> request_payload) list \<Rightarrow> u64 \<Rightarrow> response_payload list \<Rightarrow> nat set \<Rightarrow> response_matcher \<Rightarrow> bool" where
  "matched reqs rid ps S m \<longleftrightarrow>
     pm_payloads m = map (\<lambda>k. if k \<in> S \<and> error_of (ps ! k) = None then Some (ps ! k) else None) [0..<length reqs] \<and>
     pm_errors m = map (\<lambda>k. if k \<in> S \<and> error_of (ps ! k) \<noteq> None then error_of (ps ! k) else None)
       [0..<length reqs] \<and>
     (\<forall>k < length reqs. k \<notin> S \<longrightarrow>
        map_of (pm_expected m) (nth_id rid k) = Some \<lparr>ex_index = k, ex_command = fst (reqs ! k)\<rparr>)"

lemma map_insert_update:
  "k < n \<Longrightarrow> (map (\<lambda>j. if j \<in> S \<and> Q j then f j else None) [0..<n])[k := if Q k then f k else None] =
   map (\<lambda>j. if j \<in> insert k S \<and> Q j then f j else None) [0..<n]"
  by (auto simp: list_eq_iff_nth_eq nth_list_update)

lemma map_insert_same:
  "\<not> Q k \<Longrightarrow> map (\<lambda>j. if j \<in> insert k S \<and> Q j then f j else None) xs =
   map (\<lambda>j. if j \<in> S \<and> Q j then f j else None) xs"
  by auto

lemma matched_push:
  assumes "matched reqs rid ps S m" "inj_on (nth_id rid) {..<length reqs}" "k < length reqs" "k \<notin> S"
  shows "\<exists>m1. matcher_push (response_to reqs rid ps k) m = Inr m1 \<and> matched reqs rid ps (insert k S) m1"
proof -
  let ?ex = "AList.delete (nth_id rid k) (pm_expected m)"
  have ex: "map_of (pm_expected m) (nth_id rid k) = Some \<lparr>ex_index = k, ex_command = fst (reqs ! k)\<rparr>"
    and payloads: "pm_payloads m = map (\<lambda>k. if k \<in> S \<and> error_of (ps ! k) = None then Some (ps ! k) else None)
      [0..<length reqs]"
    and errors: "pm_errors m = map (\<lambda>k. if k \<in> S \<and> error_of (ps ! k) \<noteq> None then error_of (ps ! k) else None)
      [0..<length reqs]"
    using assms(1,3,4) by (simp_all add: matched_def)
  have rest: "\<forall>j < length reqs. j \<notin> insert k S \<longrightarrow>
      map_of ?ex (nth_id rid j) = Some \<lparr>ex_index = j, ex_command = fst (reqs ! j)\<rparr>"
    using assms by (auto simp: matched_def alist inj_on_def)
  show ?thesis
  proof (cases "error_of (ps ! k)")
    case None
    let ?m = "m\<lparr>pm_expected := ?ex, pm_payloads := (pm_payloads m)[k := Some (ps ! k)]\<rparr>"
    have "matcher_push (response_to reqs rid ps k) m = Inr ?m"
      using ex None by (cases "ps ! k") (simp_all add: matcher_push_def response_to_def error_of_def Let_def)
    moreover have "matched reqs rid ps (insert k S) ?m"
      using map_insert_update [OF assms(3), of S "\<lambda>j. error_of (ps ! j) = None" "\<lambda>j. Some (ps ! j)"]
        map_insert_same [of "\<lambda>j. error_of (ps ! j) \<noteq> None" k S "\<lambda>j. error_of (ps ! j)"] None rest
      unfolding matched_def by (simp add: payloads errors)
    ultimately show ?thesis
      by (intro exI [of _ ?m] conjI)
  next
    case (Some e)
    let ?m = "m\<lparr>pm_expected := ?ex, pm_errors := (pm_errors m)[k := Some e]\<rparr>"
    have "matcher_push (response_to reqs rid ps k) m = Inr ?m"
      using ex Some by (cases "ps ! k") (auto simp: matcher_push_def response_to_def error_of_def Let_def)
    moreover have "matched reqs rid ps (insert k S) ?m"
      using map_insert_update [OF assms(3), of S "\<lambda>j. error_of (ps ! j) \<noteq> None" "\<lambda>j. error_of (ps ! j)"]
        map_insert_same [of "\<lambda>j. error_of (ps ! j) = None" k S "\<lambda>j. Some (ps ! j)"] Some rest
      unfolding matched_def by (simp add: payloads errors)
    ultimately show ?thesis
      by (intro exI [of _ ?m] conjI)
  qed
qed

lemma matched_new:
  assumes "pipeline_requests 0 reqs rid [] [] = Some (expected, buffer, rid1)"
    and "inj_on (nth_id rid) {..<length reqs}"
  shows "matched reqs rid ps {} (matcher_new (length reqs) expected)"
  using pipeline_expected [OF assms] by (simp add: matched_def matcher_new_def map_replicate_const)

text \<open>The responses, written one after the other in the order \<open>ks\<close>.\<close>

definition response_bytes ::
  "(command \<times> request_payload) list \<Rightarrow> u64 \<Rightarrow> response_payload list \<Rightarrow> nat list \<Rightarrow> bytes" where
  "response_bytes reqs rid ps ks =
     concat (map (\<lambda>k. case encode_response_frame (response_to reqs rid ps k) of Some bs \<Rightarrow> bs | None \<Rightarrow> []) ks)"

lemma read_responses_any_order:
  assumes "matched reqs rid ps S m" "inj_on (nth_id rid) {..<length reqs}"
    and "distinct ks" "set ks \<subseteq> {..<length reqs}" "set ks \<inter> S = {}"
    and "list_all2 (\<lambda>(cmd, _) p. response_ok cmd p \<and> length (encode_response_payload p) < 2 ^ 32 \<and>
      length (encode_response_payload p) \<le> max_len) reqs ps"
  shows "\<exists>m1. read_responses (length ks) max_len (response_bytes reqs rid ps ks @ later) m = Inr m1 \<and>
    matched reqs rid ps (set ks \<union> S) m1"
  using assms(1,3-5)
proof (induction ks arbitrary: m S)
  case (Cons k ks)
  have k: "k < length reqs" "k \<notin> S"
    using Cons.prems(3,4) by auto
  obtain m1 where m1: "matcher_push (response_to reqs rid ps k) m = Inr m1" "matched reqs rid ps (insert k S) m1"
    using matched_push [OF Cons.prems(1) assms(2) k] by blast
  have ok: "response_ok (fst (reqs ! k)) (ps ! k)" "length (encode_response_payload (ps ! k)) < 2 ^ 32"
    "length (encode_response_payload (ps ! k)) \<le> max_len"
    using list_all2_nthD [OF assms(6) k(1)] by (auto simp: case_prod_beta)
  then obtain bs where bs: "encode_response_frame (response_to reqs rid ps k) = Some bs"
    by (auto simp: encode_response_frame_def encode_frame_into_eq response_to_def)
  have "read_response_frame max_len (bs @ response_bytes reqs rid ps ks @ later) =
      (Inr (response_to reqs rid ps k), response_bytes reqs rid ps ks @ later)"
    using ok by (intro read_response_encoded [OF bs]) (simp_all add: response_to_def)
  then have "read_responses (length (k # ks)) max_len (response_bytes reqs rid ps (k # ks) @ later) m =
      read_responses (length ks) max_len (response_bytes reqs rid ps ks @ later) m1"
    using bs m1(1) by (simp add: response_bytes_def)
  then show ?case
    using Cons.IH [OF m1(2)] Cons.prems(2-4) by auto
qed simp

text \<open>The results of requests sent one after the other: the first server error, or the payloads.\<close>

fun results_in_order :: "response_payload list \<Rightarrow> client_error + response_payload list" where
  "results_in_order [] = Inr []"
| "results_in_order (p # ps) =
     rbind (accept_payload p) (\<lambda>q. rbind (results_in_order ps) (\<lambda>qs. Inr (q # qs)))"

lemma accept_payload_error_of:
  "accept_payload p = (case error_of p of None \<Rightarrow> Inr p | Some (code, msg) \<Rightarrow> Inl (ClientServer code msg))"
  by (cases p) (simp_all add: accept_payload_def error_of_def)

lemma results_in_order_error:
  "List.find (\<lambda>e. e \<noteq> None) (map error_of ps) = Some (Some (code, msg)) \<Longrightarrow>
   results_in_order ps = Inl (ClientServer code msg)"
  by (induction ps) (simp_all add: accept_payload_error_of split: option.splits if_splits prod.splits)

lemma results_in_order_payloads:
  "List.find (\<lambda>e. e \<noteq> None) (map error_of ps) = None \<Longrightarrow>
   results_in_order ps = collect_payloads (map (\<lambda>p. if error_of p = None then Some p else None) ps)"
  by (induction ps) (simp_all add: accept_payload_error_of split: option.splits if_splits prod.splits)

lemma matched_finish:
  assumes "matched reqs rid ps {..<length reqs} m" "length ps = length reqs"
  shows "matcher_finish m = results_in_order ps"
proof -
  have "pm_errors m = map (\<lambda>k. if k \<in> {..<length reqs} \<and> error_of (ps ! k) \<noteq> None then error_of (ps ! k) else None)
      [0..<length reqs]"
    and "pm_payloads m = map (\<lambda>k. if k \<in> {..<length reqs} \<and> error_of (ps ! k) = None then Some (ps ! k) else None)
      [0..<length reqs]"
    using assms(1) unfolding matched_def by blast+
  then have errors: "pm_errors m = map error_of ps"
    and payloads: "pm_payloads m = map (\<lambda>p. if error_of p = None then Some p else None) ps"
    using assms(2) by (auto intro!: nth_equalityI simp del: not_None_eq)
  show ?thesis
  proof (cases "List.find (\<lambda>e. e \<noteq> None) (map error_of ps)")
    case None
    then show ?thesis
      using results_in_order_payloads [OF None] by (simp add: matcher_finish_def errors payloads)
  next
    case (Some e)
    then have "e \<noteq> None"
      by (auto simp: find_Some_iff)
    then show ?thesis
      using Some by (auto simp: matcher_finish_def errors results_in_order_error)
  qed
qed

lemma pipeline_requests_encodes:
  "list_all (\<lambda>(_, payload). length (encode_request_payload payload) < 2 ^ 32) reqs \<Longrightarrow>
   \<exists>expected1 buffer1. pipeline_requests index reqs rid expected buffer =
     Some (expected1, buffer1, nth_id rid (length reqs))"
proof (induction reqs arbitrary: index rid expected buffer)
  case (Cons req reqs)
  then obtain cmd payload where req: "req = (cmd, payload)" "length (encode_request_payload payload) < 2 ^ 32"
    by (cases req) auto
  then obtain frame where
    "encode_request_frame \<lparr>rq_request_id = rid, rq_command = cmd, rq_payload = payload\<rparr> = Some frame"
    by (auto simp: encode_request_frame_def encode_frame_into_eq)
  then show ?case
    using Cons.IH [of "index + 1" "id_after rid"] Cons.prems req by (simp add: funpow_swap1)
qed simp

text \<open>C25. Pipelined requests return their results in the order of the requests, in whatever order the
  responses arrive: for every permutation of the responses the call returns what the requests sent
  one after the other would return, the payload of every request or the first server error, and
  the request identifiers advance by the number of requests.\<close>

theorem pipelined_results_in_request_order:
  assumes "next_request_id c \<noteq> 0" "length reqs < 2 ^ 64"
    and "list_all (\<lambda>(_, payload). length (encode_request_payload payload) < 2 ^ 32) reqs"
    and "list_all2 (\<lambda>(cmd, _) p. response_ok cmd p \<and> length (encode_response_payload p) < 2 ^ 32 \<and>
      length (encode_response_payload p) \<le> max_payload_len c) reqs ps"
    and "distinct ks" "set ks = {..<length reqs}"
  shows "request_pipelined (\<lambda>_. response_bytes reqs (next_request_id c) ps ks @ later) reqs c =
    Some (results_in_order ps, c\<lparr>next_request_id := (id_after ^^ length reqs) (next_request_id c)\<rparr>)"
proof (cases "reqs = []")
  case True
  then show ?thesis
    using assms(4) by (simp add: request_pipelined_def)
next
  case False
  let ?rid = "next_request_id c"
  have inj: "inj_on (nth_id ?rid) {..<length reqs}"
    by (rule nth_id_inj [OF assms(1,2)])
  obtain expected buffer where run: "pipeline_requests 0 reqs ?rid [] [] =
      Some (expected, buffer, nth_id ?rid (length reqs))"
    using pipeline_requests_encodes [OF assms(3)] by blast
  have len: "length ks = length reqs"
    using distinct_card [OF assms(5)] assms(6) by simp
  obtain m where m: "read_responses (length ks) (max_payload_len c) (response_bytes reqs ?rid ps ks @ later)
      (matcher_new (length reqs) expected) = Inr m" "matched reqs ?rid ps (set ks \<union> {}) m"
    using read_responses_any_order [OF matched_new [OF run inj] inj assms(5) _ _ assms(4)] assms(6) by auto
  have "matcher_finish m = results_in_order ps"
    using m(2) assms(6) list_all2_lengthD [OF assms(4)] by (intro matched_finish [of reqs ?rid]) simp_all
  then show ?thesis
    using run m(1) False by (simp add: request_pipelined_def len)
qed

theorem pipelined_results_in_request_order_witness:
  "request_pipelined (\<lambda>_. response_bytes [(CmdGet, ReqGet ''a'' [1]), (CmdDelete, ReqDelete ''a'' [2])] 1
       [RespMiss, RespDeleted True] [1, 0] @ [7])
     [(CmdGet, ReqGet ''a'' [1]), (CmdDelete, ReqDelete ''a'' [2])] client_connect =
   Some (Inr [RespMiss, RespDeleted True], client_connect\<lparr>next_request_id := 3\<rparr>)"
  using pipelined_results_in_request_order [of client_connect
      "[(CmdGet, ReqGet ''a'' [1]), (CmdDelete, ReqDelete ''a'' [2])]" "[RespMiss, RespDeleted True]" "[1, 0]" "[7]"]
  by (auto simp: client_connect_def accept_payload_def id_after_def usize_max_def lessThan_Suc)

end
