(* ===== verification/Ai_Keys.thy ===== *)
theory Ai_Keys
  imports Wire "HOL-Library.Char_ord" "HOL-Library.List_Lexorder" "HOL-Library.Finite_Map"
begin

text \<open>
  The helpers of the client for AI workloads (clients/rust/cachebox-client/src/ai.rs): the
  normalisation of prompt and embedding requests, canonical JSON, the FNV-1a digest and the cache
  keys made of it, the decision taken on a lease, and the capture of a stream. Printing a number
  and a string literal is code of serde_json: two functions that the definitions take as
  arguments.
\<close>

section \<open>Requests\<close>

datatype 'n json =
  JNull
| JBool bool
| JNumber 'n
| JString string
| JArray "'n json list"
| JObject "(string \<times> 'n json) list"

record prompt_message =
  pm_role :: string
  pm_content :: string
  pm_name :: "string option"

definition prompt_message_new :: "string \<Rightarrow> string \<Rightarrow> prompt_message" where
  "prompt_message_new role content = \<lparr>pm_role = role, pm_content = content, pm_name = None\<rparr>"

definition with_name :: "string \<Rightarrow> prompt_message \<Rightarrow> prompt_message" where
  "with_name name msg = msg\<lparr>pm_name := Some name\<rparr>"

text \<open>A \<open>BTreeMap\<close> is the list of its bindings in the order of the keys.\<close>

definition btree_ok :: "(string \<times> 'v) list \<Rightarrow> bool" where
  "btree_ok m \<longleftrightarrow> sorted (map fst m) \<and> distinct (map fst m)"

record 'n prompt_input =
  pi_provider :: string
  pi_model :: string
  pi_model_version :: "string option"
  pi_messages :: "prompt_message list"
  pi_system_prompt :: "string option"
  pi_tool_schema :: "'n json option"
  pi_sampling_parameters :: "(string \<times> 'n json) list"
  pi_output_format :: "string option"
  pi_retrieval_context_hash :: "string option"
  pi_application_namespace :: string

record 'n embedding_input =
  ei_model :: string
  ei_model_version :: "string option"
  ei_input_content_hash :: string
  ei_normalization_settings :: "(string \<times> 'n json) list"
  ei_chunking_strategy :: string
  ei_dimensions :: u32
  ei_application_namespace :: string

definition prompt_input_new :: "string \<Rightarrow> string \<Rightarrow> string \<Rightarrow> 'n prompt_input" where
  "prompt_input_new provider model ns =
     \<lparr>pi_provider = provider, pi_model = model, pi_model_version = None, pi_messages = [],
      pi_system_prompt = None, pi_tool_schema = None, pi_sampling_parameters = [],
      pi_output_format = None, pi_retrieval_context_hash = None, pi_application_namespace = ns\<rparr>"

definition embedding_input_new :: "string \<Rightarrow> string \<Rightarrow> string \<Rightarrow> u32 \<Rightarrow> string \<Rightarrow> 'n embedding_input" where
  "embedding_input_new model content_hash strategy dims ns =
     \<lparr>ei_model = model, ei_model_version = None, ei_input_content_hash = content_hash,
      ei_normalization_settings = [], ei_chunking_strategy = strategy, ei_dimensions = dims,
      ei_application_namespace = ns\<rparr>"

section \<open>Canonical JSON\<close>

text \<open>\<open>join\<close> of a vector of strings with a separator.\<close>

fun join :: "string \<Rightarrow> string list \<Rightarrow> string" where
  "join sep [] = []"
| "join sep [x] = x"
| "join sep (x # y # xs) = x @ sep @ join sep (y # xs)"

function canonical_json :: "('n \<Rightarrow> string) \<Rightarrow> (string \<Rightarrow> string) \<Rightarrow> 'n json \<Rightarrow> string" where
  "canonical_json num str JNull = ''null''"
| "canonical_json num str (JBool b) = (if b then ''true'' else ''false'')"
| "canonical_json num str (JNumber n) = num n"
| "canonical_json num str (JString s) = str s"
| "canonical_json num str (JArray vs) = ''['' @ join '','' (map (canonical_json num str) vs) @ '']''"
| "canonical_json num str (JObject fs) =
     ''{'' @ join '','' (map (\<lambda>(key, v). str key @ '':'' @ canonical_json num str v) (sort_key fst fs)) @ ''}''"
  by pat_completeness auto

termination
  by (relation "measure (\<lambda>(num, str, v). size v)")
    (auto simp: less_Suc_eq_le intro!: size_list_estimation' [where f = "size_prod (\<lambda>_. 0) size"] size_list_estimation')

section \<open>Normalisation\<close>

definition PROMPT_KEY_PREFIX :: bytes where "PROMPT_KEY_PREFIX = string_bytes ''ai:prompt:v1:''"
definition EMBEDDING_KEY_PREFIX :: bytes where "EMBEDDING_KEY_PREFIX = string_bytes ''ai:embedding:v1:''"
definition PROMPT_NORMALIZATION_VERSION :: bytes where
  "PROMPT_NORMALIZATION_VERSION = string_bytes ''cachebox.ai.prompt.v1''"
definition EMBEDDING_NORMALIZATION_VERSION :: bytes where
  "EMBEDDING_NORMALIZATION_VERSION = string_bytes ''cachebox.ai.embedding.v1''"

text \<open>Every function gives the bytes it appends to the output.\<close>

definition append_u64 :: "u64 \<Rightarrow> bytes" where
  "append_u64 v = be_bytes 8 (unat v)"

definition append_bytes :: "bytes \<Rightarrow> bytes \<Rightarrow> bytes" where
  "append_bytes field v =
     append_u64 (word_of_nat (length field)) @ field @ append_u64 (word_of_nat (length v)) @ v"

definition append_str :: "bytes \<Rightarrow> string \<Rightarrow> bytes" where
  "append_str field v = append_bytes field (string_bytes v)"

definition append_optional_str :: "bytes \<Rightarrow> string option \<Rightarrow> bytes" where
  "append_optional_str field v =
     (case v of Some s \<Rightarrow> append_str field s | None \<Rightarrow> append_bytes field (string_bytes ''<none>''))"

definition append_json :: "('n \<Rightarrow> string) \<Rightarrow> (string \<Rightarrow> string) \<Rightarrow> bytes \<Rightarrow> 'n json option \<Rightarrow> bytes" where
  "append_json num str field v =
     (case v of Some j \<Rightarrow> append_bytes field (string_bytes (canonical_json num str j))
      | None \<Rightarrow> append_bytes field (string_bytes ''<none>''))"

definition append_json_map ::
  "('n \<Rightarrow> string) \<Rightarrow> (string \<Rightarrow> string) \<Rightarrow> bytes \<Rightarrow> bytes \<Rightarrow> bytes \<Rightarrow> (string \<times> 'n json) list \<Rightarrow> bytes" where
  "append_json_map num str field key_field value_field m =
     append_bytes field (string_bytes ''map'') @ append_u64 (word_of_nat (length m)) @
     concat (map (\<lambda>(name, v). append_str key_field name @
       append_bytes value_field (string_bytes (canonical_json num str v))) m)"

definition normalize_prompt_input :: "('n \<Rightarrow> string) \<Rightarrow> (string \<Rightarrow> string) \<Rightarrow> 'n prompt_input \<Rightarrow> bytes" where
  "normalize_prompt_input num str inp =
     append_bytes (string_bytes ''version'') PROMPT_NORMALIZATION_VERSION @
     append_str (string_bytes ''provider'') (pi_provider inp) @
     append_str (string_bytes ''model'') (pi_model inp) @
     append_optional_str (string_bytes ''model_version'') (pi_model_version inp) @
     append_optional_str (string_bytes ''system_prompt'') (pi_system_prompt inp) @
     append_json num str (string_bytes ''tool_schema'') (pi_tool_schema inp) @
     append_json_map num str (string_bytes ''sampling_parameters'') (string_bytes ''sampling.name'')
       (string_bytes ''sampling.value'') (pi_sampling_parameters inp) @
     append_optional_str (string_bytes ''output_format'') (pi_output_format inp) @
     append_optional_str (string_bytes ''retrieval_context_hash'') (pi_retrieval_context_hash inp) @
     append_str (string_bytes ''application_namespace'') (pi_application_namespace inp) @
     append_u64 (word_of_nat (length (pi_messages inp))) @
     concat (map (\<lambda>msg. append_str (string_bytes ''message.role'') (pm_role msg) @
       append_optional_str (string_bytes ''message.name'') (pm_name msg) @
       append_str (string_bytes ''message.content'') (pm_content msg)) (pi_messages inp))"

definition normalize_embedding_input :: "('n \<Rightarrow> string) \<Rightarrow> (string \<Rightarrow> string) \<Rightarrow> 'n embedding_input \<Rightarrow> bytes" where
  "normalize_embedding_input num str inp =
     append_bytes (string_bytes ''version'') EMBEDDING_NORMALIZATION_VERSION @
     append_str (string_bytes ''model'') (ei_model inp) @
     append_optional_str (string_bytes ''model_version'') (ei_model_version inp) @
     append_str (string_bytes ''input_content_hash'') (ei_input_content_hash inp) @
     append_json_map num str (string_bytes ''normalization_settings'') (string_bytes ''normalization.name'')
       (string_bytes ''normalization.value'') (ei_normalization_settings inp) @
     append_str (string_bytes ''chunking_strategy'') (ei_chunking_strategy inp) @
     append_u64 (ucast (ei_dimensions inp)) @
     append_str (string_bytes ''application_namespace'') (ei_application_namespace inp)"

section \<open>Digest and keys\<close>

definition FNV_OFFSET_BASIS :: "128 word" where "FNV_OFFSET_BASIS = 0x6c62272e07bb014262b821756295c58d"
definition FNV_PRIME :: "128 word" where "FNV_PRIME = 0x0000000001000000000000000000013b"

unbundle bit_operations_syntax

definition fnv1a_128 :: "bytes \<Rightarrow> 128 word" where
  "fnv1a_128 bs = fold (\<lambda>byte hash. (hash XOR ucast byte) * FNV_PRIME) bs FNV_OFFSET_BASIS"

definition HEX :: bytes where "HEX = string_bytes ''0123456789abcdef''"

definition write_hex_u128 :: "128 word \<Rightarrow> bytes" where
  "write_hex_u128 v = map (\<lambda>shift. HEX ! unat (drop_bit shift v AND 0xf)) (rev (map (\<lambda>k. 4 * k) [0..<32]))"

definition digest_key :: "bytes \<Rightarrow> 128 word \<Rightarrow> bytes" where
  "digest_key prefix digest = prefix @ write_hex_u128 digest"

definition prompt_cache_key :: "('n \<Rightarrow> string) \<Rightarrow> (string \<Rightarrow> string) \<Rightarrow> 'n prompt_input \<Rightarrow> bytes" where
  "prompt_cache_key num str inp = digest_key PROMPT_KEY_PREFIX (fnv1a_128 (normalize_prompt_input num str inp))"

definition embedding_cache_key :: "('n \<Rightarrow> string) \<Rightarrow> (string \<Rightarrow> string) \<Rightarrow> 'n embedding_input \<Rightarrow> bytes" where
  "embedding_cache_key num str inp =
     digest_key EMBEDDING_KEY_PREFIX (fnv1a_128 (normalize_embedding_input num str inp))"

section \<open>Lease decisions and stream capture\<close>

datatype generation_lease_start =
  GenHit bytes
| GenStale bytes
| GenLeaseGranted string "bytes option"
| GenLeaseDenied

datatype generation_lease_action =
  ReturnCached bytes
| Generate string "bytes option"
| RetryLater

fun generation_lease_action_of :: "generation_lease_start \<Rightarrow> generation_lease_action" where
  "generation_lease_action_of (GenHit v) = ReturnCached v"
| "generation_lease_action_of (GenStale v) = ReturnCached v"
| "generation_lease_action_of (GenLeaseGranted lease_token stale_value) = Generate lease_token stale_value"
| "generation_lease_action_of GenLeaseDenied = RetryLater"

datatype completion_failure = InvalidLeaseTokenFailure | ExpiredLease | RejectedValue | TransportError

datatype generation_completion = GenCompleted | GenFailed string completion_failure

definition generation_completion_success :: generation_completion where
  "generation_completion_success = GenCompleted"

definition generation_completion_failure :: "string \<Rightarrow> completion_failure \<Rightarrow> generation_completion" where
  "generation_completion_failure lease_token reason = GenFailed lease_token reason"

record stream_capture =
  sc_chunks :: "bytes list"
  sc_failed :: bool

record captured_stream =
  cs_lease_token :: string
  cs_value :: bytes

datatype stream_capture_error = GenerationFailed

definition stream_capture_new :: stream_capture where
  "stream_capture_new = \<lparr>sc_chunks = [], sc_failed = False\<rparr>"

definition push_chunk :: "bytes \<Rightarrow> stream_capture \<Rightarrow> stream_capture" where
  "push_chunk chunk c = (if \<not> sc_failed c then c\<lparr>sc_chunks := sc_chunks c @ [chunk]\<rparr> else c)"

definition mark_failed :: "stream_capture \<Rightarrow> stream_capture" where
  "mark_failed c = c\<lparr>sc_failed := True, sc_chunks := []\<rparr>"

definition stream_finish :: "string \<Rightarrow> stream_capture \<Rightarrow> stream_capture_error + captured_stream" where
  "stream_finish lease_token c =
     (if sc_failed c then Inl GenerationFailed
      else Inr \<lparr>cs_lease_token = lease_token, cs_value = concat (sc_chunks c)\<rparr>)"

end
