(* ===== verification/Ai_Props.thy ===== *)
theory Ai_Props
  imports Ai_Keys
begin

text \<open>
  What the keys of the AI helpers distinguish: canonical JSON prints exactly the value, the
  normalised bytes determine the request up to one case, and a key is determined by the digest.
\<close>

section \<open>JSON values\<close>

text \<open>A JSON value: the members of an object have no order.\<close>

datatype 'n json_val =
  VNull
| VBool bool
| VNumber 'n
| VString string
| VArray "'n json_val list"
| VObject "(string, 'n json_val) fmap"

fun json_value :: "'n json \<Rightarrow> 'n json_val" where
  "json_value JNull = VNull"
| "json_value (JBool b) = VBool b"
| "json_value (JNumber n) = VNumber n"
| "json_value (JString s) = VString s"
| "json_value (JArray vs) = VArray (map json_value vs)"
| "json_value (JObject fs) = VObject (fmap_of_list (map (\<lambda>(key, v). (key, json_value v)) fs))"

text \<open>The keys of an object are distinct.\<close>

fun json_wf :: "'n json \<Rightarrow> bool" where
  "json_wf (JArray vs) = list_all json_wf vs"
| "json_wf (JObject fs) = (distinct (map fst fs) \<and> list_all (\<lambda>(key, v). json_wf v) fs)"
| "json_wf v = True"

text \<open>What the definitions rely on from serde_json: numbers are printed with the characters of a
  JSON number and different numbers differently; a string literal starts with a quotation mark, and
  where it ends and which string it denotes can be read off it.\<close>

definition number_chars :: string where "number_chars = ''0123456789+-.eE''"

definition serde_printer :: "('n \<Rightarrow> string) \<Rightarrow> (string \<Rightarrow> string) \<Rightarrow> bool" where
  "serde_printer num str \<longleftrightarrow>
     inj num \<and> (\<forall>n. num n \<noteq> [] \<and> set (num n) \<subseteq> set number_chars) \<and>
     (\<forall>s. \<exists>w. str s = CHR 0x22 # w) \<and>
     (\<forall>s t u v. str s @ u = str t @ v \<longrightarrow> s = t)"

lemma serde_printerD:
  assumes "serde_printer num str"
  shows "num n = num k \<longleftrightarrow> n = k" "num n \<noteq> []" "set (num n) \<subseteq> set number_chars"
    "\<exists>w. str s = CHR 0x22 # w" "str s @ u = str t @ v \<Longrightarrow> s = t"
  using assms unfolding serde_printer_def by (blast dest: injD)+

section \<open>Printing is injective\<close>

text \<open>What may follow a printed value.\<close>

definition ended :: "string \<Rightarrow> bool" where
  "ended u \<longleftrightarrow> u = [] \<or> hd u \<notin> set number_chars"

lemma ended_simps [simp]: "ended []" "ended (CHR '','' # u)" "ended (CHR '']'' # u)" "ended (CHR ''}'' # u)"
  by (simp_all add: ended_def number_chars_def)

lemma number_end:
  assumes "set a \<subseteq> set number_chars" "set b \<subseteq> set number_chars" "ended u" "ended v" "a @ u = b @ v"
  shows "a = b"
proof -
  have "takeWhile (\<lambda>c. c \<in> set number_chars) (w @ x) = w" if "set w \<subseteq> set number_chars" "ended x" for w x
    using that by (cases x) (auto simp: ended_def takeWhile_append subset_iff takeWhile_tail
        intro: takeWhile_eq_all_conv [THEN iffD2])
  from this [OF assms(1,3)] this [OF assms(2,4)] show ?thesis
    using assms(5) by simp
qed

text \<open>The first character of a printed value.\<close>

lemma canonical_json_hd:
  assumes "serde_printer num str"
  shows "canonical_json num str v \<noteq> [] \<and> hd (canonical_json num str v) \<in>
    (case v of JNull \<Rightarrow> {CHR ''n''} | JBool b \<Rightarrow> {if b then CHR ''t'' else CHR ''f''} | JNumber n \<Rightarrow> set number_chars
     | JString s \<Rightarrow> {CHR 0x22} | JArray vs \<Rightarrow> {CHR ''[''} | JObject fs \<Rightarrow> {CHR ''{''})"
proof -
  have "num n \<noteq> [] \<and> hd (num n) \<in> set number_chars" for n
    using serde_printerD(2,3) [OF assms, of n] hd_in_set [of "num n"] by blast
  moreover have "str s \<noteq> [] \<and> hd (str s) = CHR 0x22" for s
    using serde_printerD(4) [OF assms, of s] by auto
  ultimately show ?thesis
    by (cases v) simp_all
qed

text \<open>A list of printed elements, separated by commas and closed by a bracket.\<close>

lemma join_inj:
  assumes "\<And>x y u v. x \<in> set xs \<Longrightarrow> y \<in> set ys \<Longrightarrow> ended u \<Longrightarrow> ended v \<Longrightarrow> enc x @ u = enc y @ v \<Longrightarrow> R x y \<and> u = v"
    and "\<And>z. z \<in> set xs \<union> set ys \<Longrightarrow> enc z \<noteq> [] \<and> hd (enc z) \<noteq> c"
    and "c \<noteq> CHR '',''" "c \<notin> set number_chars"
    and "join '','' (map enc xs) @ c # u = join '','' (map enc ys) @ c # v"
  shows "list_all2 R xs ys \<and> u = v"
  using assms(1,2,5)
proof (induction xs arbitrary: ys)
  case Nil
  have "ys = []"
  proof (rule ccontr)
    assume "ys \<noteq> []"
    then obtain y zs where "ys = y # zs"
      by (cases ys) auto
    then show False
      using Nil.prems(2) [of y] Nil.prems(3) by (cases zs; cases "enc y") auto
  qed
  then show ?case
    using Nil.prems(3) by simp
next
  case (Cons x xs)
  have split: "join '','' (map enc (z # zs)) @ c # w =
      enc z @ (if zs = [] then c # w else CHR '','' # join '','' (map enc zs) @ c # w)" for z zs w
    by (cases zs) simp_all
  obtain y zs where ys: "ys = y # zs"
    using Cons.prems(2) [of x] Cons.prems(3) by (cases ys; cases xs; cases "enc x") auto
  have ended: "ended (if zs = [] then c # w else CHR '','' # w')" for zs :: "'a list" and w w'
    using assms(4) by (simp add: ended_def number_chars_def)
  have R: "R x y" and tails: "(if xs = [] then c # u else CHR '','' # join '','' (map enc xs) @ c # u) =
      (if zs = [] then c # v else CHR '','' # join '','' (map enc zs) @ c # v)"
    using Cons.prems(1) [OF _ _ ended ended, of x y] Cons.prems(3) unfolding ys split by auto
  have "join '','' (map enc xs) @ c # u = join '','' (map enc zs) @ c # v"
    using tails assms(3) by (auto split: if_splits)
  then have "list_all2 R xs zs \<and> u = v"
    using Cons.prems(1,2) unfolding ys by (intro Cons.IH) auto
  then show ?case
    using R ys by simp
qed

lemma canonical_json_member_inj:
  assumes "serde_printer num str" "\<And>z u v. ended u \<Longrightarrow> ended v \<Longrightarrow> json_wf z \<Longrightarrow>
      canonical_json num str x @ u = canonical_json num str z @ v \<Longrightarrow> json_value x = json_value z \<and> u = v"
    and "ended u" "ended v" "json_wf y"
    and "(str k @ '':'' @ canonical_json num str x) @ u = (str l @ '':'' @ canonical_json num str y) @ v"
  shows "k = l \<and> json_value x = json_value y \<and> u = v"
proof -
  have kl: "k = l"
    using serde_printerD(5) [OF assms(1)] assms(6) unfolding append_assoc by blast
  then show ?thesis
    using assms(2) [OF assms(3-5)] assms(6) by simp
qed

lemma members_keys [simp]: "fst \<circ> (\<lambda>(k, v). (k, f v)) = fst"
  by auto

lemma distinct_sort_keys [simp]: "distinct (map fst (sort_key fst fs)) \<longleftrightarrow> distinct (map fst fs)"
  by (simp add: distinct_map)

lemma fmap_of_list_eq_iff:
  "distinct (map fst fs) \<Longrightarrow> distinct (map fst gs) \<Longrightarrow> fmap_of_list fs = fmap_of_list gs \<longleftrightarrow> set fs = set gs"
  using map_of_inject_set [of fs gs] by (metis fmap_of_list.rep_eq fmlookup_inject)

lemma fmap_of_list_sort:
  "distinct (map fst fs) \<Longrightarrow> fmap_of_list (map (\<lambda>(k, v). (k, f v)) (sort_key fst fs)) =
   fmap_of_list (map (\<lambda>(k, v). (k, f v)) fs)"
  by (simp add: fmap_of_list_eq_iff)

text \<open>The first character tells the constructor.\<close>

fun json_kind :: "'n json \<Rightarrow> nat" where
  "json_kind JNull = 0"
| "json_kind (JBool b) = 1"
| "json_kind (JNumber n) = 2"
| "json_kind (JString s) = 3"
| "json_kind (JArray vs) = 4"
| "json_kind (JObject fs) = 5"

definition char_kind :: "char \<Rightarrow> nat" where
  "char_kind c =
     (if c = CHR ''n'' then 0 else if c = CHR ''t'' \<or> c = CHR ''f'' then 1 else if c = CHR 0x22 then 3
      else if c = CHR ''['' then 4 else if c = CHR ''{'' then 5 else 2)"

lemma number_char_kind: "c \<in> set number_chars \<Longrightarrow> char_kind c = 2"
  by (auto simp: number_chars_def char_kind_def)

lemma json_kind_hd: "serde_printer num str \<Longrightarrow> json_kind v = char_kind (hd (canonical_json num str v))"
  using canonical_json_hd [of num str v] by (cases v) (simp_all add: number_char_kind, simp_all add: char_kind_def)

lemma canonical_json_kind:
  assumes "serde_printer num str" "canonical_json num str x @ u = canonical_json num str y @ v"
  shows "json_kind y = json_kind x"
proof -
  have "canonical_json num str x \<noteq> []" "canonical_json num str y \<noteq> []"
    using canonical_json_hd [OF assms(1)] by blast+
  then show ?thesis
    using assms(2) unfolding json_kind_hd [OF assms(1)] by (metis hd_append2)
qed

lemma canonical_json_hd_bracket:
  "serde_printer num str \<Longrightarrow> canonical_json num str v \<noteq> [] \<and> hd (canonical_json num str v) \<noteq> CHR '']''"
  using canonical_json_hd [of num str v] by (cases v) (auto simp: number_chars_def)

lemma canonical_json_members_inj:
  assumes "serde_printer num str"
    and "\<And>k a z u v. (k, a) \<in> set fs \<Longrightarrow> ended u \<Longrightarrow> ended v \<Longrightarrow> json_wf z \<Longrightarrow>
      canonical_json num str a @ u = canonical_json num str z @ v \<Longrightarrow> json_value a = json_value z \<and> u = v"
    and "json_wf (JObject fs)" "json_wf (JObject gs)"
    and "canonical_json num str (JObject fs) @ u = canonical_json num str (JObject gs) @ v"
  shows "json_value (JObject fs) = json_value (JObject gs) \<and> u = v"
proof -
  let ?enc = "\<lambda>(k, a). str k @ '':'' @ canonical_json num str a"
  have "list_all2 (\<lambda>(k, a) (l, b). k = l \<and> json_value a = json_value b) (sort_key fst fs) (sort_key fst gs) \<and> u = v"
  proof (rule join_inj [where enc = ?enc and c = "CHR ''}''"])
    show "?enc z \<noteq> [] \<and> hd (?enc z) \<noteq> CHR ''}''" for z
      using canonical_json_hd [OF assms(1), of "JString (fst z)"] by (auto simp: case_prod_beta)
  next
    fix p q u v
    assume mem: "p \<in> set (sort_key fst fs)" "q \<in> set (sort_key fst gs)" and ends: "ended u" "ended v"
      and eq: "?enc p @ u = ?enc q @ v"
    obtain k a l b where pq: "p = (k, a)" "q = (l, b)"
      by (cases p; cases q)
    have "(k, a) \<in> set fs" "json_wf b"
      using mem assms(4) by (auto simp: pq list_all_iff)
    then have "k = l \<and> json_value a = json_value b \<and> u = v"
      using eq by (intro canonical_json_member_inj [OF assms(1) assms(2) [of k a] ends]) (simp_all add: pq)
    then show "(case p of (k, a) \<Rightarrow> \<lambda>(l, b). k = l \<and> json_value a = json_value b) q \<and> u = v"
      by (simp add: pq)
  qed (use assms(5) in \<open>auto simp: number_chars_def\<close>)
  then have "map (\<lambda>(k, a). (k, json_value a)) (sort_key fst fs) = map (\<lambda>(k, a). (k, json_value a)) (sort_key fst gs)"
    and "u = v"
    by (auto simp: list_all2_conv_all_nth list_eq_iff_nth_eq case_prod_beta)
  then show ?thesis
    using assms(3,4) fmap_of_list_sort [of fs json_value] fmap_of_list_sort [of gs json_value] by simp
qed

lemma canonical_json_inj:
  assumes "serde_printer num str"
  shows "json_wf x \<Longrightarrow> json_wf y \<Longrightarrow> ended u \<Longrightarrow> ended v \<Longrightarrow>
    canonical_json num str x @ u = canonical_json num str y @ v \<Longrightarrow> json_value x = json_value y \<and> u = v"
proof (induction x arbitrary: y u v)
  case JNull
  then show ?case
    using canonical_json_kind [OF assms JNull.prems(5)] by (cases y) simp_all
next
  case (JBool b)
  then obtain d where "y = JBool d"
    using canonical_json_kind [OF assms JBool.prems(5)] by (cases y) simp_all
  then show ?case
    using JBool.prems(5) by (simp split: if_splits)
next
  case (JNumber n)
  obtain k where y: "y = JNumber k"
    using canonical_json_kind [OF assms JNumber.prems(5)] by (cases y) simp_all
  have "num n = num k"
    using JNumber.prems(5) y by (intro number_end [OF serde_printerD(3) [OF assms] serde_printerD(3) [OF assms] JNumber.prems(3,4)]) simp
  then show ?case
    using JNumber.prems(5) y serde_printerD(1) [OF assms] by simp
next
  case (JString s)
  obtain t where y: "y = JString t"
    using canonical_json_kind [OF assms JString.prems(5)] by (cases y) simp_all
  have "str s @ u = str t @ v"
    using JString.prems(5) y by simp
  then have "s = t"
    by (rule serde_printerD(5) [OF assms])
  then show ?case
    using JString.prems(5) y by simp
next
  case (JArray xs)
  obtain ys where y: "y = JArray ys"
    using canonical_json_kind [OF assms JArray.prems(5)] by (cases y) simp_all
  have "list_all2 (\<lambda>a b. json_value a = json_value b) xs ys \<and> u = v"
  proof (rule join_inj [where enc = "canonical_json num str" and c = "CHR '']''"])
    show "canonical_json num str z \<noteq> [] \<and> hd (canonical_json num str z) \<noteq> CHR '']''" for z
      by (rule canonical_json_hd_bracket [OF assms])
  qed (use JArray y in \<open>auto simp: number_chars_def list_all_iff\<close>)
  then show ?case
    using y by (simp add: list_all2_conv_all_nth list_eq_iff_nth_eq)
next
  case (JObject fs)
  obtain gs where y: "y = JObject gs"
    using canonical_json_kind [OF assms JObject.prems(5)] by (cases y) simp_all
  have "json_value (JObject fs) = json_value (JObject gs) \<and> u = v"
    using JObject.prems y
    by (intro canonical_json_members_inj [OF assms JObject.IH]) (auto simp: list_all_iff)
  then show ?case
    using y by simp
qed

lemma sorted_members_eq:
  assumes "distinct (map fst fs)" "distinct (map fst gs)"
    and "set (map (\<lambda>(k, v). (k, f v)) fs) = set (map (\<lambda>(k, v). (k, f v)) gs)"
  shows "map (\<lambda>(k, v). (k, f v)) (sort_key fst fs) = map (\<lambda>(k, v). (k, f v)) (sort_key fst gs)"
proof (rule map_sorted_distinct_set_unique [where f = fst])
  show "inj_on fst (set (map (\<lambda>(k, v). (k, f v)) (sort_key fst fs)) \<union> set (map (\<lambda>(k, v). (k, f v)) (sort_key fst gs)))"
    using assms(1) distinct_map [of fst "map (\<lambda>(k, v). (k, f v)) fs"] assms(3) by simp
qed (use assms in simp_all)

lemma json_value_eqs:
  "VNull = json_value y \<longleftrightarrow> y = JNull" "VBool b = json_value y \<longleftrightarrow> y = JBool b"
  "VNumber n = json_value y \<longleftrightarrow> y = JNumber n" "VString s = json_value y \<longleftrightarrow> y = JString s"
  by (cases y; auto)+

lemma canonical_json_complete:
  "json_wf x \<Longrightarrow> json_wf y \<Longrightarrow> json_value x = json_value y \<Longrightarrow> canonical_json num str x = canonical_json num str y"
proof (induction x arbitrary: y)
  case (JArray xs)
  then obtain ys where y: "y = JArray ys" "map json_value xs = map json_value ys"
    by (cases y) simp_all
  have "map (canonical_json num str) xs = map (canonical_json num str) ys"
  proof (rule nth_equalityI)
    fix i
    assume i: "i < length (map (canonical_json num str) xs)"
    then have "length ys = length xs" "json_value (xs ! i) = json_value (ys ! i)"
      using y(2) map_eq_imp_length_eq [OF y(2)] by (auto simp: list_eq_iff_nth_eq)
    then show "map (canonical_json num str) xs ! i = map (canonical_json num str) ys ! i"
      using JArray.IH [of "xs ! i" "ys ! i"] JArray.prems(1,2) i y(1) by (simp add: list_all_length)
  qed (use map_eq_imp_length_eq [OF y(2)] in simp)
  then show ?case
    using y(1) by simp
next
  case (JObject fs)
  then obtain gs where y: "y = JObject gs"
    and "fmap_of_list (map (\<lambda>(k, v). (k, json_value v)) fs) = fmap_of_list (map (\<lambda>(k, v). (k, json_value v)) gs)"
    by (cases y) simp_all
  then have eq: "map (\<lambda>(k, v). (k, json_value v)) (sort_key fst fs) = map (\<lambda>(k, v). (k, json_value v)) (sort_key fst gs)"
    using JObject.prems(1,2) by (intro sorted_members_eq) (simp_all add: fmap_of_list_eq_iff del: set_map)
  note len = map_eq_imp_length_eq [OF eq]
  have "map (\<lambda>(k, v). str k @ '':'' @ canonical_json num str v) (sort_key fst fs) =
      map (\<lambda>(k, v). str k @ '':'' @ canonical_json num str v) (sort_key fst gs)"
  proof (rule nth_equalityI)
    fix i
    assume i: "i < length (map (\<lambda>(k, v). str k @ '':'' @ canonical_json num str v) (sort_key fst fs))"
    obtain k a l b where at: "sort_key fst fs ! i = (k, a)" "sort_key fst gs ! i = (l, b)"
      by (cases "sort_key fst fs ! i"; cases "sort_key fst gs ! i")
    have "(k, a) \<in> set fs" "(l, b) \<in> set gs"
      using i len at nth_mem [of i "sort_key fst fs"] nth_mem [of i "sort_key fst gs"] by simp_all
    moreover have "k = l" "json_value a = json_value b"
      using arg_cong [OF eq, of "\<lambda>xs. xs ! i"] i len at by simp_all
    ultimately show "map (\<lambda>(k, v). str k @ '':'' @ canonical_json num str v) (sort_key fst fs) ! i =
        map (\<lambda>(k, v). str k @ '':'' @ canonical_json num str v) (sort_key fst gs) ! i"
      using JObject.IH [of "(k, a)" a b] JObject.prems(1,2) i len at y by (auto simp: list_all_iff)
  qed (use len in simp)
  then show ?case
    using y by simp
qed (simp_all add: json_value_eqs)

text \<open>Printers for the examples: natural numbers, and string literals with escapes.\<close>

definition escaped :: "char \<Rightarrow> string" where
  "escaped c = (if c = CHR 0x22 \<or> c = CHR 0x5C then [CHR 0x5C, c] else [c])"

definition quoted :: "string \<Rightarrow> string" where
  "quoted s = CHR 0x22 # concat (map escaped s) @ [CHR 0x22]"

lemma quoted_inj: "concat (map escaped s) @ CHR 0x22 # u = concat (map escaped t) @ CHR 0x22 # v \<Longrightarrow> s = t"
proof (induction s arbitrary: t)
  case Nil
  then show ?case
    by (cases t) (auto simp: escaped_def split: if_splits)
next
  case (Cons c s)
  then show ?case
    by (cases t) (auto simp: escaped_def split: if_splits)
qed

lemma digits_number: "list_all (\<lambda>d. digit_char d \<in> set number_chars) [0..<10]"
  by code_simp

lemma digit_char_number: "d < 10 \<Longrightarrow> digit_char d \<in> set number_chars"
  using digits_number unfolding list_all_iff set_upt by (meson atLeastLessThan_iff zero_le)

lemma show_nat_number: "set (show_nat n) \<subseteq> set number_chars"
  by (induction n rule: show_nat.induct) (subst show_nat.simps, auto simp: digit_char_number)

lemma sample_printer: "serde_printer show_nat quoted"
  unfolding serde_printer_def
proof (intro conjI allI impI)
  show "inj show_nat"
    by (rule injI) (rule show_nat_inj)
  show "s = t" if "quoted s @ u = quoted t @ v" for s t u v
    using quoted_inj [of s u t v] that by (simp add: quoted_def)
qed (use show_nat_not_Nil show_nat_number in \<open>auto simp: quoted_def\<close>)

text \<open>C28. Canonical JSON prints exactly the value: two JSON values print the same text if and only if
  they are equal, where the order of the members of an object does not matter at any depth.\<close>

theorem canonical_json_prints_the_value:
  assumes "serde_printer num str" "json_wf x" "json_wf y"
  shows "canonical_json num str x = canonical_json num str y \<longleftrightarrow> json_value x = json_value y"
  using canonical_json_inj [OF assms, of "[]" "[]"] canonical_json_complete [OF assms(2,3)] by auto

theorem canonical_json_prints_the_value_witness:
  "canonical_json show_nat quoted (JObject [(''b'', JNumber 1), (''a'', JArray [JNull])]) =
   canonical_json show_nat quoted (JObject [(''a'', JArray [JNull]), (''b'', JNumber 1)])"
  using canonical_json_prints_the_value [OF sample_printer,
      of "JObject [(''b'', JNumber 1), (''a'', JArray [JNull])]" "JObject [(''a'', JArray [JNull]), (''b'', JNumber 1)]"]
  by (simp add: fmap_of_list_eq_iff insert_commute)

section \<open>Normalisation\<close>

lemma append_u64_inj: "append_u64 a @ u = append_u64 b @ v \<longleftrightarrow> a = b \<and> u = v"
proof -
  have "from_be (be_bytes 8 (unat w)) = unat w" for w :: u64
    by (rule from_be_be_bytes) (use unat_u64_less [of w] in simp)
  then have "a = b" if "be_bytes 8 (unat a) = be_bytes 8 (unat b)"
    using that by (metis word_unat_eq_iff)
  then show ?thesis
    by (auto simp: append_u64_def)
qed

lemma length_append_u64 [simp]: "length (append_u64 a) = 8"
  by (simp add: append_u64_def)

lemma unat_u64_of_nat: "n < 2 ^ 64 \<Longrightarrow> unat (word_of_nat n :: u64) = n"
  by (simp add: unat_of_nat)

lemma u64_length_inj:
  "word_of_nat m = (word_of_nat n :: u64) \<Longrightarrow> m < 2 ^ 64 \<Longrightarrow> n < 2 ^ 64 \<Longrightarrow> m = n"
  using unat_u64_of_nat by metis

lemma append_bytes_inj:
  assumes "append_bytes f x @ u = append_bytes f y @ v" "length (append_bytes f x @ u) < 2 ^ 64"
  shows "x = y \<and> u = v"
proof -
  have eq: "word_of_nat (length x) = (word_of_nat (length y) :: u64)" "x @ u = y @ v"
    using assms(1) by (simp_all add: append_bytes_def append_u64_inj)
  have "length (append_bytes f y @ v) < 2 ^ 64"
    using assms by simp
  then have "length x < 2 ^ 64" "length y < 2 ^ 64"
    using assms(2) by (simp_all add: append_bytes_def)
  then show ?thesis
    using u64_length_inj [OF eq(1)] eq(2) by simp
qed

lemma append_str_inj:
  assumes "append_str f x @ u = append_str f y @ v" "length (append_str f x @ u) < 2 ^ 64"
  shows "x = y \<and> u = v"
  using append_bytes_inj [of f "string_bytes x" u "string_bytes y" v] assms
  by (metis append_str_def bytes_string_string_bytes)

text \<open>A list of items after their number.\<close>

lemma items_inj:
  assumes "\<And>x y u v. x \<in> set xs \<Longrightarrow> y \<in> set ys \<Longrightarrow> enc x @ u = enc y @ v \<Longrightarrow> length (enc x @ u) < 2 ^ 64 \<Longrightarrow> R x y \<and> u = v"
    and "length xs = length ys" "concat (map enc xs) @ u = concat (map enc ys) @ v"
    and "length (concat (map enc xs) @ u) < 2 ^ 64"
  shows "list_all2 R xs ys \<and> u = v"
  using assms(2,1,3,4)
proof (induction xs ys rule: list_induct2)
  case (Cons x xs y ys)
  have "R x y \<and> concat (map enc xs) @ u = concat (map enc ys) @ v"
    using Cons.prems by (intro Cons.prems(1)) simp_all
  moreover from this have "list_all2 R xs ys \<and> u = v"
    using Cons.prems by (intro Cons.IH) auto
  ultimately show ?case
    by simp
qed simp

lemma length_items: "(\<And>x. enc x \<noteq> []) \<Longrightarrow> length xs \<le> length (concat (map enc xs))"
proof (induction xs)
  case (Cons x xs)
  then show ?case
    using Cons.prems [of x] by (cases "enc x") simp_all
qed simp

lemma counted_inj:
  assumes "\<And>x y u v. x \<in> set xs \<Longrightarrow> y \<in> set ys \<Longrightarrow> enc x @ u = enc y @ v \<Longrightarrow> length (enc x @ u) < 2 ^ 64 \<Longrightarrow> R x y \<and> u = v"
    and "\<And>x. enc x \<noteq> []"
    and "append_u64 (word_of_nat (length xs)) @ concat (map enc xs) @ u =
      append_u64 (word_of_nat (length ys)) @ concat (map enc ys) @ v"
    and "length (append_u64 (word_of_nat (length xs)) @ concat (map enc xs) @ u) < 2 ^ 64"
  shows "list_all2 R xs ys \<and> u = v"
proof -
  have eq: "word_of_nat (length xs) = (word_of_nat (length ys) :: u64)"
    "concat (map enc xs) @ u = concat (map enc ys) @ v"
    using assms(3) by (simp_all add: append_u64_inj)
  have small: "length (concat (map enc xs) @ u) < 2 ^ 64"
    using assms(4) by simp
  have "length xs < 2 ^ 64" "length ys < 2 ^ 64"
    using length_items [of enc, OF assms(2)] small eq(2)
    by (metis (no_types) le_less_trans length_append le_add1)+
  then have "length xs = length ys"
    by (rule u64_length_inj [OF eq(1)])
  then show ?thesis
    using eq(2) small by (rule items_inj [rotated]) (rule assms(1))
qed

text \<open>What an optional text contributes.\<close>

definition shown_option :: "string option \<Rightarrow> string" where
  "shown_option v = (case v of None \<Rightarrow> ''<none>'' | Some s \<Rightarrow> s)"

definition shown_json :: "('n \<Rightarrow> string) \<Rightarrow> (string \<Rightarrow> string) \<Rightarrow> 'n json option \<Rightarrow> string" where
  "shown_json num str v = (case v of None \<Rightarrow> ''<none>'' | Some j \<Rightarrow> canonical_json num str j)"

lemma append_options:
  "append_optional_str f v = append_str f (shown_option v)"
  "append_json num str f j = append_str f (shown_json num str j)"
  by (simp_all add: append_optional_str_def append_json_def shown_option_def shown_json_def append_str_def
      split: option.splits)

lemma shown_json_eq_iff:
  assumes "serde_printer num str" "pred_option json_wf x" "pred_option json_wf y"
  shows "shown_json num str x = shown_json num str y \<longleftrightarrow> map_option json_value x = map_option json_value y"
proof -
  have "canonical_json num str j \<noteq> ''<none>''" for j
    using canonical_json_hd [OF assms(1), of j] by (cases j) (auto simp: number_chars_def)
  moreover have "canonical_json num str a = canonical_json num str b \<longleftrightarrow> json_value a = json_value b"
    if "json_wf a" "json_wf b" for a b
    using canonical_json_inj [OF assms(1) that, of "[]" "[]"] canonical_json_complete [OF that, of num str] by auto
  ultimately show ?thesis
    using assms(2,3) by (cases x; cases y) (simp_all add: shown_json_def eq_commute [of "''<none>''"])
qed

text \<open>Two maps with the same bindings, and two messages with the same parts.\<close>

definition same_member :: "string \<times> 'n json \<Rightarrow> string \<times> 'n json \<Rightarrow> bool" where
  "same_member p q \<longleftrightarrow> fst p = fst q \<and> json_value (snd p) = json_value (snd q)"

definition same_message :: "prompt_message \<Rightarrow> prompt_message \<Rightarrow> bool" where
  "same_message a b \<longleftrightarrow> pm_role a = pm_role b \<and> pm_content a = pm_content b \<and>
     shown_option (pm_name a) = shown_option (pm_name b)"

definition members_wf :: "(string \<times> 'n json) list \<Rightarrow> bool" where
  "members_wf m \<longleftrightarrow> list_all (\<lambda>p. json_wf (snd p)) m"

lemma append_u64_nonempty [simp]: "append_u64 a \<noteq> []"
  using length_append_u64 [of a] by (metis list.size(3) zero_neq_numeral)

lemma append_nonempty [simp]: "append_str f x \<noteq> []" "append_bytes f y \<noteq> []"
  by (simp_all add: append_str_def append_bytes_def)

lemma append_json_map_inj:
  assumes "serde_printer num str" "members_wf xs" "members_wf ys"
    and "append_json_map num str f g h xs @ u = append_json_map num str f g h ys @ v"
    and "length (append_json_map num str f g h xs @ u) < 2 ^ 64"
  shows "list_all2 same_member xs ys \<and> u = v"
proof (rule counted_inj)
  let ?enc = "\<lambda>(name, j). append_str g name @ append_str h (canonical_json num str j)"
  show "append_u64 (word_of_nat (length xs)) @ concat (map ?enc xs) @ u =
      append_u64 (word_of_nat (length ys)) @ concat (map ?enc ys) @ v"
    using assms(4) by (simp add: append_json_map_def append_str_def)
  show "length (append_u64 (word_of_nat (length xs)) @ concat (map ?enc xs) @ u) < 2 ^ 64"
    using assms(5) by (simp add: append_json_map_def append_str_def)
  show "same_member p q \<and> s = t" if mem: "p \<in> set xs" "q \<in> set ys"
    and eq: "?enc p @ s = ?enc q @ t" and len: "length (?enc p @ s) < 2 ^ 64" for p q s t
  proof -
    obtain k a l b where pq: "p = (k, a)" "q = (l, b)"
      by (cases p; cases q)
    have kl: "k = l \<and> append_str h (canonical_json num str a) @ s = append_str h (canonical_json num str b) @ t"
      using eq len by (intro append_str_inj [of g]) (simp_all add: pq)
    then have "canonical_json num str a = canonical_json num str b \<and> s = t"
      using len by (intro append_str_inj [of h]) (simp_all add: pq)
    moreover have "json_wf a" "json_wf b"
      using assms(2,3) mem by (force simp: pq members_wf_def list_all_iff)+
    ultimately show ?thesis
      using kl canonical_json_inj [OF assms(1), of a b "[]" "[]"] by (simp add: same_member_def pq)
  qed
qed (simp add: case_prod_beta)

lemma append_json_map_same:
  assumes "members_wf xs" "members_wf ys" "list_all2 same_member xs ys"
  shows "append_json_map num str f g h xs = append_json_map num str f g h ys"
proof -
  have "canonical_json num str (snd (xs ! i)) = canonical_json num str (snd (ys ! i)) \<and> fst (xs ! i) = fst (ys ! i)"
    if "i < length xs" for i
    using that assms canonical_json_complete [of "snd (xs ! i)" "snd (ys ! i)" num str]
    by (simp add: members_wf_def list_all_length list_all2_conv_all_nth same_member_def)
  then have "map (\<lambda>(name, v). append_str g name @ append_bytes h (string_bytes (canonical_json num str v))) xs =
      map (\<lambda>(name, v). append_str g name @ append_bytes h (string_bytes (canonical_json num str v))) ys"
    using list_all2_lengthD [OF assms(3)] by (intro nth_equalityI) (simp_all add: case_prod_beta)
  then show ?thesis
    using list_all2_lengthD [OF assms(3)] by (simp add: append_json_map_def)
qed

text \<open>The messages of a prompt.\<close>

definition message_bytes :: "prompt_message \<Rightarrow> bytes" where
  "message_bytes msg = append_str (string_bytes ''message.role'') (pm_role msg) @
     append_str (string_bytes ''message.name'') (shown_option (pm_name msg)) @
     append_str (string_bytes ''message.content'') (pm_content msg)"

lemma message_bytes_inj:
  assumes "message_bytes a @ u = message_bytes b @ v" "length (message_bytes a @ u) < 2 ^ 64"
  shows "same_message a b \<and> u = v"
proof -
  have role: "pm_role a = pm_role b \<and> append_str (string_bytes ''message.name'') (shown_option (pm_name a)) @
      append_str (string_bytes ''message.content'') (pm_content a) @ u =
      append_str (string_bytes ''message.name'') (shown_option (pm_name b)) @
      append_str (string_bytes ''message.content'') (pm_content b) @ v"
    using assms by (intro append_str_inj [of "string_bytes ''message.role''"]) (simp_all add: message_bytes_def)
  then have name: "shown_option (pm_name a) = shown_option (pm_name b) \<and>
      append_str (string_bytes ''message.content'') (pm_content a) @ u =
      append_str (string_bytes ''message.content'') (pm_content b) @ v"
    using assms(2) by (intro append_str_inj [of "string_bytes ''message.name''"]) (simp_all add: message_bytes_def)
  then have "pm_content a = pm_content b \<and> u = v"
    using assms(2) by (intro append_str_inj [of "string_bytes ''message.content''"]) (simp_all add: message_bytes_def)
  then show ?thesis
    using role name by (simp add: same_message_def)
qed

lemma message_bytes_same: "same_message a b \<Longrightarrow> message_bytes a = message_bytes b"
  by (simp add: same_message_def message_bytes_def)

text \<open>A run of text fields.\<close>

definition texts :: "string list \<Rightarrow> string list \<Rightarrow> bytes" where
  "texts fs xs = concat (map2 (\<lambda>f x. append_str (string_bytes f) x) fs xs)"

lemma texts_simps [simp]: "texts [] xs = []" "texts (f # fs) (x # xs) = append_str (string_bytes f) x @ texts fs xs"
  by (simp_all add: texts_def)

lemma texts_inj:
  "length xs = length fs \<Longrightarrow> length ys = length fs \<Longrightarrow> texts fs xs @ u = texts fs ys @ v \<Longrightarrow>
   length (texts fs xs @ u) < 2 ^ 64 \<Longrightarrow> xs = ys \<and> u = v"
proof (induction fs arbitrary: xs ys)
  case (Cons f fs)
  then obtain x xs1 y ys1 where xs: "xs = x # xs1" "ys = y # ys1"
    by (metis length_Suc_conv)
  have "x = y \<and> texts fs xs1 @ u = texts fs ys1 @ v"
    using Cons.prems(3,4) by (intro append_str_inj [of "string_bytes f"]) (simp_all add: xs)
  then show ?case
    using Cons.IH [of xs1 ys1] Cons.prems(1,2,4) by (simp add: xs)
qed simp

definition prompt_texts :: "('n \<Rightarrow> string) \<Rightarrow> (string \<Rightarrow> string) \<Rightarrow> 'n prompt_input \<Rightarrow> string list" where
  "prompt_texts num str a = [pi_provider a, pi_model a, shown_option (pi_model_version a),
     shown_option (pi_system_prompt a), shown_json num str (pi_tool_schema a)]"

definition prompt_texts2 :: "'n prompt_input \<Rightarrow> string list" where
  "prompt_texts2 a = [shown_option (pi_output_format a), shown_option (pi_retrieval_context_hash a),
     pi_application_namespace a]"

lemma normalize_prompt_input_parts:
  "normalize_prompt_input num str a =
     append_bytes (string_bytes ''version'') PROMPT_NORMALIZATION_VERSION @
     texts [''provider'', ''model'', ''model_version'', ''system_prompt'', ''tool_schema''] (prompt_texts num str a) @
     append_json_map num str (string_bytes ''sampling_parameters'') (string_bytes ''sampling.name'')
       (string_bytes ''sampling.value'') (pi_sampling_parameters a) @
     texts [''output_format'', ''retrieval_context_hash'', ''application_namespace''] (prompt_texts2 a) @
     append_u64 (word_of_nat (length (pi_messages a))) @ concat (map message_bytes (pi_messages a)) @ []"
  by (simp add: normalize_prompt_input_def prompt_texts_def prompt_texts2_def append_options message_bytes_def [abs_def])

text \<open>The same request, but for an absent optional text and the text \<open><none>\<close>.\<close>

definition same_prompt :: "'n prompt_input \<Rightarrow> 'n prompt_input \<Rightarrow> bool" where
  "same_prompt a b \<longleftrightarrow>
     pi_provider a = pi_provider b \<and> pi_model a = pi_model b \<and>
     shown_option (pi_model_version a) = shown_option (pi_model_version b) \<and>
     shown_option (pi_system_prompt a) = shown_option (pi_system_prompt b) \<and>
     map_option json_value (pi_tool_schema a) = map_option json_value (pi_tool_schema b) \<and>
     list_all2 same_member (pi_sampling_parameters a) (pi_sampling_parameters b) \<and>
     shown_option (pi_output_format a) = shown_option (pi_output_format b) \<and>
     shown_option (pi_retrieval_context_hash a) = shown_option (pi_retrieval_context_hash b) \<and>
     pi_application_namespace a = pi_application_namespace b \<and>
     list_all2 same_message (pi_messages a) (pi_messages b)"

definition prompt_wf :: "'n prompt_input \<Rightarrow> bool" where
  "prompt_wf a \<longleftrightarrow> pred_option json_wf (pi_tool_schema a) \<and> members_wf (pi_sampling_parameters a)"

lemma same_prompt_parts:
  assumes "serde_printer num str" "prompt_wf a" "prompt_wf b"
  shows "same_prompt a b \<longleftrightarrow> prompt_texts num str a = prompt_texts num str b \<and>
    list_all2 same_member (pi_sampling_parameters a) (pi_sampling_parameters b) \<and>
    prompt_texts2 a = prompt_texts2 b \<and> list_all2 same_message (pi_messages a) (pi_messages b)"
  using assms shown_json_eq_iff [OF assms(1), of "pi_tool_schema a" "pi_tool_schema b"]
  by (auto simp: same_prompt_def prompt_texts_def prompt_texts2_def prompt_wf_def)

lemma normalize_prompt_input_inj:
  assumes "serde_printer num str" "prompt_wf a" "prompt_wf b"
    and "length (normalize_prompt_input num str a) < 2 ^ 64"
    and "normalize_prompt_input num str a = normalize_prompt_input num str b"
  shows "same_prompt a b"
proof -
  note len = assms(4) [unfolded normalize_prompt_input_parts]
  note append_bytes_inj [OF assms(5) [unfolded normalize_prompt_input_parts] len, THEN conjunct2]
  then have texts1: "prompt_texts num str a = prompt_texts num str b \<and>
     append_json_map num str (string_bytes ''sampling_parameters'') (string_bytes ''sampling.name'')
       (string_bytes ''sampling.value'') (pi_sampling_parameters a) @
     texts [''output_format'', ''retrieval_context_hash'', ''application_namespace''] (prompt_texts2 a) @
     append_u64 (word_of_nat (length (pi_messages a))) @ concat (map message_bytes (pi_messages a)) @ [] =
     append_json_map num str (string_bytes ''sampling_parameters'') (string_bytes ''sampling.name'')
       (string_bytes ''sampling.value'') (pi_sampling_parameters b) @
     texts [''output_format'', ''retrieval_context_hash'', ''application_namespace''] (prompt_texts2 b) @
     append_u64 (word_of_nat (length (pi_messages b))) @ concat (map message_bytes (pi_messages b)) @ []"
    by (rule texts_inj [rotated 2]) (use len in \<open>simp_all add: prompt_texts_def del: texts_simps\<close>)
  have members: "list_all2 same_member (pi_sampling_parameters a) (pi_sampling_parameters b) \<and>
     texts [''output_format'', ''retrieval_context_hash'', ''application_namespace''] (prompt_texts2 a) @
     append_u64 (word_of_nat (length (pi_messages a))) @ concat (map message_bytes (pi_messages a)) @ [] =
     texts [''output_format'', ''retrieval_context_hash'', ''application_namespace''] (prompt_texts2 b) @
     append_u64 (word_of_nat (length (pi_messages b))) @ concat (map message_bytes (pi_messages b)) @ []"
    by (rule append_json_map_inj [OF assms(1) _ _ texts1 [THEN conjunct2]])
      (use len assms(2,3) in \<open>simp_all add: prompt_wf_def del: texts_simps\<close>)
  have texts2: "prompt_texts2 a = prompt_texts2 b \<and>
     append_u64 (word_of_nat (length (pi_messages a))) @ concat (map message_bytes (pi_messages a)) @ [] =
     append_u64 (word_of_nat (length (pi_messages b))) @ concat (map message_bytes (pi_messages b)) @ []"
    by (rule texts_inj [OF _ _ members [THEN conjunct2]])
      (use len in \<open>simp_all add: prompt_texts2_def del: texts_simps\<close>)
  have "list_all2 same_message (pi_messages a) (pi_messages b) \<and> ([] :: bytes) = []"
  proof (rule counted_inj [OF _ _ texts2 [THEN conjunct2]])
    show "same_message x y \<and> u = v" if "message_bytes x @ u = message_bytes y @ v" "length (message_bytes x @ u) < 2 ^ 64"
      for x y u v
      using that by (rule message_bytes_inj)
    show "message_bytes x \<noteq> []" for x
      by (simp add: message_bytes_def)
    show "length (append_u64 (word_of_nat (length (pi_messages a))) @ concat (map message_bytes (pi_messages a)) @ []) < 2 ^ 64"
      using len by simp
  qed
  then show ?thesis
    using texts1 members texts2 same_prompt_parts [OF assms(1-3)] by blast
qed

lemma normalize_prompt_input_same:
  assumes "serde_printer num str" "prompt_wf a" "prompt_wf b" "same_prompt a b"
  shows "normalize_prompt_input num str a = normalize_prompt_input num str b"
proof -
  have "map message_bytes (pi_messages a) = map message_bytes (pi_messages b)"
    using assms(4) message_bytes_same by (auto simp: same_prompt_def list_all2_conv_all_nth list_eq_iff_nth_eq)
  moreover have "append_json_map num str f g h (pi_sampling_parameters a) =
      append_json_map num str f g h (pi_sampling_parameters b)" for f g h
    using assms(2-4) by (intro append_json_map_same) (simp_all add: prompt_wf_def same_prompt_def)
  ultimately show ?thesis
    using same_prompt_parts [OF assms(1-3)] assms(4) list_all2_lengthD [of same_message "pi_messages a" "pi_messages b"]
    by (simp add: normalize_prompt_input_parts)
qed

text \<open>C29. The normalised bytes determine a prompt request: two requests have the same normal form if and
  only if all their fields agree, JSON as values, messages and parameters in order. The one
  exception is the marker of a missing optional text: a missing text and the literal \<open><none>\<close> have
  the same normal form.\<close>

theorem prompt_normal_form_exact:
  assumes "serde_printer num str" "prompt_wf a" "prompt_wf b"
    and "length (normalize_prompt_input num str a) < 2 ^ 64"
  shows "normalize_prompt_input num str a = normalize_prompt_input num str b \<longleftrightarrow> same_prompt a b"
  using normalize_prompt_input_inj [OF assms] normalize_prompt_input_same [OF assms(1-3)] by blast

theorem prompt_normal_form_exact_witness:
  "normalize_prompt_input show_nat quoted (prompt_input_new ''p'' ''m'' ''ns'') =
     normalize_prompt_input show_nat quoted ((prompt_input_new ''p'' ''m'' ''ns'')\<lparr>pi_system_prompt := Some ''<none>''\<rparr>) \<and>
   normalize_prompt_input show_nat quoted (prompt_input_new ''p'' ''m'' ''ns'') \<noteq>
     normalize_prompt_input show_nat quoted ((prompt_input_new ''p'' ''m'' ''ns'')\<lparr>pi_system_prompt := Some []\<rparr>)"
proof -
  have wf: "prompt_wf (prompt_input_new ''p'' ''m'' ''ns'' :: nat prompt_input)"
    "prompt_wf ((prompt_input_new ''p'' ''m'' ''ns'')\<lparr>pi_system_prompt := x\<rparr> :: nat prompt_input)" for x
    by (simp_all add: prompt_wf_def prompt_input_new_def members_wf_def)
  have len: "length (normalize_prompt_input show_nat quoted (prompt_input_new ''p'' ''m'' ''ns'')) < 2 ^ 64"
    by (simp add: normalize_prompt_input_def prompt_input_new_def append_options append_str_def append_bytes_def
        append_json_map_def shown_option_def shown_json_def PROMPT_NORMALIZATION_VERSION_def)
  show ?thesis
    using prompt_normal_form_exact [OF sample_printer wf(1) wf(2) len]
    by (simp add: same_prompt_def prompt_input_new_def shown_option_def)
qed

definition same_embedding :: "'n embedding_input \<Rightarrow> 'n embedding_input \<Rightarrow> bool" where
  "same_embedding a b \<longleftrightarrow>
     ei_model a = ei_model b \<and> shown_option (ei_model_version a) = shown_option (ei_model_version b) \<and>
     ei_input_content_hash a = ei_input_content_hash b \<and>
     list_all2 same_member (ei_normalization_settings a) (ei_normalization_settings b) \<and>
     ei_chunking_strategy a = ei_chunking_strategy b \<and> ei_dimensions a = ei_dimensions b \<and>
     ei_application_namespace a = ei_application_namespace b"

definition embedding_texts :: "'n embedding_input \<Rightarrow> string list" where
  "embedding_texts a = [ei_model a, shown_option (ei_model_version a), ei_input_content_hash a]"

lemma normalize_embedding_input_parts:
  "normalize_embedding_input num str a =
     append_bytes (string_bytes ''version'') EMBEDDING_NORMALIZATION_VERSION @
     texts [''model'', ''model_version'', ''input_content_hash''] (embedding_texts a) @
     append_json_map num str (string_bytes ''normalization_settings'') (string_bytes ''normalization.name'')
       (string_bytes ''normalization.value'') (ei_normalization_settings a) @
     append_str (string_bytes ''chunking_strategy'') (ei_chunking_strategy a) @
     append_u64 (ucast (ei_dimensions a)) @
     append_str (string_bytes ''application_namespace'') (ei_application_namespace a) @ []"
  by (simp add: normalize_embedding_input_def embedding_texts_def append_options)

lemma ucast_u32_inj: "ucast x = (ucast y :: u64) \<longleftrightarrow> x = (y :: u32)"
  by transfer simp

text \<open>The same for embedding requests.\<close>

lemma embedding_normal_form_exact:
  assumes "serde_printer num str" "members_wf (ei_normalization_settings a)" "members_wf (ei_normalization_settings b)"
    and "length (normalize_embedding_input num str a) < 2 ^ 64"
  shows "normalize_embedding_input num str a = normalize_embedding_input num str b \<longleftrightarrow> same_embedding a b"
proof
  let ?tail = "\<lambda>c. append_u64 (ucast (ei_dimensions c)) @
     append_str (string_bytes ''application_namespace'') (ei_application_namespace c) @ []"
  let ?text = "\<lambda>c. append_str (string_bytes ''chunking_strategy'') (ei_chunking_strategy c) @ ?tail c"
  let ?map = "\<lambda>c. append_json_map num str (string_bytes ''normalization_settings'')
     (string_bytes ''normalization.name'') (string_bytes ''normalization.value'') (ei_normalization_settings c)"
  note len = assms(4) [unfolded normalize_embedding_input_parts]
  assume "normalize_embedding_input num str a = normalize_embedding_input num str b"
  note append_bytes_inj [OF this [unfolded normalize_embedding_input_parts] len, THEN conjunct2]
  then have t: "embedding_texts a = embedding_texts b \<and> ?map a @ ?text a = ?map b @ ?text b"
    by (rule texts_inj [rotated 2]) (use len in \<open>simp_all add: embedding_texts_def del: texts_simps\<close>)
  have m: "list_all2 same_member (ei_normalization_settings a) (ei_normalization_settings b) \<and> ?text a = ?text b"
    by (rule append_json_map_inj [OF assms(1-3) t [THEN conjunct2]]) (use len in \<open>simp del: texts_simps\<close>)
  have c: "ei_chunking_strategy a = ei_chunking_strategy b \<and> ?tail a = ?tail b"
    by (rule append_str_inj [OF m [THEN conjunct2]]) (use len in \<open>simp del: texts_simps\<close>)
  have d: "ucast (ei_dimensions a) = (ucast (ei_dimensions b) :: u64) \<and>
      append_str (string_bytes ''application_namespace'') (ei_application_namespace a) @ [] =
      append_str (string_bytes ''application_namespace'') (ei_application_namespace b) @ []"
    using c [THEN conjunct2] unfolding append_u64_inj by blast
  have "ei_application_namespace a = ei_application_namespace b \<and> ([] :: bytes) = []"
    by (rule append_str_inj [OF d [THEN conjunct2]]) (use len in \<open>simp del: texts_simps\<close>)
  moreover have "ei_dimensions a = ei_dimensions b"
    using d [THEN conjunct1] ucast_u32_inj by blast
  ultimately show "same_embedding a b"
    using t m c by (simp add: same_embedding_def embedding_texts_def)
next
  assume "same_embedding a b"
  then show "normalize_embedding_input num str a = normalize_embedding_input num str b"
    using append_json_map_same [OF assms(2,3)]
    by (simp add: normalize_embedding_input_parts same_embedding_def embedding_texts_def)
qed

section \<open>Digest and keys\<close>

lemma FNV_PRIME_unit: "FNV_PRIME * 0xb1041ad2562ff2ff2ff2ff2ff2ff2ff3 = 1"
  by (simp add: FNV_PRIME_def)

lemma FNV_PRIME_inj: "a * FNV_PRIME = b * FNV_PRIME \<longleftrightarrow> a = b"
proof
  assume "a * FNV_PRIME = b * FNV_PRIME"
  then have "a * FNV_PRIME * 0xb1041ad2562ff2ff2ff2ff2ff2ff2ff3 = b * FNV_PRIME * 0xb1041ad2562ff2ff2ff2ff2ff2ff2ff3"
    by (rule arg_cong)
  then show "a = b"
    unfolding mult.assoc FNV_PRIME_unit by simp
qed simp

lemma xor_right_inj: "a XOR c = b XOR c \<longleftrightarrow> a = (b :: 'a :: len word)"
proof
  assume "a XOR c = b XOR c"
  then have "(a XOR c) XOR c = (b XOR c) XOR c"
    by (rule arg_cong)
  then show "a = b"
    by (simp add: xor.assoc)
qed simp

lemma xor_left_inj: "c XOR a = c XOR b \<longleftrightarrow> a = (b :: 'a :: len word)"
  unfolding xor.commute [of c] by (rule xor_right_inj)

lemma fnv_fold_inj:
  "fold (\<lambda>byte hash. (hash XOR ucast byte) * FNV_PRIME) bs h1 =
   fold (\<lambda>byte hash. (hash XOR ucast byte) * FNV_PRIME) bs h2 \<longleftrightarrow> h1 = h2"
  by (induction bs arbitrary: h1 h2) (simp_all add: FNV_PRIME_inj xor_right_inj)

text \<open>One changed byte always changes the digest, whatever surrounds it.\<close>

lemma digest_detects_one_byte:
  "fnv1a_128 (pre @ x # post) = fnv1a_128 (pre @ y # post) \<longleftrightarrow> x = y"
proof -
  have "ucast x = (ucast y :: 128 word) \<longleftrightarrow> x = y"
    by transfer simp
  then show ?thesis
    by (simp add: fnv1a_128_def fnv_fold_inj FNV_PRIME_inj xor_left_inj)
qed

lemma HEX_inj: "i < 16 \<Longrightarrow> j < 16 \<Longrightarrow> HEX ! i = HEX ! j \<longleftrightarrow> i = j"
proof -
  have "distinct HEX \<and> length HEX = 16"
    by code_simp
  then show "i < 16 \<Longrightarrow> j < 16 \<Longrightarrow> HEX ! i = HEX ! j \<longleftrightarrow> i = j"
    using nth_eq_iff_index_eq [of HEX i j] by simp
qed

lemma nibble_eq: "w AND 0xf = take_bit 4 (w :: 128 word)"
  by (simp add: take_bit_eq_mask mask_eq_exp_minus_1)

lemma nibble_less: "unat (w AND 0xf :: 128 word) < 16"
  using take_bit_nat_less_exp [of 4 "unat w"] by (simp add: nibble_eq unsigned_take_bit_eq)

lemma write_hex_inj: "write_hex_u128 v = write_hex_u128 w \<longleftrightarrow> v = w"
proof
  assume eq: "write_hex_u128 v = write_hex_u128 w"
  have nibble: "drop_bit (4 * k) v AND 0xf = drop_bit (4 * k) w AND 0xf" if "k < 32" for k
  proof -
    have "HEX ! unat (drop_bit (4 * k) v AND 0xf) = HEX ! unat (drop_bit (4 * k) w AND 0xf)"
      using eq that by (simp add: write_hex_u128_def map_eq_conv)
    then show ?thesis
      using HEX_inj [OF nibble_less nibble_less] by (simp add: word_unat_eq_iff)
  qed
  show "v = w"
  proof (rule bit_word_eqI)
    fix n
    assume "n < LENGTH(128)"
    then have "n div 4 < 32"
      by simp
    then have "bit (drop_bit (4 * (n div 4)) v AND 0xf) (n mod 4) = bit (drop_bit (4 * (n div 4)) w AND 0xf) (n mod 4)"
      using nibble by simp
    then show "bit v n = bit w n"
      by (simp add: nibble_eq bit_simps)
  qed
qed simp

text \<open>A key of the helpers is a digest in a readable form: two prompt keys, and two embedding keys,
  are equal exactly when the digests of the normal forms are; a prompt key is never an embedding
  key; both have a fixed length and only ASCII characters.\<close>

lemma cache_keys_are_digests:
  "(prompt_cache_key num str a = prompt_cache_key num str b \<longleftrightarrow>
     fnv1a_128 (normalize_prompt_input num str a) = fnv1a_128 (normalize_prompt_input num str b)) \<and>
   (embedding_cache_key num str c = embedding_cache_key num str d \<longleftrightarrow>
     fnv1a_128 (normalize_embedding_input num str c) = fnv1a_128 (normalize_embedding_input num str d)) \<and>
   prompt_cache_key num str a \<noteq> embedding_cache_key num str c \<and>
   length (prompt_cache_key num str a) = 45 \<and> length (embedding_cache_key num str c) = 48 \<and>
   list_all (\<lambda>byte. byte < 0x80) (prompt_cache_key num str a @ embedding_cache_key num str c)"
proof -
  have "list_all (\<lambda>byte. byte < 0x80) HEX \<and> length HEX = 16"
    by code_simp
  then have hex: "list_all (\<lambda>byte. byte < 0x80) (write_hex_u128 v)" for v
    using nibble_less by (simp add: write_hex_u128_def list_all_length)
  have prefixes: "list_all (\<lambda>byte. byte < 0x80) (PROMPT_KEY_PREFIX @ EMBEDDING_KEY_PREFIX) \<and>
      PROMPT_KEY_PREFIX ! 3 = 112 \<and> EMBEDDING_KEY_PREFIX ! 3 = 101 \<and>
      length PROMPT_KEY_PREFIX = 13 \<and> length EMBEDDING_KEY_PREFIX = 16"
    by code_simp
  have len: "length (write_hex_u128 v) = 32" for v
    by (simp add: write_hex_u128_def)
  have "digest_key PROMPT_KEY_PREFIX v ! 3 \<noteq> digest_key EMBEDDING_KEY_PREFIX w ! 3" for v w
    using prefixes by (simp add: digest_key_def nth_append)
  then have "digest_key PROMPT_KEY_PREFIX v \<noteq> digest_key EMBEDDING_KEY_PREFIX w" for v w
    by metis
  then show ?thesis
    using prefixes hex by (simp add: prompt_cache_key_def embedding_cache_key_def digest_key_def write_hex_inj len)
qed

section \<open>Capturing a stream\<close>

datatype capture_op = PushChunk bytes | MarkFailed

fun capture_step :: "capture_op \<Rightarrow> stream_capture \<Rightarrow> stream_capture" where
  "capture_step (PushChunk chunk) c = push_chunk chunk c"
| "capture_step MarkFailed c = mark_failed c"

fun pushed :: "capture_op list \<Rightarrow> bytes list" where
  "pushed [] = []"
| "pushed (PushChunk chunk # ops) = chunk # pushed ops"
| "pushed (MarkFailed # ops) = pushed ops"

lemma capture_failed: "sc_failed c \<Longrightarrow> sc_failed (fold capture_step ops c)"
proof (induction ops arbitrary: c)
  case (Cons op ops)
  then show ?case
    by (cases op) (simp_all add: push_chunk_def mark_failed_def)
qed simp

lemma capture_run:
  "\<not> sc_failed c \<Longrightarrow> stream_finish tok (fold capture_step ops c) =
    (if MarkFailed \<in> set ops then Inl GenerationFailed
     else Inr \<lparr>cs_lease_token = tok, cs_value = concat (sc_chunks c @ pushed ops)\<rparr>)"
proof (induction ops arbitrary: c)
  case Nil
  then show ?case
    by (simp add: stream_finish_def)
next
  case (Cons op ops)
  then show ?case
    using capture_failed [of "mark_failed c" ops]
    by (cases op) (auto simp: push_chunk_def mark_failed_def stream_finish_def)
qed

text \<open>A captured stream is either complete or refused: after any sequence of chunks and failures
  the capture finishes with all chunks in order, or with an error when a failure was reported at
  any time. Chunks after a failure never revive it, so no partial value can complete a lease.\<close>

lemma capture_complete_or_refused:
  "stream_finish tok (fold capture_step ops stream_capture_new) =
    (if MarkFailed \<in> set ops then Inl GenerationFailed
     else Inr \<lparr>cs_lease_token = tok, cs_value = concat (pushed ops)\<rparr>)"
  by (simp add: capture_run stream_capture_new_def)

end
