(* ===== verification/Sessions.thy ===== *)
theory Sessions
  imports Client_Props Ai_Props
begin

text \<open>
  Sequences of client calls on one server: the state that a call leaves behind, and what the calls
  after it return. Between two calls the clock may move on.
\<close>

section \<open>One call\<close>

text \<open>The server after a request of the client.\<close>

definition server_after ::
  "hasher \<Rightarrow> env \<Rightarrow> u64 \<Rightarrow> usize \<Rightarrow> command \<Rightarrow> request_payload \<Rightarrow> native_client \<Rightarrow> app_state \<Rightarrow> app_state" where
  "server_after h env cid m cmd payload c st =
     (case encode_request_frame \<lparr>rq_request_id = next_request_id c, rq_command = cmd, rq_payload = payload\<rparr> of
        None \<Rightarrow> st
      | Some out \<Rightarrow> snd (execute_native_frame_bytes h env cid m out st))"

text \<open>A client whose limit has room for every response on a server with values up to \<open>V\<close> bytes.\<close>

definition room :: "usize \<Rightarrow> usize \<Rightarrow> native_client \<Rightarrow> bool" where
  "room V m c \<longleftrightarrow> V + 100 < 2 ^ 32 \<and> m < 2 ^ 32 \<and> V + 100 \<le> max_payload_len c"

definition sendable :: "usize \<Rightarrow> command \<Rightarrow> request_payload \<Rightarrow> bool" where
  "sendable m cmd payload \<longleftrightarrow>
     request_ok cmd payload \<and> length (encode_request_payload payload) \<le> m \<and> cmd \<noteq> CmdBatchGet"

definition client_next :: "native_client \<Rightarrow> native_client" where
  "client_next c = c\<lparr>next_request_id := id_after (next_request_id c)\<rparr>"

lemma room_next [simp]: "room V m (client_next c) \<longleftrightarrow> room V m c"
  by (simp add: room_def client_next_def)

lemma session_call:
  assumes "app_inv h V st" "env_ok env" "room V m c" "sendable m cmd payload"
  shows "client_request (server_socket h env cid m st) cmd payload c =
      Some (accept_payload (response_of (fst (sharded_exec h (op_of env payload) (ap_engine st)))), client_next c)"
    and "app_inv h V (server_after h env cid m cmd payload c st)"
    and "ap_engine (server_after h env cid m cmd payload c st) =
      snd (sharded_exec h (op_of env payload) (ap_engine st))"
proof -
  have "response_room V payload = 100 + V"
    using assms(4) by (cases payload) (auto simp: sendable_def request_ok_def response_room_def)
  then show "client_request (server_socket h env cid m st) cmd payload c =
      Some (accept_payload (response_of (fst (sharded_exec h (op_of env payload) (ap_engine st)))), client_next c)"
    using assms by (subst client_request_cache) (auto simp: room_def sendable_def client_next_def)
  show "app_inv h V (server_after h env cid m cmd payload c st)"
    using frame_keeps_inv [OF assms(1,2)] assms(1) by (auto simp: server_after_def split: option.split)
  let ?req = "\<lparr>rq_request_id = next_request_id c, rq_command = cmd, rq_payload = payload\<rparr>"
  obtain out where out: "encode_request_frame ?req = Some out"
    using assms(3,4) by (auto simp: encode_request_frame_def encode_frame_into_eq room_def sendable_def)
  have "decode_request_frame (out @ []) m = Inr ?req"
    using assms(4) by (intro request_round_trip [OF out]) (simp_all add: sendable_def)
  then show "ap_engine (server_after h env cid m cmd payload c st) =
      snd (sharded_exec h (op_of env payload) (ap_engine st))"
    using out by (simp add: server_after_def frame_bytes_agree execute_owned_frame_snd payload_is_call)
qed

lemma keyed_shard:
  assumes "op_key op = Some eid" "shards s \<noteq> []"
  shows "fst (sharded_exec h op s) = fst (engine_exec op (shards s ! shard_of h s eid))"
    and "shards (snd (sharded_exec h op s)) ! shard_of h s eid = engine_step op (shards s ! shard_of h s eid)"
    and "shard_of h (snd (sharded_exec h op s)) eid = shard_of h s eid"
  using sharded_exec_keyed [OF assms refl, of h] shard_of_less [OF assms(2), of h eid]
    shard_of_cong [of "snd (sharded_exec h op s)" s h]
  by (auto simp: assms)

section \<open>Reading after writing\<close>

definition get_result_of_outcome :: "get_outcome \<Rightarrow> get_result" where
  "get_result_of_outcome out = (case out of OutHit v \<Rightarrow> GetHit v | OutStale v \<Rightarrow> GetStale v | OutMiss \<Rightarrow> GetMiss)"

lemma session_get:
  assumes "app_inv h V st" "env_ok env" "room V m c" "sendable m CmdGet (ReqGet ns key)"
  shows "client_get (server_socket h env cid m st) ns key c =
    Some (Inr (get_result_of_outcome (fst (sharded_get h env ns key (ap_engine st)))), client_next c)"
  using session_call(1) [OF assms]
  by (cases "fst (sharded_get h env ns key (ap_engine st))")
    (simp_all add: client_get_def client_get_raw_def client_then_def accept_payload_def get_result_of_def
      get_result_of_outcome_def case_prod_beta)

text \<open>What the client reports for a write that the cache refused.\<close>

fun put_refusal :: "put_error \<Rightarrow> client_error" where
  "put_refusal (ValueTooLarge a b) = ClientServer EcValueTooLarge ''value exceeds configured value limit''"
| "put_refusal (ValueTooLargeForMemory a b) =
     ClientServer EcEntryTooLarge ''entry cannot fit configured memory limit''"
| "put_refusal (InsufficientMemory a b c) =
     ClientServer EcInsufficientMemory ''entry could not fit after cleanup and eviction''"

definition write_result :: "put_error + put_outcome \<Rightarrow> client_error + u32" where
  "write_result r = (case r of Inl err \<Rightarrow> Inl (put_refusal err) | Inr out \<Rightarrow> Inr (u32_clamp (po_evicted out)))"

lemma write_result_simps [simp]:
  "write_result (Inl err) = Inl (put_refusal err)" "write_result (Inr out) = Inr (u32_clamp (po_evicted out))"
  by (simp_all add: write_result_def)

lemma accept_put_error: "accept_payload (native_put_error err) = Inl (put_refusal err)"
  by (cases err) (simp_all add: accept_payload_def)

lemma accept_stored: "accept_payload (RespStored n) = Inr (RespStored n)"
  by (simp add: accept_payload_def)

lemma session_put:
  assumes "app_inv h V st" "env_ok env" "room V m c" "sendable m CmdPut (ReqPut ns key md val)"
  shows "client_put (server_socket h env cid m st) ns key md val c =
    Some (write_result (fst (sharded_put h env (native_put_command ns key md val) (ap_engine st))), client_next c)"
  using session_call(1) [OF assms, of cid]
  by (cases "fst (sharded_put h env (native_put_command ns key md val) (ap_engine st))")
    (simp_all add: client_put_def client_then_def accept_put_error accept_stored)

lemma sendable_get:
  "sendable m CmdPut (ReqPut ns key md val) \<Longrightarrow> sendable m CmdGet (ReqGet ns key)"
  "sendable m CmdLeaseComplete (ReqLeaseComplete ns key token md val) \<Longrightarrow> sendable m CmdGet (ReqGet ns key)"
  by (simp_all add: sendable_def request_ok_def)

text \<open>Between two calls of a session the server may execute any others. A call of which it is decided here
  whether it writes the key is one that the server executes to its end.\<close>

fun op_writes :: "entry_id \<Rightarrow> engine_op \<Rightarrow> bool" where
  "op_writes eid (OpPut env cmd) = (put_id cmd = eid)"
| "op_writes eid (OpCompleteLease env cmd) = (EntryId (cl_namespace cmd) (cl_key cmd) = eid)"
| "op_writes eid op = False"

fun call_writes :: "usize \<Rightarrow> entry_id \<Rightarrow> server_call \<Rightarrow> bool" where
  "call_writes m eid (CallFrame env cid frame) =
     (case decode_request_frame frame m of Inl err \<Rightarrow> False | Inr f \<Rightarrow> op_writes eid (op_of env (rq_payload f)))"
| "call_writes m eid call = False"

definition calls_between :: "usize \<Rightarrow> string \<Rightarrow> bytes \<Rightarrow> server_call list \<Rightarrow> bool" where
  "calls_between m ns key calls \<longleftrightarrow>
     list_all (\<lambda>call. call_env_ok call \<and> \<not> call_writes m (EntryId ns key) call) calls"

definition holds_at_most :: "hasher \<Rightarrow> app_state \<Rightarrow> entry_id \<Rightarrow> spec_entry \<Rightarrow> bool" where
  "holds_at_most h st eid sp \<longleftrightarrow> (\<exists>cache. srefines h (ap_engine st) cache \<and> cache eid \<in> {None, Some sp})"

definition stored_as :: "u64 \<Rightarrow> put_command \<Rightarrow> spec_entry" where
  "stored_as now cmd =
     \<lparr>sp_value = pc_value cmd, sp_expires_at = expires_at_of now cmd, sp_stale_until = stale_until_of now cmd,
      sp_tags = set (tag_ids (pc_namespace cmd) (pc_tags cmd))\<rparr>"

lemma read_stored: "spec_read now (Some (stored_as t cmd)) = promised t cmd now"
  by (simp add: spec_read_def stored_as_def promised_def split: option.split)

lemma spec_next_unwritten: "\<not> op_writes eid op \<Longrightarrow> spec_next op r m eid \<in> {None, m eid}"
  by (cases op)
    (auto simp: spec_next_def spec_write_def restrict_map_def put_id_def lease_put_def
      split: engine_result.split sum.split)

lemma exec_holds:
  assumes "holds_at_most h st eid sp" "op_ok op" "\<not> op_writes eid op"
    and "ap_engine st1 = snd (sharded_exec h op (ap_engine st))"
  shows "holds_at_most h st1 eid sp"
proof -
  obtain cache where "srefines h (ap_engine st) cache" "cache eid \<in> {None, Some sp}"
    using assms(1) by (auto simp: holds_at_most_def)
  then show ?thesis
    using srefines_exec [of h "ap_engine st" cache op] assms(2,4) spec_next_unwritten [OF assms(3)]
    unfolding holds_at_most_def by (metis empty_iff insert_iff)
qed

lemma step_holds:
  assumes "holds_at_most h st eid sp" "call_env_ok call" "\<not> call_writes m eid call"
  shows "holds_at_most h (server_step h m interval budget call st) eid sp"
proof (cases call)
  case (CallFrame env cid frame)
  show ?thesis
  proof (cases "decode_request_frame frame m")
    case (Inl err)
    then show ?thesis
      using assms(1) CallFrame by (simp add: server_step_def frame_bytes_agree execute_owned_frame_snd)
  next
    case (Inr f)
    then show ?thesis
      using assms CallFrame
      by (intro exec_holds [OF assms(1) op_ok_op_of [of env "rq_payload f"]])
        (simp_all add: server_step_def frame_bytes_agree execute_owned_frame_snd payload_is_call)
  qed
next
  case (CallTick env)
  then show ?thesis
    using assms(1) exec_holds [OF assms(1), of "OpReclaim env budget"]
    by (simp add: server_step_def expiration_worker_tick_def on_engine_eq)
next
  case (CallAdmin meth path)
  then show ?thesis
    using assms(1) by (simp add: server_step_def handle_request_def holds_at_most_def)
qed

lemma calls_hold:
  "holds_at_most h st (EntryId ns key) sp \<Longrightarrow> calls_between m ns key calls \<Longrightarrow>
   holds_at_most h (fold (server_step h m interval budget) calls st) (EntryId ns key) sp"
  by (induction calls arbitrary: st) (auto simp: calls_between_def intro: step_holds)

lemma read_held:
  assumes "holds_at_most h st (EntryId ns key) (stored_as t cmd)"
  shows "fst (sharded_get h env ns key (ap_engine st)) \<in> {OutMiss, promised t cmd (clk env 0)}"
proof -
  obtain cache where cache: "srefines h (ap_engine st) cache" "cache (EntryId ns key) \<in> {None, Some (stored_as t cmd)}"
    using assms by (auto simp: holds_at_most_def)
  moreover have "spec_read (clk env 0) None = OutMiss"
    by (simp add: spec_read_def)
  ultimately show ?thesis
    using srefines_exec [of h "ap_engine st" cache "OpGet env ns key"] by (auto simp: read_stored)
qed

text \<open>What a get returns after a write and calls in between that do not write the key.\<close>

definition read_after_write :: "u64 \<Rightarrow> put_command \<Rightarrow> u64 \<Rightarrow> server_call list \<Rightarrow> get_result \<Rightarrow> bool" where
  "read_after_write stored_at cmd now calls result \<longleftrightarrow>
     result = get_result_of_outcome (promised stored_at cmd now) \<or> calls \<noteq> [] \<and> result = GetMiss"

lemma session_read:
  assumes "app_inv h V st" "list_all call_env_ok calls" "env_ok env" "room V m reader" "sendable m CmdGet (ReqGet ns key)"
    and "holds_at_most h st (EntryId ns key) (stored_as t cmd)" "calls_between m ns key calls"
    and "\<And>env. fst (sharded_get h env ns key (ap_engine st)) = promised t cmd (clk env 0)"
  shows "\<exists>result. client_get (server_socket h env cid m (fold (server_step h m interval budget) calls st)) ns key reader =
      Some (Inr result, client_next reader) \<and> read_after_write t cmd (clk env 0) calls result"
proof -
  let ?st = "fold (server_step h m interval budget) calls st"
  let ?out = "fst (sharded_get h env ns key (ap_engine ?st))"
  have "app_inv h V ?st"
    by (rule smachine.inv_run [OF assms(1,2)])
  then have get: "client_get (server_socket h env cid m ?st) ns key reader =
      Some (Inr (get_result_of_outcome ?out), client_next reader)"
    by (rule session_get [OF _ assms(3-5)])
  have "?out \<in> {OutMiss, promised t cmd (clk env 0)}"
    by (rule read_held [OF calls_hold [OF assms(6,7)]])
  moreover have "calls = [] \<Longrightarrow> ?out = promised t cmd (clk env 0)"
    by (simp add: assms(8))
  ultimately show ?thesis
    using get by (auto simp: read_after_write_def get_result_of_outcome_def)
qed

lemma calls_between_env: "calls_between m ns key calls \<Longrightarrow> list_all call_env_ok calls"
  by (auto simp: calls_between_def list_all_iff)

text \<open>C4. A client reads its own write: when a put is accepted and the next frame that the server executes is a
  get of the same key, by that client or another one, the get returns what the metadata promise for its time: the value,
  the value as stale, or a miss after its lifetime. When the server executes other calls in between, one after the other
  and none of them a write of the key, the get returns the same or a miss, because the entry may have been evicted,
  deleted, invalidated or reclaimed; it never returns another value. This holds through both encoders, both decoders and
  the sharded cache, for requests that the protocol can carry, a server in a consistent state, and a value limit
  that lets every response fit a frame.\<close>

theorem client_reads_its_write:
  fixes h env env' cid m V c st ns key md val
  defines "put_socket \<equiv> server_socket h env cid m st"
    and "st1 \<equiv> server_after h env cid m CmdPut (ReqPut ns key md val) c st"
  assumes inv: "app_inv h V st" and envs: "env_ok env" "env_ok env'" and room: "room V m c" "room V m reader"
    and ok: "sendable m CmdPut (ReqPut ns key md val)"
    and stored: "client_put put_socket ns key md val c = Some (Inr evicted, c')"
    and calls: "calls_between m ns key calls"
  shows "\<exists>result. client_get (server_socket h env' cid' m (fold (server_step h m interval budget) calls st1)) ns key reader =
      Some (Inr result, client_next reader) \<and>
    read_after_write (clk env 0) (native_put_command ns key md val) (clk env' 0) calls result"
proof -
  let ?cmd = "native_put_command ns key md val"
  note call = session_call [OF inv envs(1) room(1) ok, of cid]
  obtain out where out: "fst (sharded_put h env ?cmd (ap_engine st)) = Inr out"
    using stored session_put [OF inv envs(1) room(1) ok, of cid]
    by (cases "fst (sharded_put h env ?cmd (ap_engine st))") (simp_all add: put_socket_def)
  have sinv: "sharded_inv h (ap_engine st)"
    using inv by (simp add: app_inv_def)
  have "holds_at_most h st1 (EntryId ns key) (stored_as (clk env 0) ?cmd)"
    using srefines_exec [OF srefines_scache [OF sinv], of "OpPut env ?cmd"] envs(1) out call(3)
    unfolding holds_at_most_def st1_def
    by (intro exI [of _ "spec_next (OpPut env ?cmd) (fst (sharded_exec h (OpPut env ?cmd) (ap_engine st))) (scache_of h (ap_engine st))"])
      (simp add: spec_next_def spec_write_def stored_as_def put_id_def native_put_command_def)
  moreover have "fst (sharded_get h env'' ns key (ap_engine st1)) = promised (clk env 0) ?cmd (clk env'' 0)" for env''
    using sharded_get_after_put [OF sinv envs(1) out, of env''] call(3) by (simp add: st1_def native_put_command_def)
  ultimately show ?thesis
    using session_read [OF call(2) calls_between_env [OF calls] envs(2) room(2) sendable_get(1) [OF ok]] calls
    by (simp add: st1_def)
qed

definition roomy_limits :: engine_limits where
  "roomy_limits = \<lparr>max_memory_bytes = 16000, max_value_bytes = 100\<rparr>"

definition roomy_app :: app_state where
  "roomy_app = the (app_from_limits roomy_limits)"

lemma roomy_app_fields:
  "app_from_limits roomy_limits = Some roomy_app"
  "shards (ap_engine roomy_app) = map (\<lambda>_. engine_with_limits sample_limits) [0..<16]"
  by (simp_all add: roomy_app_def app_from_limits_def sharded_with_limits_def sharded_with_clock_and_limits_def
      DEFAULT_SHARD_COUNT_def Let_def roomy_limits_def sample_limits_def div_ceil_def)

lemma roomy_shard:
  "shards (ap_engine roomy_app) ! shard_of h (ap_engine roomy_app) eid = engine_with_limits sample_limits"
  using shard_of_less [of "ap_engine roomy_app" h eid] by (simp add: roomy_app_fields)

lemma roomy_ne: "shards (ap_engine roomy_app) \<noteq> []"
  by (simp add: roomy_app_fields)

lemma roomy_inv: "app_inv h 100 roomy_app"
  using app_inv_fresh [OF roomy_app_fields(1)] by (simp add: roomy_limits_def usize_max_def)

lemma roomy_client: "room 100 1024 client_connect"
  by (simp add: room_def client_connect_def usize_max_def)

lemma token_string: "rust_string ''lease-0''"
  by (rule ascii_rust_string) simp_all

lemma roomy_sends:
  "sendable 1024 CmdPut (ReqPut ''ns'' [1] metadata_default [7, 8])"
  "sendable 1024 CmdLeaseStart (ReqLeaseStart ''ns'' [1] 5 None)"
  "sendable 1024 CmdLeaseComplete (ReqLeaseComplete ''ns'' [1] ''lease-0'' metadata_default [7, 8])"
  by (simp_all add: sendable_def request_ok_def namespace_ok_def short_def is_valid_namespace_def sample_strings
      is_ascii_alphanumeric_def metadata_ok_def metadata_default_def write_metadata_def
      token_string)

lemma default_promise: "promised t (native_put_command ns key metadata_default val) now = OutHit val"
  by (simp add: promised_def expires_at_of_def native_put_command_def metadata_default_def)

theorem client_reads_its_write_witness:
  fixes st1
  defines "st1 \<equiv> server_after sample_hasher (sample_env 10) 1 1024 CmdPut (ReqPut ''ns'' [1] metadata_default [7, 8]) client_connect
    roomy_app"
  shows "client_get (server_socket sample_hasher (sample_env 20) 1 1024 st1) ''ns'' [1] client_connect =
      Some (Inr (GetHit [7, 8]), client_next client_connect) \<and>
    (\<exists>result. client_get (server_socket sample_hasher (sample_env 20) 2 1024
        (fold (server_step sample_hasher 1024 50 10) [CallTick (sample_env 15)] st1)) ''ns'' [1] client_connect =
        Some (Inr result, client_next client_connect) \<and> result \<in> {GetHit [7, 8], GetMiss})"
proof -
  let ?cmd = "native_put_command ''ns'' [1] metadata_default [7, 8]"
  let ?s = "ap_engine roomy_app"
  have "fst (sharded_put sample_hasher (sample_env 10) ?cmd ?s) = fst (engine_put (sample_env 10) ?cmd (engine_with_limits sample_limits))"
    using keyed_shard(1) [OF _ roomy_ne, of "OpPut (sample_env 10) ?cmd" "put_id ?cmd" sample_hasher]
    by (simp add: roomy_shard)
  moreover have "\<exists>out. fst (engine_put (sample_env 10) ?cmd (engine_with_limits sample_limits)) = Inr out"
    by (simp add: put_cases) (simp add: engine_with_limits_def sample_limits_def native_put_command_def put_bytes_def
      estimate_entry_memory_def put_id_def usize_saturating_add_def usize_max_def ENTRY_OVERHEAD_BYTES_def metadata_default_def)
  ultimately obtain n where "client_put (server_socket sample_hasher (sample_env 10) 1 1024 roomy_app) ''ns'' [1] metadata_default [7, 8]
      client_connect = Some (Inr n, client_next client_connect)"
    using session_put [OF roomy_inv sample_env_ok roomy_client roomy_sends(1), of sample_hasher 10 1] by auto
  note read = client_reads_its_write [OF roomy_inv sample_env_ok sample_env_ok roomy_client roomy_client roomy_sends(1) this,
      folded st1_def]
  show ?thesis
    using read [of "[]" 20 1 50 10] read [of "[CallTick (sample_env 15)]" 20 2 50 10]
    by (auto simp: default_promise get_result_of_outcome_def read_after_write_def calls_between_def)
qed

section \<open>Leases\<close>

lemma granted_lease:
  "fst (engine_start_lease env ns key ttl e) = SlLeaseGranted tok stale \<Longrightarrow>
   map_of (leases (snd (engine_start_lease env ns key ttl e))) (EntryId ns key) =
     Some \<lparr>le_token = tok, le_expires_at_ms = u64_saturating_add (clk env 3) ttl\<rparr>"
  by (auto simp: engine_start_lease_def start_lease_for_missing_def create_lease_def Let_def alist
      split: entry_state.splits option.splits if_splits)

lemma complete_active:
  assumes "map_of (leases e) (EntryId (cl_namespace cmd) (cl_key cmd)) = Some l"
    and "clk env 0 \<le> le_expires_at_ms l" "le_token l = cl_lease_token cmd"
  shows "engine_complete_lease env cmd e =
    map_prod (map_sum ClPut (\<lambda>ok. ok)) (\<lambda>e. e)
      (engine_put (env_tick 1 env) (lease_put cmd) (without_lease (EntryId (cl_namespace cmd) (cl_key cmd)) e))"
  using assms by (simp add: complete_lease_requires_active_token Let_def)

lemma get_complete_outcome:
  assumes "engine_inv e" "env_ok env" "fst (engine_complete_lease env cmd e) = Inr ok"
  shows "fst (engine_get env' (cl_namespace cmd) (cl_key cmd) (snd (engine_complete_lease env cmd e))) =
    promised (clk env 1) (lease_put cmd) (clk env' 0)"
proof -
  let ?e = "without_lease (EntryId (cl_namespace cmd) (cl_key cmd)) e"
  let ?put = "engine_put (env_tick 1 env) (lease_put cmd) ?e"
  have eq: "engine_complete_lease env cmd e = map_prod (map_sum ClPut (\<lambda>ok. ok)) (\<lambda>e. e) ?put"
    using assms(3) by (auto simp: complete_lease_requires_active_token Let_def split: if_splits)
  then have "fst ?put = Inr ok"
    using assms(3) by (cases "fst ?put") simp_all
  moreover have "engine_inv ?e" "env_ok (env_tick 1 env)"
    using assms(1,2) by (simp_all add: without_lease_def drop_lease_inv env_ok_def env_tick_def)
  ultimately show ?thesis
    using get_put_outcome [of ?e "env_tick 1 env" "lease_put cmd" ok env'] by (simp add: eq lease_put_def env_tick_def)
qed

text \<open>What the client reports for a completion.\<close>

definition completion_result :: "complete_lease_error + put_outcome \<Rightarrow> client_error + u32" where
  "completion_result r =
     (case r of
        Inl InvalidLeaseToken \<Rightarrow>
          Inl (ClientServer EcInvalidLeaseToken ''lease token is missing, expired, or no longer active'')
      | Inl (ClPut err) \<Rightarrow> Inl (put_refusal err)
      | Inr out \<Rightarrow> Inr (u32_clamp (po_evicted out)))"

lemma accept_invalid_token:
  "accept_payload (RespError EcInvalidLeaseToken msg) = Inl (ClientServer EcInvalidLeaseToken msg)"
  by (simp add: accept_payload_def)

lemma session_complete:
  assumes "app_inv h V st" "env_ok env" "room V m c"
    and "sendable m CmdLeaseComplete (ReqLeaseComplete ns key token md val)"
  shows "client_complete_lease (server_socket h env cid m st) ns key token md val c =
    Some (completion_result (fst (engine_complete_lease env
        \<lparr>cl_namespace = ns, cl_key = key, cl_lease_token = token, cl_value = val, cl_ttl = md_ttl md,
         cl_stale_ttl = md_stale_ttl md, cl_tags = md_tags md, cl_cost = md_cost md\<rparr>
        (shards (ap_engine st) ! shard_of h (ap_engine st) (EntryId ns key)))), client_next c)"
    (is "_ = Some (completion_result (fst ?r), _)")
proof -
  have "shards (ap_engine st) \<noteq> []"
    using assms(1) by (simp add: app_inv_def sharded_inv_upto_def)
  with keyed_shard(1) [of "op_of env (ReqLeaseComplete ns key token md val)" "EntryId ns key" "ap_engine st" h]
  have exec: "fst (sharded_exec h (op_of env (ReqLeaseComplete ns key token md val)) (ap_engine st)) = ResComplete (fst ?r)"
    by simp
  show ?thesis
  proof (cases "fst ?r")
    case (Inl err)
    then show ?thesis
      using session_call(1) [OF assms, of cid] exec
      by (cases err) (simp_all add: client_complete_lease_def client_then_def accept_put_error accept_invalid_token
        completion_result_def del: op_of.simps sharded_exec.simps)
  next
    case (Inr out)
    then show ?thesis
      using session_call(1) [OF assms, of cid] exec
      by (simp add: client_complete_lease_def client_then_def accept_stored completion_result_def
        del: op_of.simps sharded_exec.simps)
  qed
qed

lemma session_granted:
  assumes "app_inv h V st" "env_ok env" "room V m c" "sendable m CmdLeaseStart (ReqLeaseStart ns key ttl allow)"
    and "client_start_lease (server_socket h env cid m st) ns key ttl allow c = Some (Inr (LeaseGranted tok stale), c1)"
  defines "s1 \<equiv> ap_engine (server_after h env cid m CmdLeaseStart (ReqLeaseStart ns key ttl allow) c st)"
  shows "c1 = client_next c"
    and "map_of (leases (shards s1 ! shard_of h s1 (EntryId ns key))) (EntryId ns key) =
      Some \<lparr>le_token = tok, le_expires_at_ms = u64_saturating_add (clk env 3) ttl\<rparr>"
proof -
  let ?op = "op_of env (ReqLeaseStart ns key ttl allow)"
  let ?e = "shards (ap_engine st) ! shard_of h (ap_engine st) (EntryId ns key)"
  have ne: "shards (ap_engine st) \<noteq> []"
    using assms(1) by (simp add: app_inv_def sharded_inv_upto_def)
  note call = session_call [OF assms(1-4), of cid]
  note shard = keyed_shard [of ?op "EntryId ns key" "ap_engine st" h, OF _ ne]
  from call(1) shard(1) assms(5) have "c1 = client_next c \<and> fst (engine_start_lease env ns key ttl ?e) = SlLeaseGranted tok stale"
    by (cases "fst (engine_start_lease env ns key ttl ?e)")
      (auto simp: client_start_lease_def client_start_lease_raw_def client_then_def accept_payload_def
        lease_start_result_of_def)
  then show "c1 = client_next c" "map_of (leases (shards s1 ! shard_of h s1 (EntryId ns key))) (EntryId ns key) =
      Some \<lparr>le_token = tok, le_expires_at_ms = u64_saturating_add (clk env 3) ttl\<rparr>"
    using shard(2,3) granted_lease [of env ns key ttl ?e tok stale]
    by (simp_all add: s1_def call(3) engine_step_def)
qed

lemma session_completed:
  fixes h env cid m c st ns key token md val
  defines "cmd \<equiv> \<lparr>cl_namespace = ns, cl_key = key, cl_lease_token = token, cl_value = val, cl_ttl = md_ttl md,
    cl_stale_ttl = md_stale_ttl md, cl_tags = md_tags md, cl_cost = md_cost md\<rparr>"
    and "st1 \<equiv> server_after h env cid m CmdLeaseComplete (ReqLeaseComplete ns key token md val) c st"
  assumes inv: "app_inv h V st" and env: "env_ok env" and room: "room V m c"
    and ok: "sendable m CmdLeaseComplete (ReqLeaseComplete ns key token md val)"
    and out: "fst (engine_complete_lease env cmd
      (shards (ap_engine st) ! shard_of h (ap_engine st) (EntryId ns key))) = Inr out"
  shows "fst (sharded_get h env' ns key (ap_engine st1)) = promised (clk env 1) (lease_put cmd) (clk env' 0)"
    and "holds_at_most h st1 (EntryId ns key) (stored_as (clk env 1) (lease_put cmd))"
proof -
  let ?s = "ap_engine st"
  let ?op = "op_of env (ReqLeaseComplete ns key token md val)"
  have s1: "ap_engine st1 = snd (sharded_exec h ?op ?s)"
    using session_call(3) [OF inv env room ok] by (simp add: st1_def)
  have sinv: "sharded_inv h ?s"
    using inv by (simp add: app_inv_def)
  then have ne: "shards ?s \<noteq> []"
    by (simp add: sharded_inv_upto_def)
  note shard = keyed_shard [of ?op "EntryId ns key" ?s h, OF _ ne]
  have "engine_inv (shards ?s ! shard_of h ?s (EntryId ns key))"
    using sinv shard_of_less [OF ne] by (simp add: sharded_inv_upto_def)
  from get_complete_outcome [OF this env out, of env']
  show "fst (sharded_get h env' ns key (ap_engine st1)) = promised (clk env 1) (lease_put cmd) (clk env' 0)"
    using shard(2,3) by (simp add: s1 sharded_get_def with_shard_def case_prod_beta Let_def
        shard_index_for_shard_of engine_step_def cmd_def)
  have "fst (sharded_exec h ?op ?s) = ResComplete (Inr out)"
    using shard(1) out by (simp add: cmd_def)
  with srefines_exec [OF srefines_scache [OF sinv] op_ok_op_of [OF env, of "ReqLeaseComplete ns key token md val"]]
  show "holds_at_most h st1 (EntryId ns key) (stored_as (clk env 1) (lease_put cmd))"
    unfolding holds_at_most_def s1
    by (intro exI [of _ "spec_next ?op (ResComplete (Inr out)) (scache_of h ?s)"])
      (simp add: spec_next_def spec_write_def stored_as_def put_id_def lease_put_def cmd_def)
qed

text \<open>The lease that a start grants, and whether the server still holds it.\<close>

definition holds_lease :: "hasher \<Rightarrow> app_state \<Rightarrow> entry_id \<Rightarrow> lease \<Rightarrow> bool" where
  "holds_lease h st eid l \<longleftrightarrow> map_of (leases (shards (ap_engine st) ! shard_of h (ap_engine st) eid)) eid = Some l"

lemma complete_held:
  assumes "holds_lease h st (EntryId (cl_namespace cmd) (cl_key cmd)) l"
    and "clk env 0 \<le> le_expires_at_ms l" "le_token l = cl_lease_token cmd"
  shows "fst (engine_complete_lease env cmd
    (shards (ap_engine st) ! shard_of h (ap_engine st) (EntryId (cl_namespace cmd) (cl_key cmd)))) \<noteq> Inl InvalidLeaseToken"
proof -
  let ?eid = "EntryId (cl_namespace cmd) (cl_key cmd)"
  let ?e = "shards (ap_engine st) ! shard_of h (ap_engine st) ?eid"
  let ?put = "engine_put (env_tick 1 env) (lease_put cmd) (without_lease ?eid ?e)"
  have "fst (engine_complete_lease env cmd ?e) = map_sum ClPut (\<lambda>ok. ok) (fst ?put)"
    using assms complete_active [of ?e cmd l env] by (simp add: holds_lease_def)
  then show ?thesis
    by (cases "fst ?put") simp_all
qed

text \<open>C5. A generated value reaches every reader: a client is granted a lease, captures the chunks of the
  generation without a failure and completes the lease with the granted token before it expires, while the server
  executes any other calls one after the other before the completion and before the read. The completion is answered
  in one of three ways. The token is reported invalid, only when other calls came in between and the server no
  longer holds the granted lease. The value is refused for its size. Or it is stored, and then a get of any client
  returns what the metadata promise of the chunks in their order when it comes next, and the same or a miss when calls
  that do not write the key come in between. Assumed are requests that the protocol can carry, a server in a
  consistent state, and a value limit that lets every response fit a frame.\<close>

theorem generated_value_reaches_readers:
  fixes h V m st ns key ttl allow c env1 cid interval budget
  defines "complete \<equiv> \<lambda>tok md val. ReqLeaseComplete ns key tok md val"
    and "run \<equiv> fold (server_step h m interval budget)"
    and "st1 \<equiv> server_after h env1 cid m CmdLeaseStart (ReqLeaseStart ns key ttl allow) c st"
  assumes inv: "app_inv h V st" and envs: "env_ok env1" "env_ok env2" "env_ok env3"
    and room: "room V m c" "room V m reader"
    and start: "sendable m CmdLeaseStart (ReqLeaseStart ns key ttl allow)"
    and granted: "client_start_lease (server_socket h env1 cid m st) ns key ttl allow c =
      Some (Inr (LeaseGranted tok stale), c1)"
    and captured: "stream_finish tok (fold capture_step ops stream_capture_new) = Inr cap"
    and ok: "sendable m CmdLeaseComplete (complete (cs_lease_token cap) md (cs_value cap))"
    and timely: "clk env2 0 \<le> u64_saturating_add (clk env1 3) ttl"
    and calls: "list_all call_env_ok before" "calls_between m ns key after"
  shows "\<exists>result. client_complete_lease (server_socket h env2 cid m (run before st1)) ns key
        (cs_lease_token cap) md (cs_value cap) c1 = Some (result, client_next c1) \<and>
      (case result of
         Inl err \<Rightarrow>
           err \<in> range put_refusal \<or>
           err = ClientServer EcInvalidLeaseToken ''lease token is missing, expired, or no longer active'' \<and>
           before \<noteq> [] \<and> \<not> holds_lease h (run before st1) (EntryId ns key)
             \<lparr>le_token = tok, le_expires_at_ms = u64_saturating_add (clk env1 3) ttl\<rparr>
       | Inr evicted \<Rightarrow>
           \<exists>got. client_get (server_socket h env3 cid' m (run after (server_after h env2 cid m CmdLeaseComplete
               (complete (cs_lease_token cap) md (cs_value cap)) c1 (run before st1)))) ns key reader =
             Some (Inr got, client_next reader) \<and>
           read_after_write (clk env2 1) (native_put_command ns key md (concat (pushed ops))) (clk env3 0) after got)"
proof -
  let ?st2 = "run before st1"
  let ?e = "shards (ap_engine ?st2) ! shard_of h (ap_engine ?st2) (EntryId ns key)"
  let ?cmd = "\<lparr>cl_namespace = ns, cl_key = key, cl_lease_token = cs_lease_token cap, cl_value = cs_value cap,
    cl_ttl = md_ttl md, cl_stale_ttl = md_stale_ttl md, cl_tags = md_tags md, cl_cost = md_cost md\<rparr>"
  let ?lease = "\<lparr>le_token = tok, le_expires_at_ms = u64_saturating_add (clk env1 3) ttl\<rparr>"
  note lease = session_granted [OF inv envs(1) room(1) start granted]
  have inv1: "app_inv h V st1" and room1: "room V m c1"
    using session_call(2) [OF inv envs(1) room(1) start] room(1) lease(1) by (simp_all add: st1_def)
  have inv2: "app_inv h V ?st2"
    unfolding run_def by (rule smachine.inv_run [OF inv1 calls(1)])
  have cap: "cs_lease_token cap = tok" "cs_value cap = concat (pushed ops)"
    using captured by (auto simp: capture_run stream_capture_new_def split: if_splits)
  then have put_eq: "lease_put ?cmd = native_put_command ns key md (concat (pushed ops))"
    by (simp add: lease_put_def native_put_command_def)
  note result = session_complete [OF inv2 envs(2) room1 ok [unfolded complete_def], of cid]
  have invalid: "before \<noteq> [] \<and> \<not> holds_lease h ?st2 (EntryId ns key) ?lease"
    if "fst (engine_complete_lease env2 ?cmd ?e) = Inl InvalidLeaseToken"
  proof -
    have "\<not> holds_lease h ?st2 (EntryId ns key) ?lease"
      using complete_held [of h ?st2 ?cmd ?lease env2] timely cap(1) that by auto
    then show ?thesis
      using lease(2) by (auto simp: holds_lease_def st1_def run_def)
  qed
  show ?thesis
  proof (cases "fst (engine_complete_lease env2 ?cmd ?e)")
    case (Inl err)
    then show ?thesis
      using result invalid by (cases err) (simp_all add: completion_result_def)
  next
    case (Inr out)
    note stored = session_completed [OF inv2 envs(2) room1 ok [unfolded complete_def] Inr, where cid = cid, unfolded put_eq]
    note after = session_call(2) [OF inv2 envs(2) room1 ok [unfolded complete_def], of cid]
    from session_read [OF after calls_between_env [OF calls(2)] envs(3) room(2) sendable_get(2) [OF ok [unfolded complete_def]]
        stored(2) calls(2) stored(1), of cid' interval budget]
    show ?thesis
      using result Inr by (simp add: completion_result_def complete_def run_def)
  qed
qed

lemma roomy_granted:
  "client_start_lease (server_socket sample_hasher (sample_env 10) 1 1024 roomy_app) ''ns'' [1] 5 None client_connect =
     Some (Inr (LeaseGranted ''lease-0'' None), client_next client_connect)"
proof -
  let ?op = "op_of (sample_env 10) (ReqLeaseStart ''ns'' [1] 5 None)"
  have "fst (sharded_exec sample_hasher ?op (ap_engine roomy_app)) = ResLease (SlLeaseGranted ''lease-0'' None)"
    by (subst keyed_shard(1) [OF _ roomy_ne, of _ "EntryId ''ns'' [1]"])
      (simp_all add: roomy_shard engine_start_lease_def engine_entry_state_def
        active_lease_def start_lease_for_missing_def create_lease_def Let_def engine_with_limits_def show_nat_0)
  then show ?thesis
    using session_call(1) [OF roomy_inv sample_env_ok roomy_client roomy_sends(2), of sample_hasher 10 1]
    by (simp add: client_start_lease_def client_start_lease_raw_def client_then_def accept_payload_def
        lease_start_result_of_def)
qed

lemma default_read:
  "read_after_write t (native_put_command ns key metadata_default val) now [] got \<longleftrightarrow> got = GetHit val"
  by (simp add: read_after_write_def default_promise get_result_of_outcome_def)

theorem generated_value_reaches_readers_witness:
  "\<exists>result. client_complete_lease (server_socket sample_hasher (sample_env 12) 1 1024
        (server_after sample_hasher (sample_env 10) 1 1024 CmdLeaseStart (ReqLeaseStart ''ns'' [1] 5 None)
          client_connect roomy_app)) ''ns'' [1] ''lease-0'' metadata_default [7, 8] (client_next client_connect) =
        Some (result, client_next (client_next client_connect)) \<and>
      (case result of
         Inl err \<Rightarrow> err \<in> range put_refusal
       | Inr evicted \<Rightarrow>
           client_get (server_socket sample_hasher (sample_env 14) 2 1024 (server_after sample_hasher (sample_env 12) 1
             1024 CmdLeaseComplete (ReqLeaseComplete ''ns'' [1] ''lease-0'' metadata_default [7, 8])
             (client_next client_connect) (server_after sample_hasher (sample_env 10) 1 1024 CmdLeaseStart
               (ReqLeaseStart ''ns'' [1] 5 None) client_connect roomy_app))) ''ns'' [1] client_connect =
           Some (Inr (GetHit [7, 8]), client_next client_connect))"
proof -
  have "stream_finish ''lease-0'' (fold capture_step [PushChunk [7], PushChunk [8]] stream_capture_new) =
      Inr \<lparr>cs_lease_token = ''lease-0'', cs_value = [7, 8]\<rparr>"
    by (simp add: stream_finish_def push_chunk_def stream_capture_new_def)
  note flow = generated_value_reaches_readers [OF roomy_inv sample_env_ok sample_env_ok sample_env_ok roomy_client
      roomy_client roomy_sends(2) roomy_granted this,
      where md = metadata_default and before = "[]" and after = "[]"]
  have sent: "sendable 1024 CmdLeaseComplete (ReqLeaseComplete ''ns'' [1] ''lease-0'' metadata_default [7, 8])"
    by (rule roomy_sends(3))
  from flow [of 12 50 10 14 2, simplified captured_stream.simps, OF sent] show ?thesis
    by (simp add: u64_saturating_add_def calls_between_def default_read cong: sum.case_cong)
qed

end
