(* ===== verification/Py_Client_Props.thy ===== *)
theory Py_Client_Props
  imports Py_Client Py_Protocol_Props Sessions
begin

text \<open>
  The Python clients against the server: a call returns what the call on the cache returns, whatever the
  sizes of the chunks that the socket delivers; and what happens to the two clients once a receive has
  failed.
\<close>

section \<open>Receiving\<close>

text \<open>What the socket of the standard library promises of a receive that does not fail: at least one
  byte when there is one.\<close>

definition recv_ok :: "py_socket \<Rightarrow> bool" where
  "recv_ok sk \<longleftrightarrow> (\<forall>n stream. 0 < n \<longrightarrow> stream \<noteq> [] \<longrightarrow> (\<exists>k > 0. sk_recv sk n stream = RecvChunk k))"

lemma recv_okD:
  assumes "recv_ok sk" "0 < n" "stream \<noteq> []"
  obtains k where "0 < k" "k \<le> n" "py_recv sk n stream = Inr (take k stream)"
proof -
  obtain k where "0 < k" "sk_recv sk n stream = RecvChunk k"
    using assms unfolding recv_ok_def by blast
  then show thesis
    using that [of "min k n"] assms(2) by (simp add: py_recv_def)
qed

lemma recv_exactly:
  "recv_ok sk \<Longrightarrow> length chunks \<le> n \<Longrightarrow> n \<le> length chunks + length stream \<Longrightarrow>
   py_recv_exactly sk at_eof n chunks stream =
     (Inr (chunks @ take (n - length chunks) stream), drop (n - length chunks) stream)"
proof (induction sk at_eof n chunks stream rule: py_recv_exactly.induct)
  case (1 sk at_eof n chunks stream)
  show ?case
  proof (cases "length chunks < n")
    case True
    then have "stream \<noteq> []"
      using "1.prems"(3) by auto
    then obtain k where k: "0 < k" "k \<le> n - length chunks"
        "py_recv sk (n - length chunks) stream = Inr (take k stream)"
      using recv_okD [OF "1.prems"(1), of "n - length chunks"] True by (metis zero_less_diff)
    let ?chunk = "take k stream"
    have left: "k + (n - (length chunks + k)) = n - length chunks" "n - (length chunks + k) + k = n - length chunks"
      using k(2) by simp_all
    have ne: "?chunk \<noteq> []"
      using k(1) \<open>stream \<noteq> []\<close> by simp
    have "py_recv_exactly sk at_eof n (chunks @ ?chunk) (drop (length ?chunk) stream) =
        (Inr ((chunks @ ?chunk) @ take (n - length (chunks @ ?chunk)) (drop (length ?chunk) stream)),
         drop (n - length (chunks @ ?chunk)) (drop (length ?chunk) stream))"
      using k "1.prems" by (intro "1.IH" [OF True k(3) ne]) (auto simp: min_def)
    moreover have "?chunk @ take (n - length (chunks @ ?chunk)) (drop (length ?chunk) stream) =
        take (n - length chunks) stream"
      using k(2) take_add [of k "n - (length chunks + k)" stream, unfolded left]
      by (cases "k \<le> length stream") simp_all
    moreover have "drop (n - length (chunks @ ?chunk)) (drop (length ?chunk) stream) = drop (n - length chunks) stream"
      using k(2) left by (cases "k \<le> length stream") simp_all
    ultimately show ?thesis
      using True k(3) ne by (subst py_recv_exactly.simps) simp
  next
    case False
    then show ?thesis
      using "1.prems"(2) by (subst py_recv_exactly.simps) simp
  qed
qed

lemma read_response_python:
  assumes "encode_response_frame resp = Some bs" "response_ok (rs_command resp) (rs_payload resp)"
    and "int (length (encode_response_payload (rs_payload resp))) \<le> max_len" "recv_ok sk"
  shows "py_read_response sk at_eof max_len (bs @ later) = (Inr (py_response_frame_of resp), later)"
proof -
  let ?p = "encode_response_payload (rs_payload resp)"
  have len: "length ?p < 2 ^ 32" and bs: "bs = MAGIC @ [VERSION, KIND_RESPONSE, command_id (rs_command resp), 0] @
      write_u64 (rs_request_id resp) @ write_u32 (word_of_nat (length ?p)) @ write_u32 0 @ ?p"
    using assms(1) by (auto simp: encode_response_frame_def encode_frame_into_eq split: if_splits)
  have n: "from_be (take 4 (drop 16 (take HEADER_LEN bs))) = length ?p"
    using len by (simp add: bs MAGIC_def HEADER_LEN_def from_be_write unat_of_nat)
  have length_bs: "length bs = HEADER_LEN + length ?p"
    by (simp add: bs MAGIC_def HEADER_LEN_def)
  have dec: "decode_response_frame bs (nat max_len) = Inr resp"
    using response_round_trip [OF assms(1,2), of "nat max_len" "[]"] assms(3) by simp
  then have "known_command bs"
    using unknown_frames_rejected(4) [of bs "nat max_len"] by (auto simp: isl_def)
  then have "py_decode_response_frame bs max_len = Inr (py_response_frame_of resp)"
    using response_frames_agree [of bs "nat max_len"] dec assms(3) by simp
  moreover have "py_recv_exactly sk at_eof HEADER_LEN [] (bs @ later) =
      (Inr (take HEADER_LEN bs), drop HEADER_LEN bs @ later)"
    by (subst recv_exactly [OF assms(4)]) (simp_all add: length_bs)
  moreover have "py_recv_exactly sk at_eof (length ?p) [] (drop HEADER_LEN bs @ later) =
      (Inr (drop HEADER_LEN bs), later)"
    by (subst recv_exactly [OF assms(4)]) (simp_all add: length_bs)
  ultimately show ?thesis
    by (simp add: py_read_response_def py_constants Let_def n)
qed

section \<open>One call\<close>

fun py_outcome :: "response_payload \<Rightarrow> py_response py_result" where
  "py_outcome (RespError code message) = Inl (PyServerError code message)"
| "py_outcome p = Inr (py_response_of p)"

lemma accept_outcome:
  "py_accept (uint (rs_request_id resp)) (rs_command resp) (py_response_frame_of resp) = py_outcome (rs_payload resp)"
  by (cases "rs_payload resp") (simp_all add: py_accept_def py_response_frame_of_def)

lemma ok_writable: "request_payload_ok p \<Longrightarrow> writable p"
  by (cases p) (auto simp: namespace_ok_iff tag_ok_iff metadata_ok_def metadata_writable_def list_all_iff)

text \<open>The next identifier, as a number and as a word.\<close>

definition py_ids_ok :: "py_client \<Rightarrow> bool" where
  "py_ids_ok c \<longleftrightarrow> 1 \<le> pyc_next_request_id c \<and> pyc_next_request_id c \<le> 2 ^ 64 - 1"

definition py_id :: "py_client \<Rightarrow> u64" where
  "py_id c = word_of_int (pyc_next_request_id c)"

lemma py_id_eq: "py_ids_ok c \<Longrightarrow> uint (py_id c) = pyc_next_request_id c"
  by (simp add: py_ids_ok_def py_id_def uint_word_of_int)

definition py_after_call :: "bytes \<Rightarrow> py_client \<Rightarrow> py_client" where
  "py_after_call left c = (snd (py_next_id c))\<lparr>pyc_unread := left\<rparr>"

lemma py_after_call_simps [simp]:
  "pyc_unread (py_after_call left c) = left" "pyc_closed (py_after_call left c) = pyc_closed c"
  "pyc_max_payload_len (py_after_call left c) = pyc_max_payload_len c"
  "py_ids_ok c \<Longrightarrow> py_ids_ok (py_after_call left c)"
  "py_ids_ok c \<Longrightarrow> pyc_next_request_id (py_after_call left c) \<noteq> pyc_next_request_id c"
  by (auto simp: py_after_call_def py_next_id_def Let_def py_ids_ok_def)

text \<open>A request that the server can serve and whose response fits a frame.\<close>

definition servable :: "hasher \<Rightarrow> usize \<Rightarrow> env \<Rightarrow> usize \<Rightarrow> request_payload \<Rightarrow> app_state \<Rightarrow> bool" where
  "servable h V env m payload st \<longleftrightarrow>
     app_inv h V st \<and> env_ok env \<and> V + 100 < 2 ^ 32 \<and> request_payload_ok payload \<and>
     length (encode_request_payload payload) \<le> m \<and> m < 2 ^ 32 \<and> response_room V payload < 2 ^ 32"

text \<open>A client that is connected and whose limit has room for the response.\<close>

definition py_connected :: "usize \<Rightarrow> request_payload \<Rightarrow> py_client \<Rightarrow> bool" where
  "py_connected V payload c \<longleftrightarrow>
     py_ids_ok c \<and> \<not> pyc_closed c \<and> int (response_room V payload) \<le> pyc_max_payload_len c"

definition py_server :: "hasher \<Rightarrow> env \<Rightarrow> u64 \<Rightarrow> usize \<Rightarrow> (nat \<Rightarrow> bytes \<Rightarrow> recv_outcome) \<Rightarrow> app_state \<Rightarrow> py_socket" where
  "py_server h env cid m recv st =
     \<lparr>sk_sendall = \<lambda>out. Inr (server_socket h env cid m st out), sk_recv = recv\<rparr>"

definition cache_response :: "hasher \<Rightarrow> env \<Rightarrow> request_payload \<Rightarrow> app_state \<Rightarrow> response_payload" where
  "cache_response h env payload st = response_of (fst (sharded_exec h (op_of env payload) (ap_engine st)))"

definition py_reply :: "hasher \<Rightarrow> env \<Rightarrow> request_payload \<Rightarrow> app_state \<Rightarrow> py_client \<Rightarrow> response_frame" where
  "py_reply h env payload st c =
     \<lparr>rs_request_id = py_id c, rs_command = request_command payload, rs_payload = cache_response h env payload st\<rparr>"

lemma py_exchange:
  assumes "servable h V env m payload st" "py_connected V payload c"
  obtains out bs where
    "py_encode_request_frame \<lparr>py_rq_request_id = pyc_next_request_id c, py_rq_command = request_command payload,
      py_rq_payload = py_request_of payload\<rparr> = Inr out"
    "sk_sendall (py_server h env cid m recv st) out = Inr bs"
    "encode_response_frame (py_reply h env payload st c) = Some bs"
    "response_ok (request_command payload) (cache_response h env payload st)"
    "int (length (encode_response_payload (cache_response h env payload st))) \<le> pyc_max_payload_len c"
proof -
  let ?req = "\<lparr>rq_request_id = py_id c, rq_command = request_command payload, rq_payload = payload\<rparr>"
  have s: "app_inv h V st" "env_ok env" "V + 100 < 2 ^ 32" "request_payload_ok payload"
    "length (encode_request_payload payload) \<le> m" "m < 2 ^ 32" "response_room V payload < 2 ^ 32"
    using assms(1) by (simp_all add: servable_def)
  obtain out bs where out: "encode_request_frame ?req = Some out" and bs: "server_socket h env cid m st out = bs"
      "encode_response_frame (py_reply h env payload st c) = Some bs"
      "response_ok (request_command payload) (cache_response h env payload st)"
      "length (encode_response_payload (cache_response h env payload st)) \<le> response_room V payload"
    using server_replies [OF s, of "py_id c" cid] by (auto simp: py_reply_def cache_response_def)
  have "py_encode_request_frame (py_request_frame_of ?req) = Inr out"
    using py_request_frame_written [OF out] ok_writable [OF s(4)] by simp
  then show thesis
    using that [of out bs] bs assms(2)
    by (simp add: py_connected_def py_request_frame_of_def py_id_eq py_server_def)
qed

lemma py_calls_agree:
  assumes "servable h V env m payload st" "py_connected V payload c" "pyc_unread c = []"
    and "recv_ok (py_server h env cid m recv st)"
  shows "py_client_request (py_server h env cid m recv st) (request_command payload) (py_request_of payload) c =
      (py_outcome (cache_response h env payload st), py_after_call [] c)"
    and "py_async_request (py_server h env cid m recv st) (request_command payload) (py_request_of payload) c =
      (py_outcome (cache_response h env payload st), py_after_call [] c)"
proof -
  let ?reply = "py_reply h env payload st c"
  obtain out bs where out: "py_encode_request_frame \<lparr>py_rq_request_id = pyc_next_request_id c,
      py_rq_command = request_command payload, py_rq_payload = py_request_of payload\<rparr> = Inr out"
    and bs: "sk_sendall (py_server h env cid m recv st) out = Inr bs" "encode_response_frame ?reply = Some bs"
      "response_ok (request_command payload) (cache_response h env payload st)"
      "int (length (encode_response_payload (cache_response h env payload st))) \<le> pyc_max_payload_len c"
    using py_exchange [OF assms(1,2)] by metis
  have rd: "py_read_response (py_server h env cid m recv st) at_eof (pyc_max_payload_len c) bs =
      (Inr (py_response_frame_of ?reply), [])" for at_eof
    using read_response_python [OF bs(2) _ _ assms(4), of "pyc_max_payload_len c" at_eof "[]"] bs(3,4)
    by (simp add: py_reply_def)
  have "py_accept (pyc_next_request_id c) (request_command payload) (py_response_frame_of ?reply) =
      py_outcome (cache_response h env payload st)"
    using accept_outcome [of ?reply] py_id_eq [of c] assms(2) by (simp add: py_reply_def py_connected_def)
  then show "py_client_request (py_server h env cid m recv st) (request_command payload) (py_request_of payload) c =
      (py_outcome (cache_response h env payload st), py_after_call [] c)"
    "py_async_request (py_server h env cid m recv st) (request_command payload) (py_request_of payload) c =
      (py_outcome (cache_response h env payload st), py_after_call [] c)"
    using assms(2,3) out bs(1) rd
    by (simp_all add: py_client_request_def py_async_request_def py_next_id_def Let_def py_connected_def py_after_call_def rbind_def)
qed

text \<open>C38. A call of either Python client is a call on the cache: sent to a consistent server by a client that
  has nothing unread, it returns the result of that call on the server's cache, a refused call as a
  \<open>ServerError\<close>, in whatever chunks the socket delivers the response, and the client is ready for
  the next call. The synchronous and the asynchronous client agree.\<close>

theorem py_clients_call_the_cache:
  assumes "servable h V env m payload st" "py_connected V payload c" "pyc_unread c = []"
    and "recv_ok (py_server h env cid m recv st)"
  shows "py_client_request (py_server h env cid m recv st) (request_command payload) (py_request_of payload) c =
      (py_outcome (cache_response h env payload st), py_after_call [] c) \<and>
    py_async_request (py_server h env cid m recv st) (request_command payload) (py_request_of payload) c =
      (py_outcome (cache_response h env payload st), py_after_call [] c)"
  using py_calls_agree [OF assms] by simp

abbreviation bytewise :: "nat \<Rightarrow> bytes \<Rightarrow> recv_outcome" where
  "bytewise n stream \<equiv> RecvChunk 1"

lemma bytewise_ok: "recv_ok (py_server h env cid m bytewise st)"
  by (simp add: recv_ok_def py_server_def)

lemma sample_get_servable: "servable h 100 (sample_env now) 1024 (ReqGet ''ns'' [1]) roomy_app"
  using roomy_inv sendable_get(1) [OF roomy_sends(1)]
  by (simp add: servable_def sendable_def request_ok_def response_room_def)

lemma fresh_connected: "py_connected 100 (ReqGet ''ns'' [1]) (py_client_new 1024)"
  by (simp add: py_connected_def py_ids_ok_def py_client_new_def response_room_def)

lemma sample_miss: "cache_response h (sample_env now) (ReqGet ''ns'' [1]) roomy_app = RespMiss"
  using keyed_shard(1) [OF _ roomy_ne, of "OpGet (sample_env now) ''ns'' [1]" "EntryId ''ns'' [1]" h]
  by (simp add: cache_response_def roomy_shard engine_get_def get_ref_def get_ref_inner_unfold engine_entry_state_def
      engine_with_limits_def)

theorem py_clients_call_the_cache_witness:
  "py_client_request (py_server sample_hasher (sample_env 10) 1 1024 bytewise roomy_app) CmdGet (PyGet ''ns'' [1])
     (py_client_new 1024) = (Inr PyMiss, py_after_call [] (py_client_new 1024))"
  using py_clients_call_the_cache [OF sample_get_servable fresh_connected _ bytewise_ok, of sample_hasher 10 1]
  by (simp add: sample_miss py_client_new_def)

section \<open>After a failure\<close>

text \<open>A session of one client: the results of its calls, while the server executes what reaches it.\<close>

definition py_server_after :: "hasher \<Rightarrow> env \<Rightarrow> u64 \<Rightarrow> usize \<Rightarrow> request_payload \<Rightarrow> py_client \<Rightarrow> app_state \<Rightarrow> app_state" where
  "py_server_after h env cid m payload c st =
     (case py_encode_request_frame \<lparr>py_rq_request_id = pyc_next_request_id c,
             py_rq_command = request_command payload, py_rq_payload = py_request_of payload\<rparr> of
        Inl err \<Rightarrow> st
      | Inr out \<Rightarrow> snd (execute_native_frame_bytes h env cid m out st))"

fun py_session :: "hasher \<Rightarrow> u64 \<Rightarrow> usize \<Rightarrow> (env \<times> request_payload) list \<Rightarrow> (nat \<Rightarrow> bytes \<Rightarrow> recv_outcome) \<Rightarrow>
    py_client \<Rightarrow> app_state \<Rightarrow> py_response py_result list" where
  "py_session h cid m [] recv c st = []"
| "py_session h cid m ((env, payload) # calls) recv c st =
     (let (r, c1) = py_client_request (py_server h env cid m recv st) (request_command payload) (py_request_of payload) c
      in r # py_session h cid m calls recv c1 (py_server_after h env cid m payload c st))"

lemma py_server_after_inv:
  "app_inv h V st \<Longrightarrow> env_ok env \<Longrightarrow> app_inv h V (py_server_after h env cid m payload c st)"
  by (auto simp: py_server_after_def frame_keeps_inv split: sum.split)

text \<open>The client has the response of an earlier request in front of it.\<close>

definition py_behind :: "py_client \<Rightarrow> bool" where
  "py_behind c \<longleftrightarrow>
     (\<exists>resp. encode_response_frame resp = Some (pyc_unread c) \<and> response_ok (rs_command resp) (rs_payload resp) \<and>
        int (length (encode_response_payload (rs_payload resp))) \<le> pyc_max_payload_len c \<and>
        uint (rs_request_id resp) \<noteq> pyc_next_request_id c)"

lemma py_behind_call:
  assumes "servable h V env m payload st" "py_connected V payload c" "py_behind c"
    and "recv_ok (py_server h env cid m recv st)"
  shows "\<exists>left. py_client_request (py_server h env cid m recv st) (request_command payload) (py_request_of payload) c =
      (Inl PyUnexpectedResponse, py_after_call left c) \<and> py_behind (py_after_call left c)"
proof -
  let ?reply = "py_reply h env payload st c"
  obtain resp where resp: "encode_response_frame resp = Some (pyc_unread c)"
      "response_ok (rs_command resp) (rs_payload resp)"
      "int (length (encode_response_payload (rs_payload resp))) \<le> pyc_max_payload_len c"
      "uint (rs_request_id resp) \<noteq> pyc_next_request_id c"
    using assms(3) by (auto simp: py_behind_def)
  obtain out bs where out: "py_encode_request_frame \<lparr>py_rq_request_id = pyc_next_request_id c,
      py_rq_command = request_command payload, py_rq_payload = py_request_of payload\<rparr> = Inr out"
    and bs: "sk_sendall (py_server h env cid m recv st) out = Inr bs" "encode_response_frame ?reply = Some bs"
      "response_ok (request_command payload) (cache_response h env payload st)"
      "int (length (encode_response_payload (cache_response h env payload st))) \<le> pyc_max_payload_len c"
    using py_exchange [OF assms(1,2)] by metis
  have ids: "py_ids_ok c"
    using assms(2) by (simp add: py_connected_def)
  have "py_client_request (py_server h env cid m recv st) (request_command payload) (py_request_of payload) c =
      (Inl PyUnexpectedResponse, py_after_call bs c)"
    using assms(2) out bs(1) resp(4) read_response_python [OF resp(1-3) assms(4), of PyConnectionClosed bs]
    by (simp add: py_client_request_def py_next_id_def Let_def py_connected_def py_after_call_def rbind_def py_accept_def
        py_response_frame_of_def)
  moreover have "py_behind (py_after_call bs c)"
    unfolding py_behind_def
    by (rule exI [of _ ?reply]) (use bs py_id_eq [OF ids] py_after_call_simps(5) [OF ids, of bs] in \<open>simp add: py_reply_def\<close>)
  ultimately show ?thesis
    by blast
qed

definition later_call :: "usize \<Rightarrow> usize \<Rightarrow> int \<Rightarrow> env \<times> request_payload \<Rightarrow> bool" where
  "later_call V m max_len call \<longleftrightarrow>
     env_ok (fst call) \<and> request_payload_ok (snd call) \<and> length (encode_request_payload (snd call)) \<le> m \<and>
     response_room V (snd call) < 2 ^ 32 \<and> int (response_room V (snd call)) \<le> max_len"

lemma py_behind_session:
  assumes "py_behind c" "py_ids_ok c" "\<not> pyc_closed c" "app_inv h V st" "V + 100 < 2 ^ 32" "m < 2 ^ 32"
    and "list_all (later_call V m (pyc_max_payload_len c)) calls"
    and "\<And>env st. recv_ok (py_server h env cid m recv st)"
  shows "py_session h cid m calls recv c st = replicate (length calls) (Inl PyUnexpectedResponse)"
  using assms(1-4,7)
proof (induction calls arbitrary: c st)
  case (Cons call calls)
  obtain env payload where call: "call = (env, payload)"
    by (cases call)
  have "servable h V env m payload st" "py_connected V payload c"
    using Cons.prems assms(5,6) by (simp_all add: call servable_def py_connected_def later_call_def)
  then obtain left where "py_client_request (py_server h env cid m recv st) (request_command payload)
      (py_request_of payload) c = (Inl PyUnexpectedResponse, py_after_call left c)" "py_behind (py_after_call left c)"
    using py_behind_call [OF _ _ Cons.prems(1) assms(8)] by blast
  moreover have "app_inv h V (py_server_after h env cid m payload c st)"
    using Cons.prems by (simp add: call later_call_def py_server_after_inv)
  ultimately show ?case
    using Cons.IH [of "py_after_call left c"] Cons.prems by (simp add: call)
qed simp

abbreviation timing_out :: "nat \<Rightarrow> bytes \<Rightarrow> recv_outcome" where
  "timing_out n stream \<equiv> RecvRaises PyTimeoutError"

lemma py_timed_out:
  assumes "servable h V env m payload st" "py_connected V payload c" "pyc_unread c = []"
  obtains bs where
    "py_client_request (py_server h env cid m timing_out st) (request_command payload) (py_request_of payload) c =
       (Inl PyTimeoutError, py_after_call bs c)" "py_behind (py_after_call bs c)"
    "py_async_request (py_server h env cid m timing_out st) (request_command payload) (py_request_of payload) c =
       (Inl PyConnectionClosed, py_close (py_after_call bs c))"
proof -
  let ?sk = "py_server h env cid m timing_out st" and ?reply = "py_reply h env payload st c"
  obtain out bs where out: "py_encode_request_frame \<lparr>py_rq_request_id = pyc_next_request_id c,
      py_rq_command = request_command payload, py_rq_payload = py_request_of payload\<rparr> = Inr out"
    and bs: "sk_sendall ?sk out = Inr bs" "encode_response_frame ?reply = Some bs"
      "response_ok (request_command payload) (cache_response h env payload st)"
      "int (length (encode_response_payload (cache_response h env payload st))) \<le> pyc_max_payload_len c"
    using py_exchange [OF assms(1,2)] by metis
  have ids: "py_ids_ok c"
    using assms(2) by (simp add: py_connected_def)
  have "py_read_response ?sk at_eof n bs = (Inl PyTimeoutError, bs)" for at_eof n
    by (subst py_read_response_def, subst py_recv_exactly.simps)
      (simp add: py_recv_def py_server_def py_HEADER_LEN_def)
  then have calls:
    "py_client_request ?sk (request_command payload) (py_request_of payload) c = (Inl PyTimeoutError, py_after_call bs c)"
    "py_async_request ?sk (request_command payload) (py_request_of payload) c =
       (Inl PyConnectionClosed, py_close (py_after_call bs c))"
    using assms(2,3) out bs(1)
    by (simp_all add: py_client_request_def py_async_request_def py_next_id_def Let_def py_connected_def py_after_call_def
        rbind_def py_async_failure_def py_transport_error_def)
  have "py_behind (py_after_call bs c)"
    unfolding py_behind_def
    by (rule exI [of _ ?reply]) (use bs py_id_eq [OF ids] py_after_call_simps(5) [OF ids, of bs] in \<open>simp add: py_reply_def\<close>)
  then show thesis
    using that calls by blast
qed

text \<open>C40. A time-out before the first byte of a response leaves the synchronous client one response behind
  and closes the other client. When a call of \<open>Client\<close> times out in its first receive, before any byte of
  the response has arrived, and nothing was left unread before, then every later call on that client that the server
  answers in time raises \<open>UnexpectedResponse\<close>, although the server executes the requests, because each call
  reads the response of the call before. \<open>AsyncClient\<close> closes the connection on the same time-out, and its
  later calls fail without sending anything. Nothing is claimed of a time-out in the middle of a response.\<close>

theorem py_timeout_breaks_client:
  assumes "servable h V env m payload st" "py_connected V payload c" "pyc_unread c = []"
    and "list_all (later_call V m (pyc_max_payload_len c)) calls"
    and "\<And>env st. recv_ok (py_server h env cid m recv st)"
  shows "\<exists>c1 c2.
    py_client_request (py_server h env cid m timing_out st) (request_command payload) (py_request_of payload) c =
      (Inl PyTimeoutError, c1) \<and>
    py_session h cid m calls recv c1 (py_server_after h env cid m payload c st) =
      replicate (length calls) (Inl PyUnexpectedResponse) \<and>
    py_async_request (py_server h env cid m timing_out st) (request_command payload) (py_request_of payload) c =
      (Inl PyConnectionClosed, c2) \<and>
    (\<forall>sk cmd p. py_async_request sk cmd p c2 = (Inl PyConnectionClosed, c2))"
proof -
  have s: "app_inv h V st" "env_ok env" "V + 100 < 2 ^ 32" "m < 2 ^ 32" "py_ids_ok c" "\<not> pyc_closed c"
    using assms(1,2) by (simp_all add: servable_def py_connected_def)
  obtain bs where bs:
    "py_client_request (py_server h env cid m timing_out st) (request_command payload) (py_request_of payload) c =
       (Inl PyTimeoutError, py_after_call bs c)" "py_behind (py_after_call bs c)"
    "py_async_request (py_server h env cid m timing_out st) (request_command payload) (py_request_of payload) c =
       (Inl PyConnectionClosed, py_close (py_after_call bs c))"
    using py_timed_out [OF assms(1-3)] by blast
  have "py_session h cid m calls recv (py_after_call bs c) (py_server_after h env cid m payload c st) =
      replicate (length calls) (Inl PyUnexpectedResponse)"
    by (rule py_behind_session [OF bs(2) _ _ py_server_after_inv [OF s(1,2)] s(3,4) _ assms(5)])
      (use s(5,6) assms(4) in simp_all)
  then show ?thesis
    using bs by (intro exI [of _ "py_after_call bs c"] exI [of _ "py_close (py_after_call bs c)"])
      (simp add: py_async_request_def py_close_def)
qed

theorem py_timeout_breaks_client_witness:
  "\<exists>c1. py_client_request (py_server sample_hasher (sample_env 10) 1 1024 timing_out roomy_app) CmdGet (PyGet ''ns'' [1])
       (py_client_new 1024) = (Inl PyTimeoutError, c1) \<and>
     py_session sample_hasher 1 1024 [(sample_env 20, ReqGet ''ns'' [1]), (sample_env 30, ReqGet ''ns'' [1])] bytewise
       c1 (py_server_after sample_hasher (sample_env 10) 1 1024 (ReqGet ''ns'' [1]) (py_client_new 1024) roomy_app) =
       [Inl PyUnexpectedResponse, Inl PyUnexpectedResponse]"
proof -
  have "list_all (later_call 100 1024 (pyc_max_payload_len (py_client_new 1024)))
      [(sample_env 20, ReqGet ''ns'' [1]), (sample_env 30, ReqGet ''ns'' [1])]"
    using sendable_get(1) [OF roomy_sends(1)]
    by (simp add: later_call_def sendable_def request_ok_def response_room_def py_client_new_def)
  from py_timeout_breaks_client [OF sample_get_servable fresh_connected _ this bytewise_ok, of sample_hasher 10 1]
  show ?thesis
    by (auto simp: py_client_new_def)
qed

end
