(* ===== verification/Socket_Addr.thy ===== *)
theory Socket_Addr
  imports Prelude
begin

text \<open>
  The socket addresses of the standard library, as far as the configuration uses them
  (\<open>SocketAddr\<close>'s \<open>FromStr\<close> and \<open>Display\<close>): IPv4 and IPv6 addresses with a port. A reader returns its
  result with the input that is left, or \<open>None\<close>, and then no input has been consumed.
\<close>

datatype socket_addr =
  SockV4 "u8 list" u16
| SockV6 "u16 list" u32 u16

definition socket_addr_ok :: "socket_addr \<Rightarrow> bool" where
  "socket_addr_ok a = (case a of SockV4 os p \<Rightarrow> length os = 4 | SockV6 gs sc p \<Rightarrow> length gs = 8)"

section \<open>Reading\<close>

definition to_digit :: "nat \<Rightarrow> char \<Rightarrow> nat option" where
  "to_digit radix c =
     (let n = of_char c :: nat;
          d = (if 48 \<le> n \<and> n \<le> 57 then n - 48
               else if 97 \<le> n \<and> n \<le> 122 then n - 87
               else if 65 \<le> n \<and> n \<le> 90 then n - 55 else 36)
      in if d < radix then Some d else None)"

definition radix_value :: "nat \<Rightarrow> string \<Rightarrow> nat" where
  "radix_value radix ds = foldl (\<lambda>acc c. radix * acc + (case to_digit radix c of Some d \<Rightarrow> d | None \<Rightarrow> 0)) 0 ds"

definition read_number :: "nat \<Rightarrow> nat option \<Rightarrow> bool \<Rightarrow> nat \<Rightarrow> string \<Rightarrow> (nat \<times> string) option" where
  "read_number radix max_digits allow_zero_prefix bound s =
     (let ds = takeWhile (\<lambda>c. to_digit radix c \<noteq> None) s
      in if ds = [] \<or> (case max_digits of Some m \<Rightarrow> m < length ds | None \<Rightarrow> False) \<or>
            bound < radix_value radix ds \<or> (\<not> allow_zero_prefix \<and> hd ds = CHR ''0'' \<and> 1 < length ds)
         then None else Some (radix_value radix ds, drop (length ds) s))"

definition read_given_char :: "char \<Rightarrow> string \<Rightarrow> string option" where
  "read_given_char c s = (case s of d # ds \<Rightarrow> if d = c then Some ds else None | [] \<Rightarrow> None)"

definition read_separator :: "char \<Rightarrow> nat \<Rightarrow> (string \<Rightarrow> ('a \<times> string) option) \<Rightarrow> string \<Rightarrow> ('a \<times> string) option" where
  "read_separator sep index inner s =
     (if 0 < index then Option.bind (read_given_char sep s) inner else inner s)"

fun read_octets :: "nat \<Rightarrow> nat \<Rightarrow> string \<Rightarrow> (u8 list \<times> string) option" where
  "read_octets i 0 s = Some ([], s)"
| "read_octets i (Suc n) s =
     Option.bind (read_separator CHR ''.'' i (read_number 10 (Some 3) False 255) s) (\<lambda>(octet, s1).
     Option.bind (read_octets (i + 1) n s1) (\<lambda>(octets, s2). Some (word_of_nat octet # octets, s2)))"

definition read_ipv4_addr :: "string \<Rightarrow> (u8 list \<times> string) option" where
  "read_ipv4_addr s = read_octets 0 4 s"

definition octet_group :: "u8 \<Rightarrow> u8 \<Rightarrow> u16" where
  "octet_group a b = word_of_nat (256 * unat a + unat b)"

text \<open>The groups read from index \<open>i\<close> on, with \<open>n\<close> of them at most, and whether an IPv4 address ended
  them.\<close>

fun read_groups :: "nat \<Rightarrow> nat \<Rightarrow> string \<Rightarrow> u16 list \<times> bool \<times> string" where
  "read_groups i 0 s = ([], False, s)"
| "read_groups i (Suc n) s =
     (case (if 0 < n then read_separator CHR '':'' i read_ipv4_addr s else None) of
        Some (octets, s1) \<Rightarrow>
          ([octet_group (octets ! 0) (octets ! 1), octet_group (octets ! 2) (octets ! 3)], True, s1)
      | None \<Rightarrow>
          (case read_separator CHR '':'' i (read_number 16 (Some 4) True 65535) s of
             None \<Rightarrow> ([], False, s)
           | Some (g, s1) \<Rightarrow>
               (let (gs, ipv4, s2) = read_groups (i + 1) n s1 in (word_of_nat g # gs, ipv4, s2))))"

definition read_ipv6_addr :: "string \<Rightarrow> (u16 list \<times> string) option" where
  "read_ipv6_addr s =
     (let (head, head_ipv4, s1) = read_groups 0 8 s
      in if length head = 8 then Some (head, s1)
         else if head_ipv4 then None
         else Option.bind (read_given_char CHR '':'' s1) (\<lambda>s2. Option.bind (read_given_char CHR '':'' s2) (\<lambda>s3.
           let (tail, _, s4) = read_groups 0 (8 - (length head + 1)) s3
           in Some (head @ replicate (8 - length head - length tail) 0 @ tail, s4))))"

definition read_port :: "string \<Rightarrow> (u16 \<times> string) option" where
  "read_port s = Option.bind (read_given_char CHR '':'' s) (\<lambda>s1.
     map_option (\<lambda>(p, s2). (word_of_nat p, s2)) (read_number 10 None True 65535 s1))"

definition read_scope_id :: "string \<Rightarrow> (u32 \<times> string) option" where
  "read_scope_id s = Option.bind (read_given_char CHR ''%'' s) (\<lambda>s1.
     map_option (\<lambda>(n, s2). (word_of_nat n, s2)) (read_number 10 None True (2 ^ 32 - 1) s1))"

definition read_socket_addr_v4 :: "string \<Rightarrow> (socket_addr \<times> string) option" where
  "read_socket_addr_v4 s = Option.bind (read_ipv4_addr s) (\<lambda>(octets, s1).
     map_option (\<lambda>(p, s2). (SockV4 octets p, s2)) (read_port s1))"

definition read_socket_addr_v6 :: "string \<Rightarrow> (socket_addr \<times> string) option" where
  "read_socket_addr_v6 s =
     Option.bind (read_given_char CHR ''['' s) (\<lambda>s1.
     Option.bind (read_ipv6_addr s1) (\<lambda>(groups, s2).
       let (scope_id, s3) = (case read_scope_id s2 of Some r \<Rightarrow> r | None \<Rightarrow> (0, s2))
       in Option.bind (read_given_char CHR '']'' s3) (\<lambda>s4.
          map_option (\<lambda>(p, s5). (SockV6 groups scope_id p, s5)) (read_port s4))))"

definition parse_socket_addr :: "string \<Rightarrow> socket_addr option" where
  "parse_socket_addr s =
     (case (case read_socket_addr_v4 s of Some r \<Rightarrow> Some r | None \<Rightarrow> read_socket_addr_v6 s) of
        Some (a, left) \<Rightarrow> if left = [] then Some a else None
      | None \<Rightarrow> None)"

section \<open>Printing\<close>

definition show_ipv4 :: "u8 list \<Rightarrow> string" where
  "show_ipv4 os = show_nat (unat (os ! 0)) @ ''.'' @ show_nat (unat (os ! 1)) @ ''.'' @
     show_nat (unat (os ! 2)) @ ''.'' @ show_nat (unat (os ! 3))"

definition hex_digit_char :: "nat \<Rightarrow> char" where
  "hex_digit_char d = (if d < 10 then char_of (48 + d) else char_of (87 + d))"

fun show_hex :: "nat \<Rightarrow> string" where
  "show_hex n = (if n < 16 then [hex_digit_char n] else show_hex (n div 16) @ [hex_digit_char (n mod 16)])"

declare show_hex.simps [simp del]

text \<open>The first of the longest runs of zero groups: start and length.\<close>

fun zero_runs :: "nat \<Rightarrow> nat \<times> nat \<Rightarrow> nat \<times> nat \<Rightarrow> u16 list \<Rightarrow> nat \<times> nat" where
  "zero_runs i current longest [] = longest"
| "zero_runs i (start, len) longest (g # gs) =
     (if g = 0 then
       (let current = (if len = 0 then (i, 1) else (start, len + 1));
            longest1 = (if snd longest < snd current then current else longest)
        in zero_runs (i + 1) current longest1 gs)
      else zero_runs (i + 1) (0, 0) longest gs)"

fun show_groups :: "u16 list \<Rightarrow> string" where
  "show_groups [] = []"
| "show_groups [g] = show_hex (unat g)"
| "show_groups (g # h # gs) = show_hex (unat g) @ '':'' @ show_groups (h # gs)"

definition group_octets :: "u16 \<Rightarrow> u8 list" where
  "group_octets g = [word_of_nat (unat g div 256), word_of_nat (unat g mod 256)]"

definition show_ipv6 :: "u16 list \<Rightarrow> string" where
  "show_ipv6 gs =
     (if take 6 gs = [0, 0, 0, 0, 0, 0xffff]
      then ''::ffff:'' @ show_ipv4 (group_octets (gs ! 6) @ group_octets (gs ! 7))
      else
       (let (start, len) = zero_runs 0 (0, 0) (0, 0) gs
        in if 1 < len then show_groups (take start gs) @ ''::'' @ show_groups (drop (start + len) gs)
           else show_groups gs))"

definition show_socket_addr :: "socket_addr \<Rightarrow> string" where
  "show_socket_addr a =
     (case a of SockV4 os p \<Rightarrow> show_ipv4 os @ '':'' @ show_nat (unat p)
      | SockV6 gs sc p \<Rightarrow>
          ''['' @ show_ipv6 gs @ (if sc = 0 then '''' else ''%'' @ show_nat (unat sc)) @ '']:'' @ show_nat (unat p))"

end
