(* ===== verification/Config.thy ===== *)
theory Config
  imports Server Socket_Addr
begin

text \<open>
  The configuration (src/config.rs) and what \<open>main\<close> (src/main.rs) does with it: the command line
  parser with all its errors, the default configuration, the report printed at start-up, and the
  exit code.
\<close>

section \<open>Configuration\<close>

definition DEFAULT_BIND_ADDR :: string where "DEFAULT_BIND_ADDR = ''127.0.0.1:7400''"
definition DEFAULT_NATIVE_BIND_ADDR :: string where "DEFAULT_NATIVE_BIND_ADDR = ''127.0.0.1:7401''"
definition DEFAULT_MAX_BODY_BYTES :: usize where "DEFAULT_MAX_BODY_BYTES = 8 * 1024 * 1024"
definition DEFAULT_MAX_MEMORY_BYTES :: usize where "DEFAULT_MAX_MEMORY_BYTES = 64 * 1024 * 1024"
definition DEFAULT_MAX_VALUE_BYTES :: usize where "DEFAULT_MAX_VALUE_BYTES = 8 * 1024 * 1024"
definition DEFAULT_CLEANUP_INTERVAL_MS :: u64 where "DEFAULT_CLEANUP_INTERVAL_MS = 250"
definition DEFAULT_CLEANUP_MAX_ENTRIES_PER_TICK :: usize where "DEFAULT_CLEANUP_MAX_ENTRIES_PER_TICK = 128"

record config =
  cf_bind_addr :: socket_addr
  cf_native_bind_addr :: "socket_addr option"
  cf_native_unix_socket :: "string option"
  cf_max_body_bytes :: usize
  cf_max_memory_bytes :: usize
  cf_max_value_bytes :: usize
  cf_cleanup_interval_ms :: u64
  cf_cleanup_max_entries_per_tick :: usize

text \<open>\<open>None\<close> is the panic of \<open>expect\<close> on a default address that does not parse.\<close>

definition config_default :: "config option" where
  "config_default =
     Option.bind (parse_socket_addr DEFAULT_BIND_ADDR) (\<lambda>bind_addr.
     Option.bind (parse_socket_addr DEFAULT_NATIVE_BIND_ADDR) (\<lambda>native_bind_addr.
     Some \<lparr>cf_bind_addr = bind_addr, cf_native_bind_addr = Some native_bind_addr, cf_native_unix_socket = None,
       cf_max_body_bytes = DEFAULT_MAX_BODY_BYTES, cf_max_memory_bytes = DEFAULT_MAX_MEMORY_BYTES,
       cf_max_value_bytes = DEFAULT_MAX_VALUE_BYTES, cf_cleanup_interval_ms = DEFAULT_CLEANUP_INTERVAL_MS,
       cf_cleanup_max_entries_per_tick = DEFAULT_CLEANUP_MAX_ENTRIES_PER_TICK\<rparr>))"

datatype config_error =
  HelpRequested
| MissingValue string
| UnknownArgument string
| InvalidBindAddress string
| InvalidNativeBindAddress string
| InvalidNativeUnixSocket string
| InvalidMaxBodyBytes string
| InvalidMaxMemoryBytes string
| InvalidMaxValueBytes string
| InvalidCleanupIntervalMs string
| InvalidCleanupMaxEntriesPerTick string

fun show_config_error :: "config_error \<Rightarrow> string" where
  "show_config_error HelpRequested = ''help requested''"
| "show_config_error (MissingValue flag) = ''missing value for '' @ flag"
| "show_config_error (UnknownArgument argument) = ''unknown argument: '' @ argument"
| "show_config_error (InvalidBindAddress v) = ''invalid bind address: '' @ v"
| "show_config_error (InvalidNativeBindAddress v) = ''invalid native bind address: '' @ v"
| "show_config_error (InvalidNativeUnixSocket v) = ''invalid native Unix socket path: '' @ v"
| "show_config_error (InvalidMaxBodyBytes v) = ''invalid max body byte limit: '' @ v"
| "show_config_error (InvalidMaxMemoryBytes v) = ''invalid max memory byte limit: '' @ v"
| "show_config_error (InvalidMaxValueBytes v) = ''invalid max value byte limit: '' @ v"
| "show_config_error (InvalidCleanupIntervalMs v) = ''invalid cleanup interval in milliseconds: '' @ v"
| "show_config_error (InvalidCleanupMaxEntriesPerTick v) = ''invalid cleanup max entries per tick: '' @ v"

section \<open>The command line\<close>

definition ok_or :: "'e \<Rightarrow> 'a option \<Rightarrow> 'e + 'a" where
  "ok_or e v = (case v of Some a \<Rightarrow> Inr a | None \<Rightarrow> Inl e)"

definition parse_nonzero_usize ::
  "string \<Rightarrow> string option \<Rightarrow> (string \<Rightarrow> config_error) \<Rightarrow> config_error + usize" where
  "parse_nonzero_usize flag v error =
     rbind (ok_or (MissingValue flag) v) (\<lambda>s.
     rbind (ok_or (error s) (parse_uint usize_max s)) (\<lambda>parsed.
     if parsed = 0 then Inl (error s) else Inr parsed))"

definition parse_u64 :: "string \<Rightarrow> string option \<Rightarrow> (string \<Rightarrow> config_error) \<Rightarrow> config_error + u64" where
  "parse_u64 flag v error =
     rbind (ok_or (MissingValue flag) v) (\<lambda>s.
     map_sum (\<lambda>e. e) word_of_nat (ok_or (error s) (parse_uint (2 ^ 64 - 1) s)))"

text \<open>The body of the loop: the argument and the next one, if there is one.\<close>

definition apply_argument :: "string \<Rightarrow> string option \<Rightarrow> config \<Rightarrow> config_error + config" where
  "apply_argument argument next_arg c =
     (if argument = ''-h'' \<or> argument = ''--help'' then Inl HelpRequested
      else if argument = ''--bind'' then
        rbind (ok_or (MissingValue argument) next_arg) (\<lambda>v.
        rbind (ok_or (InvalidBindAddress v) (parse_socket_addr v)) (\<lambda>a. Inr (c\<lparr>cf_bind_addr := a\<rparr>)))
      else if argument = ''--native-bind'' then
        rbind (ok_or (MissingValue argument) next_arg) (\<lambda>v.
        rbind (ok_or (InvalidNativeBindAddress v) (parse_socket_addr v)) (\<lambda>a. Inr (c\<lparr>cf_native_bind_addr := Some a\<rparr>)))
      else if argument = ''--native-unix'' then
        rbind (ok_or (MissingValue argument) next_arg) (\<lambda>v.
        if v = [] then Inl (InvalidNativeUnixSocket v) else Inr (c\<lparr>cf_native_unix_socket := Some v\<rparr>))
      else if argument = ''--max-body-bytes'' then
        rbind (parse_nonzero_usize argument next_arg InvalidMaxBodyBytes) (\<lambda>n. Inr (c\<lparr>cf_max_body_bytes := n\<rparr>))
      else if argument = ''--max-memory-bytes'' then
        rbind (parse_nonzero_usize argument next_arg InvalidMaxMemoryBytes) (\<lambda>n. Inr (c\<lparr>cf_max_memory_bytes := n\<rparr>))
      else if argument = ''--max-value-bytes'' then
        rbind (parse_nonzero_usize argument next_arg InvalidMaxValueBytes) (\<lambda>n. Inr (c\<lparr>cf_max_value_bytes := n\<rparr>))
      else if argument = ''--cleanup-interval-ms'' then
        rbind (parse_u64 argument next_arg InvalidCleanupIntervalMs) (\<lambda>n. Inr (c\<lparr>cf_cleanup_interval_ms := n\<rparr>))
      else if argument = ''--cleanup-max-entries-per-tick'' then
        rbind (parse_nonzero_usize argument next_arg InvalidCleanupMaxEntriesPerTick) (\<lambda>n.
          Inr (c\<lparr>cf_cleanup_max_entries_per_tick := n\<rparr>))
      else Inl (UnknownArgument argument))"

text \<open>Every argument that the loop accepts has consumed the one after it.\<close>

fun from_args_loop :: "config \<Rightarrow> string list \<Rightarrow> config_error + config" where
  "from_args_loop c [] = Inr c"
| "from_args_loop c [argument] = apply_argument argument None c"
| "from_args_loop c (argument # v # args) =
     rbind (apply_argument argument (Some v) c) (\<lambda>c1. from_args_loop c1 args)"

definition from_args :: "string list \<Rightarrow> (config_error + config) option" where
  "from_args args = map_option (\<lambda>c. from_args_loop c args) config_default"

section \<open>Start-up\<close>

definition app_from_config :: "config \<Rightarrow> app_state option" where
  "app_from_config c =
     app_from_limits \<lparr>max_memory_bytes = cf_max_memory_bytes c, max_value_bytes = cf_max_value_bytes c\<rparr>"

record startup_report =
  sr_admin_bind_addr :: string
  sr_native_bind_addr :: "string option"
  sr_native_unix_socket :: "string option"
  sr_max_body_bytes :: usize
  sr_max_memory_bytes :: usize
  sr_max_value_bytes :: usize
  sr_cleanup_interval_ms :: u64
  sr_cleanup_max_entries_per_tick :: usize

definition startup_report_of :: "config \<Rightarrow> startup_report" where
  "startup_report_of c =
     \<lparr>sr_admin_bind_addr = show_socket_addr (cf_bind_addr c),
      sr_native_bind_addr = map_option show_socket_addr (cf_native_bind_addr c),
      sr_native_unix_socket = cf_native_unix_socket c,
      sr_max_body_bytes = cf_max_body_bytes c,
      sr_max_memory_bytes = cf_max_memory_bytes c,
      sr_max_value_bytes = cf_max_value_bytes c,
      sr_cleanup_interval_ms = cf_cleanup_interval_ms c,
      sr_cleanup_max_entries_per_tick = cf_cleanup_max_entries_per_tick c\<rparr>"

definition or_disabled :: "string option \<Rightarrow> string" where
  "or_disabled v = (case v of Some s \<Rightarrow> s | None \<Rightarrow> ''disabled'')"

definition newline :: string where "newline = [CHR 0x0A]"

definition unlines :: "string list \<Rightarrow> string" where
  "unlines ls = concat (map (\<lambda>l. l @ newline) ls)"

definition help_text :: "string \<Rightarrow> string" where
  "help_text program_name = unlines
    [''Cachebox cache server'',
     [],
     ''Usage:'',
     ''  '' @ program_name @ '' [--bind <addr:port>] [--native-bind <addr:port>] [--native-unix <path>] [--max-body-bytes <bytes>] [--max-memory-bytes <bytes>] [--max-value-bytes <bytes>] [--cleanup-interval-ms <ms>] [--cleanup-max-entries-per-tick <count>]'',
     ''  '' @ program_name @ '' --help'',
     [],
     ''Options:'',
     ''  --bind <addr:port>  Address for the HTTP admin server to bind.'',
     ''                      Default: '' @ DEFAULT_BIND_ADDR,
     ''  --native-bind <addr:port>'',
     ''                      Address for the native TCP data-plane listener.'',
     ''                      Default: '' @ DEFAULT_NATIVE_BIND_ADDR,
     ''  --native-unix <path>'',
     ''                      Path for the native Unix socket data-plane listener.'',
     ''                      Disabled unless provided. Unix platforms only.'',
     ''  --max-body-bytes    Maximum accepted request body size.'',
     ''                      Default: '' @ show_nat DEFAULT_MAX_BODY_BYTES,
     ''  --max-memory-bytes  Maximum estimated in-memory cache size.'',
     ''                      Default: '' @ show_nat DEFAULT_MAX_MEMORY_BYTES,
     ''  --max-value-bytes   Maximum single cached value size.'',
     ''                      Default: '' @ show_nat DEFAULT_MAX_VALUE_BYTES,
     ''  --cleanup-interval-ms'',
     ''                      Background expired-entry cleanup interval in milliseconds.'',
     ''                      Use 0 to disable background cleanup.'',
     ''                      Default: '' @ show_nat (unat DEFAULT_CLEANUP_INTERVAL_MS),
     ''  --cleanup-max-entries-per-tick'',
     ''                      Maximum expired entries reclaimed per cleanup tick.'',
     ''                      Default: '' @ show_nat DEFAULT_CLEANUP_MAX_ENTRIES_PER_TICK,
     ''  -h, --help          Print this help text.'']"

definition report_lines :: "startup_report \<Rightarrow> string" where
  "report_lines r = unlines
    [''admin_bind_addr='' @ sr_admin_bind_addr r,
     ''native_bind_addr='' @ or_disabled (sr_native_bind_addr r),
     ''native_unix_socket='' @ or_disabled (sr_native_unix_socket r),
     ''max_body_bytes='' @ show_nat (sr_max_body_bytes r),
     ''max_memory_bytes='' @ show_nat (sr_max_memory_bytes r),
     ''max_value_bytes='' @ show_nat (sr_max_value_bytes r),
     ''cleanup_interval_ms='' @ show_nat (unat (sr_cleanup_interval_ms r)),
     ''cleanup_max_entries_per_tick='' @ show_nat (sr_cleanup_max_entries_per_tick r)]"

text \<open>What \<open>main\<close> writes to the standard streams, and the exit code. Running the server is an argument:
  it returns unit, or the text of an error.\<close>

record outcome =
  oc_stdout :: string
  oc_stderr :: string
  oc_exit :: nat

definition main :: "(config \<Rightarrow> string + unit) \<Rightarrow> string list \<Rightarrow> outcome option" where
  "main run argv =
     (let program_name = (case argv of p # _ \<Rightarrow> p | [] \<Rightarrow> ''cachebox'')
      in map_option (\<lambda>r. case r of
            Inr c \<Rightarrow>
              (let out = report_lines (startup_report_of c)
               in case run c of
                    Inr _ \<Rightarrow> \<lparr>oc_stdout = out, oc_stderr = [], oc_exit = 0\<rparr>
                  | Inl e \<Rightarrow> \<lparr>oc_stdout = out, oc_stderr = unlines [''cachebox: failed to run server: '' @ e], oc_exit = 1\<rparr>)
          | Inl HelpRequested \<Rightarrow> \<lparr>oc_stdout = help_text program_name, oc_stderr = [], oc_exit = 0\<rparr>
          | Inl e \<Rightarrow>
              \<lparr>oc_stdout = [],
               oc_stderr = unlines [''cachebox: '' @ show_config_error e, ''try '' @ [CHR 0x27] @ program_name @ '' --help'' @ [CHR 0x27]],
               oc_exit = 2\<rparr>)
         (from_args (drop 1 argv)))"

end
