(* ===== verification/Config_Props.thy ===== *)
theory Config_Props
  imports Config
begin

text \<open>
  The command line is read exactly: which arguments are accepted, which configuration they give, and
  that a printed configuration is read back.
\<close>

section \<open>Addresses\<close>

lemma to_digit_digit_char [simp]: "d < 10 \<Longrightarrow> to_digit 10 (digit_char d) = Some d"
  by (simp add: to_digit_def of_char_digit_char)

lemma show_nat_to_digit: "c \<in> set (show_nat n) \<Longrightarrow> to_digit 10 c \<noteq> None"
proof (induction n rule: show_nat.induct)
  case (1 n)
  then show ?case
    by (subst (asm) (2) show_nat.simps) (auto split: if_splits)
qed

lemma radix_value_show_nat: "radix_value 10 (show_nat n) = n"
proof (induction n rule: show_nat.induct)
  case (1 n)
  then show ?case
    by (subst show_nat.simps) (auto simp: radix_value_def)
qed

lemma hd_show_nat: "0 < n \<Longrightarrow> hd (show_nat n) \<noteq> CHR ''0''"
proof (induction n rule: show_nat.induct)
  case (1 n)
  have "d < 10 \<Longrightarrow> digit_char d = CHR ''0'' \<Longrightarrow> d = 0" for d
    using of_char_digit_char [of d] by simp
  with 1 show ?case
    by (subst show_nat.simps) (auto simp: show_nat_not_Nil)
qed

lemma read_number_show_nat:
  assumes "n \<le> bound" "s = [] \<or> to_digit 10 (hd s) = None"
    and "\<And>m. max_digits = Some m \<Longrightarrow> length (show_nat n) \<le> m"
  shows "read_number 10 max_digits zero bound (show_nat n @ s) = Some (n, s)"
proof -
  have ds: "takeWhile (\<lambda>c. to_digit 10 c \<noteq> None) (show_nat n @ s) = show_nat n"
    using assms(2) show_nat_to_digit [of _ n] by (cases s) (auto simp: takeWhile_append takeWhile_eq_all_conv)
  have lead: "\<not> (hd (show_nat n) = CHR ''0'' \<and> 1 < length (show_nat n))"
    using hd_show_nat [of n] by (cases "n = 0") (simp_all add: show_nat.simps [of 0])
  show ?thesis
    using assms(1,3) lead
    unfolding read_number_def Let_def ds by (auto simp: show_nat_not_Nil radix_value_show_nat not_less split: option.splits)
qed

lemma read_octet_show_nat:
  "s = [] \<or> to_digit 10 (hd s) = None \<Longrightarrow>
   read_number 10 (Some 3) False 255 (show_nat (unat (w :: u8)) @ s) = Some (unat w, s)"
  using unsigned_less [of w, where ?'a = nat] length_show_nat [of 3 "unat w"] by (intro read_number_show_nat) simp_all

lemma read_octet_dot:
  "read_number 10 (Some 3) False 255 (show_nat (unat (w :: u8)) @ CHR ''.'' # s) = Some (unat w, CHR ''.'' # s)"
proof -
  have "to_digit 10 CHR ''.'' = None"
    by (simp add: to_digit_def)
  then show ?thesis
    by (intro read_octet_show_nat) simp
qed

lemma read_ipv4_show:
  assumes "length os = 4" "s = [] \<or> to_digit 10 (hd s) = None"
  shows "read_ipv4_addr (show_ipv4 os @ s) = Some (os, s)"
proof -
  obtain a b c d where os: "os = [a, b, c, d]"
    using assms(1) by (auto simp: length_Suc_conv numeral_eq_Suc)
  have four: "(4 :: nat) = Suc (Suc (Suc (Suc 0)))"
    by simp
  have at: "[a, b, c, d] ! 2 = c" "[a, b, c, d] ! 3 = d"
    by (simp_all add: numeral_eq_Suc)
  show ?thesis
    unfolding read_ipv4_addr_def four os show_ipv4_def at
    by (simp add: read_separator_def read_given_char_def read_octet_dot read_octet_show_nat [OF assms(2)])
qed

lemma parse_show_v4:
  assumes "length os = 4"
  shows "parse_socket_addr (show_socket_addr (SockV4 os p)) = Some (SockV4 os p)"
proof -
  have colon: "to_digit 10 CHR '':'' = None"
    by (simp add: to_digit_def)
  have "read_number 10 None True 65535 (show_nat (unat p) @ []) = Some (unat p, [])"
    using unsigned_less [of p, where ?'a = nat] by (intro read_number_show_nat) simp_all
  then show ?thesis
    using read_ipv4_show [OF assms, of "CHR '':'' # show_nat (unat p)"] colon
    by (simp add: parse_socket_addr_def show_socket_addr_def read_socket_addr_v4_def read_port_def read_given_char_def)
qed

section \<open>Default configuration\<close>

definition default_config :: config where
  "default_config =
     \<lparr>cf_bind_addr = SockV4 [127, 0, 0, 1] 7400, cf_native_bind_addr = Some (SockV4 [127, 0, 0, 1] 7401),
      cf_native_unix_socket = None, cf_max_body_bytes = 8 * 1024 * 1024, cf_max_memory_bytes = 64 * 1024 * 1024,
      cf_max_value_bytes = 8 * 1024 * 1024, cf_cleanup_interval_ms = 250, cf_cleanup_max_entries_per_tick = 128\<rparr>"

lemma show_small: "show_nat 0 = ''0''" "show_nat 1 = ''1''" "show_nat 127 = ''127''" "show_nat 7400 = ''7400''"
  "show_nat 7401 = ''7401''"
  by (simp_all add: show_nat.simps digit_char_def char_of_def bit_0)

lemma config_default_eq: "config_default = Some default_config"
proof -
  have "show_socket_addr (SockV4 [127, 0, 0, 1] 7400) = DEFAULT_BIND_ADDR"
    "show_socket_addr (SockV4 [127, 0, 0, 1] 7401) = DEFAULT_NATIVE_BIND_ADDR"
    using show_small
    by (simp_all add: show_socket_addr_def show_ipv4_def DEFAULT_BIND_ADDR_def DEFAULT_NATIVE_BIND_ADDR_def)
  then have "parse_socket_addr DEFAULT_BIND_ADDR = Some (SockV4 [127, 0, 0, 1] 7400)"
    "parse_socket_addr DEFAULT_NATIVE_BIND_ADDR = Some (SockV4 [127, 0, 0, 1] 7401)"
    using parse_show_v4 [of "[127, 0, 0, 1]" 7400] parse_show_v4 [of "[127, 0, 0, 1]" 7401] by simp_all
  then show ?thesis
    by (simp add: config_default_def default_config_def DEFAULT_MAX_BODY_BYTES_def DEFAULT_MAX_MEMORY_BYTES_def
        DEFAULT_MAX_VALUE_BYTES_def DEFAULT_CLEANUP_INTERVAL_MS_def DEFAULT_CLEANUP_MAX_ENTRIES_PER_TICK_def)
qed

lemma from_args_eq: "from_args args = Some (from_args_loop default_config args)"
  by (simp add: from_args_def config_default_eq)

section \<open>Settings\<close>

text \<open>The reference: an accepted command line is a list of settings, and the last one of a flag counts.\<close>

definition positive :: "string \<Rightarrow> bool" where
  "positive v \<longleftrightarrow> (case parse_uint usize_max v of Some n \<Rightarrow> 0 < n | None \<Rightarrow> False)"

definition setting_ok :: "string \<times> string \<Rightarrow> bool" where
  "setting_ok p \<longleftrightarrow>
     (fst p = ''--bind'' \<and> parse_socket_addr (snd p) \<noteq> None) \<or>
     (fst p = ''--native-bind'' \<and> parse_socket_addr (snd p) \<noteq> None) \<or>
     (fst p = ''--native-unix'' \<and> snd p \<noteq> []) \<or>
     (fst p \<in> {''--max-body-bytes'', ''--max-memory-bytes'', ''--max-value-bytes'', ''--cleanup-max-entries-per-tick''} \<and>
       positive (snd p)) \<or>
     (fst p = ''--cleanup-interval-ms'' \<and> parse_uint (2 ^ 64 - 1) (snd p) \<noteq> None)"

definition last_value :: "string \<Rightarrow> ('a \<Rightarrow> 'b) \<Rightarrow> (string \<Rightarrow> 'a option) \<Rightarrow> (string \<times> string) list \<Rightarrow> 'b \<Rightarrow> 'b" where
  "last_value flag conv parse ps d = (case map_of (rev ps) flag of None \<Rightarrow> d | Some v \<Rightarrow> conv (the (parse v)))"

definition configured :: "config \<Rightarrow> (string \<times> string) list \<Rightarrow> config" where
  "configured c ps =
     \<lparr>cf_bind_addr = last_value ''--bind'' (\<lambda>a. a) parse_socket_addr ps (cf_bind_addr c),
      cf_native_bind_addr = last_value ''--native-bind'' Some parse_socket_addr ps (cf_native_bind_addr c),
      cf_native_unix_socket = last_value ''--native-unix'' Some Some ps (cf_native_unix_socket c),
      cf_max_body_bytes = last_value ''--max-body-bytes'' (\<lambda>n. n) (parse_uint usize_max) ps (cf_max_body_bytes c),
      cf_max_memory_bytes = last_value ''--max-memory-bytes'' (\<lambda>n. n) (parse_uint usize_max) ps (cf_max_memory_bytes c),
      cf_max_value_bytes = last_value ''--max-value-bytes'' (\<lambda>n. n) (parse_uint usize_max) ps (cf_max_value_bytes c),
      cf_cleanup_interval_ms = last_value ''--cleanup-interval-ms'' word_of_nat (parse_uint (2 ^ 64 - 1)) ps
        (cf_cleanup_interval_ms c),
      cf_cleanup_max_entries_per_tick = last_value ''--cleanup-max-entries-per-tick'' (\<lambda>n. n) (parse_uint usize_max) ps
        (cf_cleanup_max_entries_per_tick c)\<rparr>"

lemma last_value_Nil [simp]: "last_value flag conv parse [] d = d"
  by (simp add: last_value_def)

lemma last_value_Cons:
  "last_value flag conv parse (p # ps) d =
   last_value flag conv parse ps (if fst p = flag then conv (the (parse (snd p))) else d)"
  by (auto simp: last_value_def map_add_def map_of_append split: option.splits)

lemma parse_nonzero_usize_eq:
  "parse_nonzero_usize flag (Some v) error = (if positive v then Inr (the (parse_uint usize_max v)) else Inl (error v))"
  by (auto simp: parse_nonzero_usize_def positive_def ok_or_def split: option.splits)

lemma parse_u64_eq:
  "parse_u64 flag (Some v) error =
   (case parse_uint (2 ^ 64 - 1) v of Some n \<Rightarrow> Inr (word_of_nat n) | None \<Rightarrow> Inl (error v))"
  by (simp add: parse_u64_def ok_or_def split: option.splits)

lemma apply_argument_ok:
  "setting_ok p \<Longrightarrow> apply_argument (fst p) (Some (snd p)) c = Inr (configured c [p])"
  by (auto simp: setting_ok_def apply_argument_def configured_def last_value_Cons parse_nonzero_usize_eq parse_u64_eq ok_or_def)

lemma apply_argument_bad:
  "\<not> setting_ok (f, v) \<Longrightarrow> \<exists>e. apply_argument f (Some v) c = Inl e"
  by (auto simp: setting_ok_def apply_argument_def parse_nonzero_usize_eq parse_u64_eq ok_or_def split: option.splits)

lemma apply_argument_last: "\<exists>e. apply_argument f None c = Inl e"
  by (simp add: apply_argument_def ok_or_def parse_nonzero_usize_def parse_u64_def)

text \<open>The command line of a list of settings.\<close>

definition command_line :: "(string \<times> string) list \<Rightarrow> string list" where
  "command_line ps = concat (map (\<lambda>(flag, v). [flag, v]) ps)"

lemma command_line_simps [simp]: "command_line [] = []" "command_line (p # ps) = fst p # snd p # command_line ps"
  by (simp_all add: command_line_def case_prod_beta)

lemma configured_Cons: "configured (configured c [p]) ps = configured c (p # ps)"
  by (simp add: configured_def last_value_Cons)

lemma from_args_loop_settings:
  "list_all setting_ok ps \<Longrightarrow> from_args_loop c (command_line ps) = Inr (configured c ps)"
proof (induction ps arbitrary: c)
  case Nil
  then show ?case
    by (simp add: configured_def)
next
  case (Cons p ps)
  then show ?case
    using apply_argument_ok [of p c] by (simp add: configured_Cons)
qed

lemma from_args_loop_accepts:
  "from_args_loop c args = Inr c1 \<Longrightarrow> \<exists>ps. args = command_line ps \<and> list_all setting_ok ps"
proof (induction c args rule: from_args_loop.induct)
  case (1 c)
  then show ?case
    by (intro exI [of _ "[]"]) simp
next
  case (2 c argument)
  then show ?case
    using apply_argument_last [of argument c] by auto
next
  case (3 c argument v args)
  obtain c2 where c2: "apply_argument argument (Some v) c = Inr c2" "from_args_loop c2 args = Inr c1"
    using 3(2) by (auto simp: rbind_eq_Inr_iff)
  obtain ps where "args = command_line ps" "list_all setting_ok ps"
    using 3(1) [OF c2(2)] by blast
  moreover have "setting_ok (argument, v)"
    using apply_argument_bad [of argument v c] c2(1) by auto
  ultimately show ?case
    by (intro exI [of _ "(argument, v) # ps"]) simp
qed

text \<open>C30. The command line is read exactly: parsing never panics, whatever the arguments are, and it accepts a
  command line if and only if it is a list of flags with valid values; the configuration then has the last value
  given for each flag and the default for every other field. Every other command line is an error.\<close>

theorem command_line_exact:
  "from_args args \<noteq> None \<and>
   (\<forall>c. from_args args = Some (Inr c) \<longleftrightarrow>
     (\<exists>ps. args = command_line ps \<and> list_all setting_ok ps \<and> c = configured default_config ps))"
proof (intro conjI allI iffI)
  fix c
  assume "from_args args = Some (Inr c)"
  then have run: "from_args_loop default_config args = Inr c"
    by (simp add: from_args_eq)
  then obtain ps where "args = command_line ps" "list_all setting_ok ps"
    using from_args_loop_accepts by blast
  then show "\<exists>ps. args = command_line ps \<and> list_all setting_ok ps \<and> c = configured default_config ps"
    using run from_args_loop_settings [of ps default_config] by auto
qed (auto simp: from_args_eq from_args_loop_settings)

section \<open>Accepted configurations\<close>

definition config_usable :: "config \<Rightarrow> bool" where
  "config_usable c \<longleftrightarrow>
     list_all (\<lambda>n. 0 < n \<and> n \<le> usize_max) [cf_max_body_bytes c, cf_max_memory_bytes c, cf_max_value_bytes c,
       cf_cleanup_max_entries_per_tick c] \<and>
     cf_native_bind_addr c \<noteq> None \<and> cf_native_unix_socket c \<noteq> Some []"

lemma parse_uint_bound: "parse_uint bound v = Some n \<Longrightarrow> n \<le> bound"
  by (auto simp: parse_uint_def Let_def split: if_splits)

lemma default_config_usable: "config_usable default_config"
  by (simp add: config_usable_def default_config_def usize_max_def)

lemma apply_argument_usable:
  "config_usable c \<Longrightarrow> apply_argument argument v c = Inr c1 \<Longrightarrow> config_usable c1"
  by (auto simp: apply_argument_def parse_nonzero_usize_def ok_or_def rbind_eq_Inr_iff config_usable_def
      dest: parse_uint_bound split: if_splits option.splits)

lemma from_args_loop_usable: "config_usable c \<Longrightarrow> from_args_loop c args = Inr c1 \<Longrightarrow> config_usable c1"
proof (induction c args rule: from_args_loop.induct)
  case (2 c argument)
  then show ?case
    using apply_argument_last [of argument c] by auto
next
  case (3 c argument v args)
  then show ?case
    using apply_argument_usable by (fastforce simp: rbind_eq_Inr_iff)
qed simp

text \<open>The arguments that set every field of a configuration.\<close>

definition config_settings :: "config \<Rightarrow> (string \<times> string) list" where
  "config_settings c =
     [(''--bind'', show_socket_addr (cf_bind_addr c))] @
     (case cf_native_bind_addr c of Some a \<Rightarrow> [(''--native-bind'', show_socket_addr a)] | None \<Rightarrow> []) @
     (case cf_native_unix_socket c of Some path \<Rightarrow> [(''--native-unix'', path)] | None \<Rightarrow> []) @
     [(''--max-body-bytes'', show_nat (cf_max_body_bytes c)),
      (''--max-memory-bytes'', show_nat (cf_max_memory_bytes c)),
      (''--max-value-bytes'', show_nat (cf_max_value_bytes c)),
      (''--cleanup-interval-ms'', show_nat (unat (cf_cleanup_interval_ms c))),
      (''--cleanup-max-entries-per-tick'', show_nat (cf_cleanup_max_entries_per_tick c))]"

text \<open>An IPv4 address is read back from what is printed.\<close>

definition readable :: "socket_addr \<Rightarrow> bool" where
  "readable a \<longleftrightarrow> parse_socket_addr (show_socket_addr a) = Some a"

lemma readable_v4: "length os = 4 \<Longrightarrow> readable (SockV4 os p)"
  by (simp add: readable_def parse_show_v4)

text \<open>C31. A configuration survives a round trip through the command line: the arguments that print a
  usable configuration with readable addresses are accepted and give that configuration.\<close>

theorem config_round_trip:
  assumes "config_usable c" "readable (cf_bind_addr c)" "readable (the (cf_native_bind_addr c))"
  shows "from_args (command_line (config_settings c)) = Some (Inr c)"
proof -
  have positive: "positive (show_nat n)" "parse_uint usize_max (show_nat n) = Some n" if "0 < n" "n \<le> usize_max" for n
    using that parse_uint_show_nat [of n usize_max] by (simp_all add: positive_def)
  have u64: "parse_uint (2 ^ 64 - 1) (show_nat (unat (cf_cleanup_interval_ms c))) = Some (unat (cf_cleanup_interval_ms c))"
    using unat_u64_le by (rule parse_uint_show_nat)
  obtain a where a: "cf_native_bind_addr c = Some a"
    using assms(1) by (auto simp: config_usable_def)
  have "list_all setting_ok (config_settings c)"
    using assms(1-3) positive u64 a
    by (auto simp: config_settings_def setting_ok_def config_usable_def readable_def split: option.splits)
  moreover have "configured default_config (config_settings c) = c"
    using assms(1-3) positive u64 a
    by (cases c) (auto simp: configured_def config_settings_def last_value_Cons config_usable_def readable_def
        default_config_def split: option.splits)
  ultimately show ?thesis
    by (simp add: from_args_eq from_args_loop_settings)
qed

theorem config_round_trip_witness:
  "from_args (command_line (config_settings (default_config\<lparr>cf_native_unix_socket := Some ''/tmp/s''\<rparr>))) =
   Some (Inr (default_config\<lparr>cf_native_unix_socket := Some ''/tmp/s''\<rparr>))"
  by (rule config_round_trip) (simp_all add: config_usable_def default_config_def usize_max_def readable_v4)

section \<open>The exit code\<close>

text \<open>The program never panics on its arguments, and the exit code tells what happened: 2 with
  nothing on the standard output exactly when the arguments are wrong, 0 for the help text or a
  server that stopped in order, 1 for a server that failed.\<close>

lemma exit_code_tells_outcome:
  "\<exists>out. main run (program # args) = Some out \<and>
     (case from_args_loop default_config args of
        Inr c \<Rightarrow> oc_exit out = (case run c of Inr _ \<Rightarrow> 0 | Inl _ \<Rightarrow> 1) \<and> (oc_stderr out = [] \<longleftrightarrow> oc_exit out = 0) \<and>
          oc_stdout out = report_lines (startup_report_of c)
      | Inl e \<Rightarrow> oc_exit out = (if e = HelpRequested then 0 else 2) \<and> (oc_stdout out = [] \<longleftrightarrow> e \<noteq> HelpRequested) \<and>
          (oc_stderr out = [] \<longleftrightarrow> e = HelpRequested))"
proof -
  have "unlines (l # ls) \<noteq> []" for l ls
    by (simp add: unlines_def newline_def)
  then show ?thesis
    by (auto simp: main_def from_args_eq help_text_def Let_def split: sum.splits config_error.splits)
qed

end
