(* ===== verification/Startup.thy ===== *)
theory Startup
  imports Config_Props
begin

text \<open>
  Starting and stopping the server on a Unix platform (\<open>run\<close> and \<open>bind_native_unix_listener\<close> of
  src/server.rs): which listeners are bound in which order, what an error leaves behind, and what
  happens to the path of the Unix socket. The file system is a map from paths to what they name.
\<close>

section \<open>The Unix socket\<close>

text \<open>A path names a socket with a listener, a socket whose listener is gone, or something else.\<close>

datatype node = LiveSocket | StaleSocket | OtherFile

type_synonym files = "string \<Rightarrow> node option"

datatype io_error = AddrInUse string | AlreadyExists string | OsError string

text \<open>What the operating system answers beyond the state of the file system: failures of a call, among them a
  connection to a live socket that fails although a listener is there (no permission, a full backlog, a socket
  of another type), and whether another process removes the path between the first two calls.\<close>

record os_answers =
  os_vanishes :: bool
  os_connect_fails :: bool
  os_metadata_error :: "io_error option"
  os_remove_error :: "io_error option"
  os_bind_error :: "io_error option"

definition remove_file :: "os_answers \<Rightarrow> string \<Rightarrow> files \<Rightarrow> (io_error + unit) \<times> files" where
  "remove_file os path fs =
     (case os_remove_error os of Some e \<Rightarrow> (Inl e, fs)
      | None \<Rightarrow> if fs path = None then (Inl (OsError ''not found''), fs) else (Inr (), fs(path := None)))"

definition bind_unix :: "os_answers \<Rightarrow> string \<Rightarrow> files \<Rightarrow> (io_error + unit) \<times> files" where
  "bind_unix os path fs =
     (case os_bind_error os of Some e \<Rightarrow> (Inl e, fs)
      | None \<Rightarrow> if fs path \<noteq> None then (Inl (AddrInUse ''address in use''), fs)
                else (Inr (), fs(path \<mapsto> LiveSocket)))"

datatype connect_result = Connected | ConnectNotFound | ConnectFailed

definition connect_unix :: "os_answers \<Rightarrow> string \<Rightarrow> files \<Rightarrow> connect_result" where
  "connect_unix os path fs =
     (case fs path of Some LiveSocket \<Rightarrow> if os_connect_fails os then ConnectFailed else Connected | None \<Rightarrow> ConnectNotFound | _ \<Rightarrow> ConnectFailed)"

definition bind_native_unix_listener :: "os_answers \<Rightarrow> string \<Rightarrow> files \<Rightarrow> (io_error + unit) \<times> files" where
  "bind_native_unix_listener os path fs =
     (if fs path \<noteq> None then
       (let fs1 = (if os_vanishes os then fs(path := None) else fs)
        in case connect_unix os path fs1 of
             Connected \<Rightarrow> (Inl (AddrInUse (''native Unix socket is already active: '' @ path)), fs1)
           | ConnectNotFound \<Rightarrow> bind_unix os path fs1
           | ConnectFailed \<Rightarrow>
               (case os_metadata_error os of
                  Some e \<Rightarrow> (Inl e, fs1)
                | None \<Rightarrow>
                    if fs1 path \<noteq> Some LiveSocket \<and> fs1 path \<noteq> Some StaleSocket
                    then (Inl (AlreadyExists (''native Unix socket path is not a socket: '' @ path)), fs1)
                    else
                     (case remove_file os path fs1 of
                        (Inl e, fs2) \<Rightarrow> (Inl e, fs2)
                      | (Inr _, fs2) \<Rightarrow> bind_unix os path fs2)))
      else bind_unix os path fs)"

section \<open>Running the server\<close>

text \<open>The answers to the other calls: binding the two TCP listeners, how serving the admin routes ends,
  and what other processes do to the file system meanwhile.\<close>

record run_answers = os_answers +
  ra_bind_admin :: "io_error + socket_addr"
  ra_bind_native :: "io_error + unit"
  ra_serve :: "io_error + unit"
  ra_meanwhile :: "files \<Rightarrow> files"

text \<open>What \<open>run\<close> does, in order.\<close>

datatype run_event =
  LogStart string
| SpawnNative usize
| SpawnUnix usize
| SpawnCleanup u64 usize
| Serving
| AbortCleanup
| AbortNative
| AbortUnix

definition start_line :: "socket_addr \<Rightarrow> config \<Rightarrow> string" where
  "start_line local_addr c =
     ''event=server_start admin_bind_addr='' @ show_socket_addr local_addr @
     '' native_bind_addr='' @ or_disabled (map_option show_socket_addr (cf_native_bind_addr c)) @
     '' native_unix_socket='' @ or_disabled (cf_native_unix_socket c) @
     '' max_body_bytes='' @ show_nat (cf_max_body_bytes c) @
     '' max_memory_bytes='' @ show_nat (cf_max_memory_bytes c) @
     '' max_value_bytes='' @ show_nat (cf_max_value_bytes c) @
     '' cleanup_interval_ms='' @ show_nat (unat (cf_cleanup_interval_ms c)) @
     '' cleanup_max_entries_per_tick='' @ show_nat (cf_cleanup_max_entries_per_tick c)"

definition spawn_expiration_worker :: "u64 \<Rightarrow> usize \<Rightarrow> run_event list" where
  "spawn_expiration_worker interval_ms max_entries_per_tick =
     (if interval_ms = 0 then [] else [SpawnCleanup interval_ms max_entries_per_tick])"

definition run :: "run_answers \<Rightarrow> config \<Rightarrow> files \<Rightarrow> (io_error + unit) \<times> run_event list \<times> files" where
  "run ra c fs =
     (case ra_bind_admin ra of
        Inl e \<Rightarrow> (Inl e, [], fs)
      | Inr local_addr \<Rightarrow>
          (case (case cf_native_bind_addr c of Some _ \<Rightarrow> ra_bind_native ra | None \<Rightarrow> Inr ()) of
             Inl e \<Rightarrow> (Inl e, [LogStart (start_line local_addr c)], fs)
           | Inr _ \<Rightarrow>
               (let native = (if cf_native_bind_addr c = None then [] else [SpawnNative (cf_max_body_bytes c)]);
                    (unix, fs1) = (case cf_native_unix_socket c of
                        Some path \<Rightarrow> bind_native_unix_listener (os_answers.truncate ra) path fs
                      | None \<Rightarrow> (Inr (), fs))
                in case unix of
                     Inl e \<Rightarrow> (Inl e, [LogStart (start_line local_addr c)] @ native, fs1)
                   | Inr _ \<Rightarrow>
                       (let worker = spawn_expiration_worker (cf_cleanup_interval_ms c) (cf_cleanup_max_entries_per_tick c);
                            fs2 = (case cf_native_unix_socket c of
                                Some path \<Rightarrow> snd (remove_file (os_answers.truncate ra) path (ra_meanwhile ra fs1))
                              | None \<Rightarrow> ra_meanwhile ra fs1)
                        in (ra_serve ra,
                            [LogStart (start_line local_addr c)] @ native @
                            (if cf_native_unix_socket c = None then [] else [SpawnUnix (cf_max_body_bytes c)]) @
                            worker @ [Serving] @
                            (if worker = [] then [] else [AbortCleanup]) @
                            (if native = [] then [] else [AbortNative]) @
                            (if cf_native_unix_socket c = None then [] else [AbortUnix]), fs2)))))"

section \<open>What happens to files\<close>

lemmas unix_defs = bind_native_unix_listener_def bind_unix_def remove_file_def connect_unix_def


lemma bind_succeeds:
  "bind_native_unix_listener os path fs = (Inr (), fs1) \<Longrightarrow>
   fs1 = fs(path \<mapsto> LiveSocket) \<and> (fs path = None \<or> fs path = Some StaleSocket \<or> fs path = Some LiveSocket \<and> os_connect_fails os \<or> os_vanishes os)"
  by (auto simp: unix_defs Let_def split: option.splits if_splits node.splits prod.splits sum.splits)

lemma bind_other_paths:
  "bind_native_unix_listener os path fs = (r, fs1) \<Longrightarrow> q \<noteq> path \<Longrightarrow> fs1 q = fs q"
  by (auto simp: unix_defs Let_def split: option.splits if_splits node.splits prod.splits sum.splits)





text \<open>The tasks that a run started and the tasks that it stopped.\<close>

definition spawned :: "run_event list \<Rightarrow> nat" where
  "spawned evs = length (filter (\<lambda>e. case e of SpawnNative _ \<Rightarrow> True | SpawnUnix _ \<Rightarrow> True | SpawnCleanup _ _ \<Rightarrow> True | _ \<Rightarrow> False) evs)"

definition aborted :: "run_event list \<Rightarrow> nat" where
  "aborted evs = length (filter (\<lambda>e. e \<in> {AbortCleanup, AbortNative, AbortUnix}) evs)"

lemma run_serving:
  assumes "run ra c fs = (r, evs, fs1)" "Serving \<in> set evs"
  shows "r = ra_serve ra \<and> spawned evs = aborted evs \<and>
    (case cf_native_unix_socket c of
       None \<Rightarrow> fs1 = ra_meanwhile ra fs
     | Some path \<Rightarrow> fs1 = snd (remove_file (os_answers.truncate ra) path (ra_meanwhile ra (fs(path \<mapsto> LiveSocket)))))"
proof (cases "cf_native_unix_socket c")
  case None
  then show ?thesis
    using assms
    by (auto simp: run_def Let_def spawn_expiration_worker_def spawned_def aborted_def split: sum.splits if_splits option.splits)
next
  case (Some path)
  obtain u fs2 where bind: "bind_native_unix_listener (os_answers.truncate ra) path fs = (u, fs2)"
    by (cases "bind_native_unix_listener (os_answers.truncate ra) path fs")
  have "u = Inr ()"
    using assms bind Some by (cases u) (auto simp: run_def Let_def split: sum.splits if_splits option.splits)
  then have "fs2 = fs(path \<mapsto> LiveSocket)"
    using bind_succeeds bind by blast
  then show ?thesis
    using assms bind Some \<open>u = Inr ()\<close>
    by (auto simp: run_def Let_def spawn_expiration_worker_def spawned_def aborted_def split: sum.splits if_splits option.splits)
qed

text \<open>A server that was serving leaves nothing behind: it returns what serving returned, it has
  stopped as many tasks as it started, the path of its socket is free again, and no other path has
  changed.\<close>

lemma shutdown_leaves_nothing:
  assumes "run ra c fs = (r, evs, fs1)" "Serving \<in> set evs" "os_remove_error ra = None"
    and "ra_meanwhile ra = (\<lambda>fs. fs)"
  shows "r = ra_serve ra \<and> spawned evs = aborted evs \<and>
    fs1 = (case cf_native_unix_socket c of None \<Rightarrow> fs | Some path \<Rightarrow> fs(path := None))"
  using run_serving [OF assms(1,2)] assms(3,4)
  by (auto simp: remove_file_def os_answers.truncate_def split: option.splits)

end
