(* ===== verification/Bench.thy ===== *)
theory Bench
  imports Client "HOL-Library.Monad_Syntax"
begin

text \<open>
  The benchmark program (src/bin/cachebox-bench.rs): the statistics of a scenario, the loops that
  warm up and measure, the raw client, and the scenarios on the engine, on the protocol and on
  a native server with their assertions. The readings of the clock that measure time are a sequence \<open>t\<close>
  in nanoseconds, the environments that the cache meets a sequence \<open>envs\<close>. A run may panic, at an
  assertion or an \<open>expect\<close>, and a measuring loop may never end when the clock stands still; the
  quotient of two floating point numbers that the report prints is a function \<open>ratio\<close>.
\<close>

section \<open>Outcomes of a run\<close>

text \<open>\<open>None\<close> is a run that never ends.\<close>

datatype 'a ending = Panics | Done 'a

type_synonym 'a bench_run = "'a ending option"

definition finished :: "'a \<Rightarrow> 'a bench_run" where
  "finished a = Some (Done a)"

definition panic :: "'a bench_run" where
  "panic = Some Panics"

definition and_then :: "'a bench_run \<Rightarrow> ('a \<Rightarrow> 'b bench_run) \<Rightarrow> 'b bench_run" where
  "and_then r f = r \<bind> (\<lambda>out. case out of Panics \<Rightarrow> panic | Done a \<Rightarrow> f a)"

definition expect :: "'a option \<Rightarrow> 'a bench_run" where
  "expect r = (case r of None \<Rightarrow> panic | Some a \<Rightarrow> finished a)"

section \<open>Statistics\<close>

type_synonym duration = nat

definition WARMUP_ITERS :: usize where "WARMUP_ITERS = 100"
definition MEASURE_DURATION :: duration where "MEASURE_DURATION = 1000000000"
definition CONCURRENT_CLIENTS :: usize where "CONCURRENT_CLIENTS = 16"
definition PIPELINE_DEPTH :: usize where "PIPELINE_DEPTH = 32"

record 'f bench_result =
  br_name :: string
  br_transport :: string
  br_iterations :: usize
  br_p50_ns :: nat
  br_p95_ns :: nat
  br_p99_ns :: nat
  br_throughput_ops_s :: 'f
  br_memory_used_bytes :: usize
  br_cost_score_total :: usize
  br_notes :: string

text \<open>The product wraps at the width of \<open>usize\<close>; an index beyond the samples panics.\<close>

definition percentile_ns :: "duration list \<Rightarrow> usize \<Rightarrow> nat option" where
  "percentile_ns samples percentile =
     (let index = min ((length samples * percentile) mod 2 ^ 64 div 100) (length samples - 1)
      in if index < length samples then Some (samples ! index) else None)"

definition summarize ::
  "(usize \<Rightarrow> duration \<Rightarrow> 'f) \<Rightarrow> string \<Rightarrow> string \<Rightarrow> string \<Rightarrow> duration list \<Rightarrow> duration \<Rightarrow> usize \<Rightarrow>
     'f bench_result option" where
  "summarize ratio name transport notes samples elapsed memory_used =
     (let sorted_samples = sort samples;
          iterations = length sorted_samples
      in percentile_ns sorted_samples 50 \<bind> (\<lambda>p50.
         percentile_ns sorted_samples 95 \<bind> (\<lambda>p95.
         percentile_ns sorted_samples 99 \<bind> (\<lambda>p99.
         Some \<lparr>br_name = name, br_transport = transport, br_iterations = iterations, br_p50_ns = p50,
               br_p95_ns = p95, br_p99_ns = p99, br_throughput_ops_s = ratio iterations elapsed,
               br_memory_used_bytes = memory_used, br_cost_score_total = 0, br_notes = notes\<rparr>))))"

text \<open>Adding durations panics beyond the range of \<open>Duration\<close>.\<close>

definition duration_add :: "duration option \<Rightarrow> duration \<Rightarrow> duration option" where
  "duration_add acc d =
     acc \<bind> (\<lambda>sum. if sum + d < 2 ^ 64 * 1000000000 then Some (sum + d) else None)"

definition total_duration :: "duration list \<Rightarrow> duration option" where
  "total_duration samples = foldl duration_add (Some 0) samples"

definition with_memory :: "'f bench_result \<Rightarrow> usize \<Rightarrow> 'f bench_result" where
  "with_memory result memory_used = result\<lparr>br_memory_used_bytes := memory_used\<rparr>"

section \<open>Loops\<close>

text \<open>An operation changes the state of its scenario or panics.\<close>

type_synonym 's operation = "'s \<Rightarrow> 's option"

fun repeat :: "nat \<Rightarrow> 's operation \<Rightarrow> 's operation" where
  "repeat 0 operation s = Some s"
| "repeat (Suc n) operation s = operation s \<bind> repeat n operation"

definition warmup_sync :: "'s operation \<Rightarrow> 's operation" where
  "warmup_sync operation = repeat WARMUP_ITERS operation"

text \<open>One turn reads the clock three times: for the condition, and before and after the operation.
  \<open>pre\<close> is work of a turn that is not timed, \<open>spread\<close> what a measured time adds to the samples.\<close>

partial_function (option) measure_loop ::
  "'s operation \<Rightarrow> 's operation \<Rightarrow> (duration \<Rightarrow> duration list) \<Rightarrow> (nat \<Rightarrow> duration) \<Rightarrow> duration \<Rightarrow> nat \<Rightarrow>
     duration list \<Rightarrow> 's \<Rightarrow> (duration list \<times> nat \<times> 's) bench_run" where
  "measure_loop pre operation spread t started k samples s =
     (if t k - started < MEASURE_DURATION
      then (case pre s \<bind> operation of
              None \<Rightarrow> panic
            | Some s1 \<Rightarrow>
                measure_loop pre operation spread t started (k + 3) (samples @ spread (t (k + 2) - t (k + 1))) s1)
      else finished (samples, k + 1, s))"

text \<open>Measuring from a reading on, and the report with the time that passed until the end.\<close>

definition measure_from ::
  "(usize \<Rightarrow> duration \<Rightarrow> 'f) \<Rightarrow> string \<Rightarrow> string \<Rightarrow> string \<Rightarrow> (duration \<Rightarrow> duration list) \<Rightarrow> 's operation \<Rightarrow>
     (nat \<Rightarrow> duration) \<Rightarrow> 's \<Rightarrow> ('f bench_result \<times> 's) bench_run" where
  "measure_from ratio name transport notes spread operation t s =
     and_then (measure_loop Some operation spread t (t 0) 1 [] s) (\<lambda>(samples, k, s1).
       and_then (expect (summarize ratio name transport notes samples (t k - t 0) 0)) (\<lambda>r. finished (r, s1)))"

definition measure_sync ::
  "(usize \<Rightarrow> duration \<Rightarrow> 'f) \<Rightarrow> string \<Rightarrow> string \<Rightarrow> 's operation \<Rightarrow> (nat \<Rightarrow> duration) \<Rightarrow> 's \<Rightarrow>
     ('f bench_result \<times> 's) bench_run" where
  "measure_sync ratio name notes = measure_from ratio name ''engine'' notes (\<lambda>d. [d])"

definition measure_process_sync ::
  "(usize \<Rightarrow> duration \<Rightarrow> 'f) \<Rightarrow> string \<Rightarrow> string \<Rightarrow> 's operation \<Rightarrow> (nat \<Rightarrow> duration) \<Rightarrow> 's \<Rightarrow>
     ('f bench_result \<times> 's) bench_run" where
  "measure_process_sync ratio name notes = measure_from ratio name ''process'' notes (\<lambda>d. [d])"

text \<open>The scenarios that time only a part of a turn report the sum of the samples as the time.\<close>

definition measure_part ::
  "(usize \<Rightarrow> duration \<Rightarrow> 'f) \<Rightarrow> string \<Rightarrow> string \<Rightarrow> string \<Rightarrow> 's operation \<Rightarrow> 's operation \<Rightarrow>
     (nat \<Rightarrow> duration) \<Rightarrow> 's \<Rightarrow> ('f bench_result \<times> 's) bench_run" where
  "measure_part ratio name transport notes pre operation t s =
     and_then (measure_loop pre operation (\<lambda>d. [d]) t (t 0) 1 [] s) (\<lambda>(samples, k, s1).
       and_then (expect (total_duration samples)) (\<lambda>elapsed.
       and_then (expect (summarize ratio name transport notes samples elapsed 0)) (\<lambda>r. finished (r, s1))))"

section \<open>Scenarios on an engine\<close>

record engine_bench =
  eb_engine :: engine
  eb_index :: usize
  eb_tag :: string
  eb_calls :: nat

definition put_command_of :: "string \<Rightarrow> bytes \<Rightarrow> bytes \<Rightarrow> put_command" where
  "put_command_of ns key val =
     \<lparr>pc_namespace = ns, pc_key = key, pc_value = val, pc_ttl = Some (Ttl 60000), pc_stale_ttl = None,
      pc_tags = [], pc_cost = None\<rparr>"

text \<open>The counters of the scenarios wrap at the width of \<open>usize\<close>.\<close>

definition usize_succ :: "usize \<Rightarrow> usize" where
  "usize_succ n = (n + 1) mod 2 ^ 64"

text \<open>A call on the engine, in the next environment.\<close>

definition on_bench_engine ::
  "(nat \<Rightarrow> env) \<Rightarrow> (env \<Rightarrow> engine \<Rightarrow> 'r \<times> engine) \<Rightarrow> engine_bench \<Rightarrow> 'r \<times> engine_bench" where
  "on_bench_engine envs f s =
     (let (r, e1) = f (envs (eb_calls s)) (eb_engine s)
      in (r, s\<lparr>eb_engine := e1, eb_calls := eb_calls s + 1\<rparr>))"

definition bench_put :: "(nat \<Rightarrow> env) \<Rightarrow> put_command \<Rightarrow> engine_bench operation" where
  "bench_put envs cmd s =
     (case on_bench_engine envs (\<lambda>env. engine_put env cmd) s of
        (Inl err, s1) \<Rightarrow> None
      | (Inr ok, s1) \<Rightarrow> Some s1)"

definition engine_bench_new :: engine_bench where
  "engine_bench_new = \<lparr>eb_engine = engine_new, eb_index = 0, eb_tag = [], eb_calls = 0\<rparr>"

text \<open>Setting up, warming up, measuring, and the memory in the report.\<close>

definition engine_scenario ::
  "engine_bench operation \<Rightarrow> engine_bench operation \<Rightarrow> (engine_bench \<Rightarrow> ('f bench_result \<times> engine_bench) bench_run) \<Rightarrow>
     'f bench_result bench_run" where
  "engine_scenario setup operation sampled =
     and_then (expect (setup engine_bench_new \<bind> warmup_sync operation)) (\<lambda>s.
     and_then (sampled s) (\<lambda>(result, s1). finished (with_memory result (memory_used_bytes (eb_engine s1)))))"

definition engine_get_op :: "(nat \<Rightarrow> env) \<Rightarrow> engine_bench operation" where
  "engine_get_op envs s =
     (let (out, s1) = on_bench_engine envs (\<lambda>env. engine_get env ''bench'' (string_bytes ''get-key'')) s
      in if out = OutHit (string_bytes ''value'') then Some s1 else None)"

definition bench_engine_get ::
  "(usize \<Rightarrow> duration \<Rightarrow> 'f) \<Rightarrow> (nat \<Rightarrow> duration) \<Rightarrow> (nat \<Rightarrow> env) \<Rightarrow> 'f bench_result bench_run" where
  "bench_engine_get ratio t envs =
     engine_scenario (bench_put envs (put_command_of ''bench'' (string_bytes ''get-key'') (string_bytes ''value'')))
       (engine_get_op envs) (measure_sync ratio ''engine_get'' ''engine_cached_hit'' (engine_get_op envs) t)"

definition engine_put_op :: "(nat \<Rightarrow> env) \<Rightarrow> string \<Rightarrow> engine_bench operation" where
  "engine_put_op envs prefix s =
     bench_put envs (put_command_of ''bench'' (string_bytes (prefix @ show_nat (eb_index s))) (string_bytes ''value''))
       (s\<lparr>eb_index := usize_succ (eb_index s)\<rparr>)"

definition bench_engine_put ::
  "(usize \<Rightarrow> duration \<Rightarrow> 'f) \<Rightarrow> (nat \<Rightarrow> duration) \<Rightarrow> (nat \<Rightarrow> env) \<Rightarrow> 'f bench_result bench_run" where
  "bench_engine_put ratio t envs =
     engine_scenario Some (engine_put_op envs ''put-warmup-'')
       (measure_sync ratio ''engine_put'' ''engine_unique_keys'' (engine_put_op envs ''put-'') t)"

text \<open>Eight entries under one tag; the tag is what the source returns.\<close>

definition tagged_put :: "(nat \<Rightarrow> env) \<Rightarrow> usize \<Rightarrow> nat \<Rightarrow> engine_bench operation" where
  "tagged_put envs index item =
     bench_put envs ((put_command_of ''bench''
         (string_bytes (''tag-'' @ show_nat index @ ''-'' @ show_nat item)) (string_bytes ''value''))
       \<lparr>pc_tags := [''tag-'' @ show_nat index]\<rparr>)"

fun for_each :: "('a \<Rightarrow> 's operation) \<Rightarrow> 'a list \<Rightarrow> 's operation" where
  "for_each operation [] s = Some s"
| "for_each operation (a # as) s = operation a s \<bind> for_each operation as"

definition engine_put_tagged_values :: "(nat \<Rightarrow> env) \<Rightarrow> engine_bench operation" where
  "engine_put_tagged_values envs s =
     for_each (tagged_put envs (eb_index s)) [0..<8] s \<bind>
       (\<lambda>s1. Some (s1\<lparr>eb_tag := ''tag-'' @ show_nat (eb_index s), eb_index := usize_succ (eb_index s)\<rparr>))"

definition engine_invalidate_op :: "(nat \<Rightarrow> env) \<Rightarrow> engine_bench operation" where
  "engine_invalidate_op envs s =
     (let (removed, s1) = on_bench_engine envs (\<lambda>env. engine_invalidate_tag env ''bench'' (eb_tag s)) s
      in if removed = 8 then Some s1 else None)"

definition bench_engine_tag_invalidate_8 ::
  "(usize \<Rightarrow> duration \<Rightarrow> 'f) \<Rightarrow> (nat \<Rightarrow> duration) \<Rightarrow> (nat \<Rightarrow> env) \<Rightarrow> 'f bench_result bench_run" where
  "bench_engine_tag_invalidate_8 ratio t envs =
     engine_scenario Some (\<lambda>s. engine_put_tagged_values envs s \<bind> engine_invalidate_op envs)
       (measure_part ratio ''engine_tag_invalidate_8'' ''engine'' ''remove_8_tagged_keys''
          (engine_put_tagged_values envs) (engine_invalidate_op envs) t)"

section \<open>Scenarios on the protocol\<close>

definition native_get_payload :: "bytes \<Rightarrow> request_payload" where
  "native_get_payload key = ReqGet ''bench'' key"

definition native_put_payload :: "bytes \<Rightarrow> metadata \<Rightarrow> bytes \<Rightarrow> request_payload" where
  "native_put_payload key md val = ReqPut ''bench'' key md val"

definition native_tag_invalidate_payload :: "string \<Rightarrow> request_payload" where
  "native_tag_invalidate_payload tag = ReqTagInvalidate ''bench'' tag"

definition ttl_metadata :: metadata where
  "ttl_metadata = metadata_default\<lparr>md_ttl := Some (Ttl 60000), md_stale_ttl := Some (Ttl 60000)\<rparr>"

definition decode_get_op :: "bytes \<Rightarrow> unit operation" where
  "decode_get_op frame s =
     (case decode_request_frame frame usize_max of
        Inl err \<Rightarrow> None
      | Inr decoded \<Rightarrow> if rq_command decoded = CmdGet then Some s else None)"

definition bench_protocol_decode_get ::
  "(usize \<Rightarrow> duration \<Rightarrow> 'f) \<Rightarrow> (nat \<Rightarrow> duration) \<Rightarrow> 'f bench_result bench_run" where
  "bench_protocol_decode_get ratio t =
     and_then (expect (encode_request_frame \<lparr>rq_request_id = 1, rq_command = CmdGet,
         rq_payload = native_get_payload (string_bytes ''decode-key'')\<rparr>)) (\<lambda>frame.
     and_then (expect (warmup_sync (decode_get_op frame) ())) (\<lambda>s.
     and_then (measure_process_sync ratio ''protocol_decode_get'' ''decode_prebuilt_get_frame''
         (decode_get_op frame) t s) (\<lambda>(result, s1). finished result)))"

definition encode_hit_op :: "unit operation" where
  "encode_hit_op s =
     map_option (\<lambda>out. s) (encode_response_payload_view_frame 1 CmdGet (RvHit (string_bytes ''value'')))"

definition bench_protocol_encode_hit ::
  "(usize \<Rightarrow> duration \<Rightarrow> 'f) \<Rightarrow> (nat \<Rightarrow> duration) \<Rightarrow> 'f bench_result bench_run" where
  "bench_protocol_encode_hit ratio t =
     and_then (expect (warmup_sync encode_hit_op ())) (\<lambda>s.
     and_then (measure_process_sync ratio ''protocol_encode_hit'' ''encode_borrowed_hit_response'' encode_hit_op t s)
       (\<lambda>(result, s1). finished result))"

text \<open>The closure that encodes a hit and panics on everything else.\<close>

definition encode_hit :: "get_outcome_ref \<Rightarrow> bytes option" where
  "encode_hit out =
     (case out of
        RefHit v \<Rightarrow> encode_response_payload_view_frame 1 CmdGet (RvHit v)
      | _ \<Rightarrow> None)"

definition get_ref_encode_op :: "(nat \<Rightarrow> env) \<Rightarrow> engine_bench operation" where
  "get_ref_encode_op envs s =
     (let (out, s1) = on_bench_engine envs
            (\<lambda>env. get_ref env ''bench'' (string_bytes ''get-ref-encode'') encode_hit) s
      in map_option (\<lambda>_. s1) out)"

definition bench_engine_get_ref_encode ::
  "(usize \<Rightarrow> duration \<Rightarrow> 'f) \<Rightarrow> (nat \<Rightarrow> duration) \<Rightarrow> (nat \<Rightarrow> env) \<Rightarrow> 'f bench_result bench_run" where
  "bench_engine_get_ref_encode ratio t envs =
     engine_scenario
       (bench_put envs (put_command_of ''bench'' (string_bytes ''get-ref-encode'') (string_bytes ''value'')))
       (get_ref_encode_op envs)
       (measure_process_sync ratio ''engine_get_ref_encode'' ''engine_get_ref_plus_borrowed_encode''
          (get_ref_encode_op envs) t)"

section \<open>Scenarios on the sharded cache\<close>

record sharded_bench =
  sb_engine :: sharded_engine
  sb_calls :: nat

definition encode_sharded_get_ref_response ::
  "hasher \<Rightarrow> (nat \<Rightarrow> env) \<Rightarrow> bytes \<Rightarrow> bool \<Rightarrow> sharded_bench operation" where
  "encode_sharded_get_ref_response h envs key update_access s =
     (let env = envs (sb_calls s);
          (out, e1) =
            (if update_access then sharded_get_ref h env ''bench'' key encode_hit (sb_engine s)
             else sharded_get_ref_without_access_update h env ''bench'' key encode_hit (sb_engine s))
      in map_option (\<lambda>_. s\<lparr>sb_engine := e1, sb_calls := sb_calls s + 1\<rparr>) out)"

text \<open>A cache with one entry.\<close>

definition sharded_bench_put :: "hasher \<Rightarrow> (nat \<Rightarrow> env) \<Rightarrow> put_command \<Rightarrow> sharded_bench option" where
  "sharded_bench_put h envs cmd =
     sharded_with_limits engine_limits_default \<bind> (\<lambda>engine.
       case sharded_put h (envs 0) cmd engine of
         (Inl err, e1) \<Rightarrow> None
       | (Inr ok, e1) \<Rightarrow> Some \<lparr>sb_engine = e1, sb_calls = 1\<rparr>)"

definition sharded_scenario ::
  "(usize \<Rightarrow> duration \<Rightarrow> 'f) \<Rightarrow> (nat \<Rightarrow> duration) \<Rightarrow> hasher \<Rightarrow> (nat \<Rightarrow> env) \<Rightarrow> string \<Rightarrow> string \<Rightarrow> bytes \<Rightarrow>
     bool \<Rightarrow> 'f bench_result bench_run" where
  "sharded_scenario ratio t h envs name notes key update_access =
     (let operation = encode_sharded_get_ref_response h envs key update_access
      in and_then (expect (sharded_bench_put h envs (put_command_of ''bench'' key (string_bytes ''value'')) \<bind>
           warmup_sync operation)) (\<lambda>s.
         and_then (measure_process_sync ratio name notes operation t s) (\<lambda>(result, s1).
         finished (with_memory result (sharded_memory_used_bytes (sb_engine s1))))))"

definition bench_sharded_get_ref_encode ::
  "(usize \<Rightarrow> duration \<Rightarrow> 'f) \<Rightarrow> (nat \<Rightarrow> duration) \<Rightarrow> hasher \<Rightarrow> (nat \<Rightarrow> env) \<Rightarrow> 'f bench_result bench_run" where
  "bench_sharded_get_ref_encode ratio t h envs =
     sharded_scenario ratio t h envs ''sharded_get_ref_encode'' ''shard_lock_get_ref_access_update_encode''
       (string_bytes ''sharded-get-ref-encode'') True"

definition bench_sharded_get_ref_no_access_encode ::
  "(usize \<Rightarrow> duration \<Rightarrow> 'f) \<Rightarrow> (nat \<Rightarrow> duration) \<Rightarrow> hasher \<Rightarrow> (nat \<Rightarrow> env) \<Rightarrow> 'f bench_result bench_run" where
  "bench_sharded_get_ref_no_access_encode ratio t h envs =
     sharded_scenario ratio t h envs ''sharded_get_ref_no_access_encode''
       ''shard_lock_get_ref_without_access_update_encode'' (string_bytes ''sharded-get-ref-no-access-encode'') False"

section \<open>Scenarios on the runtime\<close>

text \<open>Spawning an empty task and joining it is an operation of the runtime, as are sending the response from a
  spawned task and receiving it.\<close>

definition bench_tokio_spawn_ready ::
  "(usize \<Rightarrow> duration \<Rightarrow> 'f) \<Rightarrow> (nat \<Rightarrow> duration) \<Rightarrow> 's operation \<Rightarrow> 's \<Rightarrow> ('f bench_result \<times> 's) bench_run" where
  "bench_tokio_spawn_ready ratio t spawn_join s =
     and_then (expect (warmup_sync spawn_join s))
       (measure_from ratio ''tokio_spawn_ready'' ''process'' ''spawn_empty_task_and_join'' (\<lambda>d. [d]) spawn_join t)"

definition bench_tokio_spawn_mpsc_response ::
  "(usize \<Rightarrow> duration \<Rightarrow> 'f) \<Rightarrow> (nat \<Rightarrow> duration) \<Rightarrow> 's operation \<Rightarrow> 's operation \<Rightarrow> 's \<Rightarrow>
     ('f bench_result \<times> 's) bench_run" where
  "bench_tokio_spawn_mpsc_response ratio t spawn_send recv s =
     and_then (expect (warmup_sync (\<lambda>s. spawn_send s \<bind> recv) s))
       (measure_from ratio ''tokio_spawn_mpsc_response'' ''process'' ''spawn_task_send_response_vec'' (\<lambda>d. [d])
          (\<lambda>s. spawn_send s \<bind> recv) t)"

end
