(* ===== verification/Bench_Native.thy ===== *)
theory Bench_Native
  imports Bench
begin

text \<open>
  The benchmark's raw protocol client and the scenarios that run against a native server
  (src/bin/cachebox-bench.rs). The other end of a connection is a function that takes the bytes
  written and returns the bytes that become readable, with a state of its own; a read beyond
  them fails. Clients of one benchmark share the state of the server.
\<close>

section \<open>The raw client\<close>

type_synonym 'w peer = "bytes \<Rightarrow> 'w \<Rightarrow> bytes \<times> 'w"

record 'w raw_client =
  rc_transport :: string
  rc_next_request_id :: u64
  rc_unread :: bytes
  rc_peer :: 'w

definition raw_connect :: "string \<Rightarrow> 'w \<Rightarrow> 'w raw_client" where
  "raw_connect transport w =
     \<lparr>rc_transport = transport, rc_next_request_id = 1, rc_unread = [], rc_peer = w\<rparr>"

text \<open>Connecting is tried again every 20 milliseconds until five seconds have passed; \<open>accepts\<close> says
  which attempts succeed. The panic is the error of the last attempt.\<close>

partial_function (option) connect_loop ::
  "(nat \<Rightarrow> bool) \<Rightarrow> (nat \<Rightarrow> duration) \<Rightarrow> duration \<Rightarrow> nat \<Rightarrow> nat bench_run" where
  "connect_loop accepts t deadline k =
     (if accepts k then finished k
      else if t (k + 1) < deadline then connect_loop accepts t deadline (k + 1) else panic)"

definition connect ::
  "string \<Rightarrow> (nat \<Rightarrow> bool) \<Rightarrow> (nat \<Rightarrow> duration) \<Rightarrow> 'w \<Rightarrow> 'w raw_client bench_run" where
  "connect transport accepts t w =
     and_then (connect_loop accepts t (t 0 + 5000000000) 0) (\<lambda>k. finished (raw_connect transport w))"

definition send_request ::
  "'w peer \<Rightarrow> command \<Rightarrow> request_payload \<Rightarrow> ('w, 'z) raw_client_scheme \<Rightarrow> (u64 \<times> ('w, 'z) raw_client_scheme) option" where
  "send_request peer cmd payload c =
     (let request_id = rc_next_request_id c
      in map_option (\<lambda>frame.
           (request_id, c\<lparr>rc_next_request_id := request_id + 1,
              rc_unread := rc_unread c @ fst (peer frame (rc_peer c)), rc_peer := snd (peer frame (rc_peer c))\<rparr>))
         (encode_request_frame \<lparr>rq_request_id = request_id, rq_command = cmd, rq_payload = payload\<rparr>))"

definition raw_read_response :: "('w, 'z) raw_client_scheme \<Rightarrow> (response_frame \<times> ('w, 'z) raw_client_scheme) option" where
  "raw_read_response c =
     (if length (rc_unread c) < HEADER_LEN then None
      else
       (let payload_len = from_be (take 4 (drop 16 (rc_unread c)))
        in if length (rc_unread c) < HEADER_LEN + payload_len then None
           else (case decode_response_frame (take (HEADER_LEN + payload_len) (rc_unread c)) usize_max of
                   Inl err \<Rightarrow> None
                 | Inr resp \<Rightarrow> Some (resp, c\<lparr>rc_unread := drop (HEADER_LEN + payload_len) (rc_unread c)\<rparr>))))"

definition raw_request ::
  "'w peer \<Rightarrow> command \<Rightarrow> request_payload \<Rightarrow> ('w, 'z) raw_client_scheme \<Rightarrow>
     (response_payload \<times> ('w, 'z) raw_client_scheme) option" where
  "raw_request peer cmd payload c =
     send_request peer cmd payload c \<bind> (\<lambda>(request_id, c1).
     raw_read_response c1 \<bind> (\<lambda>(response, c2).
       if rs_request_id response = request_id \<and> rs_command response = cmd
       then Some (rs_payload response, c2) else None))"

text \<open>A request with the assertion about its response.\<close>

definition assert_response ::
  "'w peer \<Rightarrow> command \<Rightarrow> request_payload \<Rightarrow> (response_payload \<Rightarrow> bool) \<Rightarrow> ('w, 'z) raw_client_scheme operation" where
  "assert_response peer cmd payload expected c =
     raw_request peer cmd payload c \<bind> (\<lambda>(response, c1). if expected response then Some c1 else None)"

text \<open>The benchmark's server as the other end: each frame is executed on its cache, in the next
  environment.\<close>

definition native_peer :: "hasher \<Rightarrow> (nat \<Rightarrow> env) \<Rightarrow> u64 \<Rightarrow> usize \<Rightarrow> (app_state \<times> nat) peer" where
  "native_peer h envs cid max_len frame w =
     (let (r, st1) = execute_native_frame_bytes h (envs (snd w)) cid max_len frame (fst w)
      in (case r of None \<Rightarrow> [] | Some bs \<Rightarrow> bs, st1, snd w + 1))"

section \<open>Scenarios of one client\<close>

record 'w native_bench = "'w raw_client" +
  nb_index :: usize
  nb_tag :: string

type_synonym ('w, 'f) native_scenario = "'w native_bench \<Rightarrow> ('f bench_result \<times> 'w native_bench) bench_run"

definition measure_native_async ::
  "(usize \<Rightarrow> duration \<Rightarrow> 'f) \<Rightarrow> string \<Rightarrow> string \<Rightarrow> 'w native_bench operation \<Rightarrow> (nat \<Rightarrow> duration) \<Rightarrow>
     ('w, 'f) native_scenario" where
  "measure_native_async ratio name notes body t s =
     measure_from ratio name (rc_transport s) notes (\<lambda>d. [d]) body t s"

text \<open>What a scenario sets up, how it warms up, and what it measures.\<close>

definition run_scenario ::
  "'w native_bench operation \<Rightarrow> 'w native_bench operation \<Rightarrow> ('w, 'f) native_scenario \<Rightarrow> ('w, 'f) native_scenario" where
  "run_scenario setup body sampled s =
     and_then (expect (setup (s\<lparr>nb_index := 0\<rparr>) \<bind> warmup_sync body)) sampled"

definition assert_stored :: "'w peer \<Rightarrow> bytes \<Rightarrow> metadata \<Rightarrow> ('w, 'z) raw_client_scheme operation" where
  "assert_stored peer key md =
     assert_response peer CmdPut (native_put_payload key md (string_bytes ''value'')) (\<lambda>r. r = RespStored 0)"

definition assert_hit :: "'w peer \<Rightarrow> bytes \<Rightarrow> ('w, 'z) raw_client_scheme operation" where
  "assert_hit peer key =
     assert_response peer CmdGet (native_get_payload key) (\<lambda>r. r = RespHit (string_bytes ''value''))"

definition bench_native_single_key_get ::
  "(usize \<Rightarrow> duration \<Rightarrow> 'f) \<Rightarrow> (nat \<Rightarrow> duration) \<Rightarrow> 'w peer \<Rightarrow> ('w, 'f) native_scenario" where
  "bench_native_single_key_get ratio t peer =
     run_scenario (assert_stored peer (string_bytes ''get-key'') metadata_default)
       (assert_hit peer (string_bytes ''get-key''))
       (measure_native_async ratio ''single_key_get'' ''cached_hit'' (assert_hit peer (string_bytes ''get-key'')) t)"

text \<open>Storing under the next of a series of keys.\<close>

definition put_next :: "'w peer \<Rightarrow> string \<Rightarrow> metadata \<Rightarrow> 'w native_bench operation" where
  "put_next peer prefix md s =
     assert_stored peer (string_bytes (prefix @ show_nat (nb_index s))) md (s\<lparr>nb_index := usize_succ (nb_index s)\<rparr>)"

definition bench_native_single_key_put ::
  "(usize \<Rightarrow> duration \<Rightarrow> 'f) \<Rightarrow> (nat \<Rightarrow> duration) \<Rightarrow> 'w peer \<Rightarrow> ('w, 'f) native_scenario" where
  "bench_native_single_key_put ratio t peer =
     run_scenario Some (put_next peer ''native-put-warmup-'' metadata_default)
       (measure_native_async ratio ''single_key_put'' ''unique_keys'' (put_next peer ''native-put-'' metadata_default) t)"

definition assert_native_batch_hits :: "'w peer \<Rightarrow> bytes list \<Rightarrow> ('w, 'z) raw_client_scheme operation" where
  "assert_native_batch_hits peer keys =
     assert_response peer CmdBatchGet (ReqBatchGet ''bench'' keys)
       (\<lambda>r. r = RespBatchGet (replicate (length keys) (ItemHit (string_bytes ''value''))))"

definition native_batch_key :: "nat \<Rightarrow> bytes" where
  "native_batch_key index = string_bytes (''native-batch-'' @ show_nat index)"

definition bench_native_batch_get ::
  "(usize \<Rightarrow> duration \<Rightarrow> 'f) \<Rightarrow> (nat \<Rightarrow> duration) \<Rightarrow> 'w peer \<Rightarrow> ('w, 'f) native_scenario" where
  "bench_native_batch_get ratio t peer =
     (let keys = map native_batch_key [0..<32]
      in run_scenario (for_each (\<lambda>index. assert_stored peer (native_batch_key index) metadata_default) [0..<32])
           (assert_native_batch_hits peer keys)
           (measure_native_async ratio ''batch_get_32'' ''32_keys'' (assert_native_batch_hits peer keys) t))"

definition lease_request :: request_payload where
  "lease_request = ReqLeaseStart ''bench'' (string_bytes ''native-contention'') 60000 None"

definition is_lease_granted :: "response_payload \<Rightarrow> bool" where
  "is_lease_granted r = (case r of RespLeaseGranted token stale \<Rightarrow> True | _ \<Rightarrow> False)"

definition assert_lease_denied :: "'w peer \<Rightarrow> ('w, 'z) raw_client_scheme operation" where
  "assert_lease_denied peer = assert_response peer CmdLeaseStart lease_request (\<lambda>r. r = RespLeaseDenied)"

definition bench_native_lease_contention ::
  "(usize \<Rightarrow> duration \<Rightarrow> 'f) \<Rightarrow> (nat \<Rightarrow> duration) \<Rightarrow> 'w peer \<Rightarrow> ('w, 'f) native_scenario" where
  "bench_native_lease_contention ratio t peer =
     run_scenario (assert_response peer CmdLeaseStart lease_request is_lease_granted)
       (assert_lease_denied peer)
       (measure_native_async ratio ''lease_contention'' ''same_missing_key'' (assert_lease_denied peer) t)"

definition native_invalidate_tag :: "'w peer \<Rightarrow> string \<Rightarrow> u32 \<Rightarrow> ('w, 'z) raw_client_scheme operation" where
  "native_invalidate_tag peer tag expected_removed =
     assert_response peer CmdTagInvalidate (native_tag_invalidate_payload tag) (\<lambda>r. r = RespInvalidated expected_removed)"

definition bench_native_tag_invalidate_empty ::
  "(usize \<Rightarrow> duration \<Rightarrow> 'f) \<Rightarrow> (nat \<Rightarrow> duration) \<Rightarrow> 'w peer \<Rightarrow> ('w, 'f) native_scenario" where
  "bench_native_tag_invalidate_empty ratio t peer =
     run_scenario Some (native_invalidate_tag peer ''empty-tag'' 0)
       (measure_native_async ratio ''tag_invalidate_empty'' ''single_empty_invalidate''
          (native_invalidate_tag peer ''empty-tag'' 0) t)"

text \<open>Eight entries under one tag; the tag and the next index are left in the state.\<close>

definition native_put_tagged_values :: "'w peer \<Rightarrow> 'w native_bench operation" where
  "native_put_tagged_values peer s =
     (let tag = ''native-tag-'' @ show_nat (nb_index s)
      in for_each (\<lambda>item. assert_stored peer (string_bytes (tag @ ''-'' @ show_nat item))
              (metadata_default\<lparr>md_tags := [tag]\<rparr>)) [0..<8] s \<bind>
           (\<lambda>s1. Some (s1\<lparr>nb_tag := tag, nb_index := usize_succ (nb_index s)\<rparr>)))"

definition invalidate_eight :: "'w peer \<Rightarrow> 'w native_bench operation" where
  "invalidate_eight peer s = native_invalidate_tag peer (nb_tag s) 8 s"

definition native_tag_invalidation_round :: "'w peer \<Rightarrow> 'w native_bench operation" where
  "native_tag_invalidation_round peer s = native_put_tagged_values peer s \<bind> invalidate_eight peer"

definition bench_native_tag_invalidate_8 ::
  "(usize \<Rightarrow> duration \<Rightarrow> 'f) \<Rightarrow> (nat \<Rightarrow> duration) \<Rightarrow> 'w peer \<Rightarrow> ('w, 'f) native_scenario" where
  "bench_native_tag_invalidate_8 ratio t peer =
     run_scenario Some (\<lambda>s. native_put_tagged_values peer s \<bind> invalidate_eight peer)
       (\<lambda>s. measure_part ratio ''tag_invalidate_8'' (rc_transport s) ''single_invalidate_8_tagged_keys''
          (native_put_tagged_values peer) (invalidate_eight peer) t s)"

definition bench_native_tag_invalidation ::
  "(usize \<Rightarrow> duration \<Rightarrow> 'f) \<Rightarrow> (nat \<Rightarrow> duration) \<Rightarrow> 'w peer \<Rightarrow> ('w, 'f) native_scenario" where
  "bench_native_tag_invalidation ratio t peer =
     run_scenario Some (native_tag_invalidation_round peer)
       (measure_native_async ratio ''tag_workflow_put8_invalidate'' ''8_puts_plus_invalidate''
          (native_tag_invalidation_round peer) t)"

definition bench_native_ttl_heavy_writes ::
  "(usize \<Rightarrow> duration \<Rightarrow> 'f) \<Rightarrow> (nat \<Rightarrow> duration) \<Rightarrow> 'w peer \<Rightarrow> ('w, 'f) native_scenario" where
  "bench_native_ttl_heavy_writes ratio t peer =
     run_scenario Some (put_next peer ''native-ttl-warmup-'' ttl_metadata)
       (measure_native_async ratio ''ttl_heavy_writes'' ''ttl_and_stale_ttl'' (put_next peer ''native-ttl-'' ttl_metadata) t)"

section \<open>Pipelined requests\<close>

fun send_gets ::
  "'w peer \<Rightarrow> bytes \<Rightarrow> nat \<Rightarrow> u64 list \<Rightarrow> ('w, 'z) raw_client_scheme \<Rightarrow> (u64 list \<times> ('w, 'z) raw_client_scheme) option" where
  "send_gets peer key 0 ids c = Some (ids, c)"
| "send_gets peer key (Suc n) ids c =
     send_request peer CmdGet (native_get_payload key) c \<bind> (\<lambda>(request_id, c1).
       send_gets peer key n (ids @ [request_id]) c1)"

text \<open>The first position of an element.\<close>

fun position :: "'a \<Rightarrow> 'a list \<Rightarrow> nat option" where
  "position x [] = None"
| "position x (y # ys) = (if y = x then Some 0 else map_option Suc (position x ys))"

text \<open>What the loop does with one response.\<close>

definition tick_off :: "u64 list \<Rightarrow> response_frame \<Rightarrow> bool list \<Rightarrow> bool list option" where
  "tick_off expected_ids response seen =
     position (rs_request_id response) expected_ids \<bind> (\<lambda>index.
       if \<not> seen ! index \<and> rs_command response = CmdGet \<and> rs_payload response = RespHit (string_bytes ''value'')
       then Some (seen[index := True]) else None)"

fun read_pipelined ::
  "u64 list \<Rightarrow> nat \<Rightarrow> bool list \<Rightarrow> ('w, 'z) raw_client_scheme \<Rightarrow> (bool list \<times> ('w, 'z) raw_client_scheme) option" where
  "read_pipelined expected_ids 0 seen c = Some (seen, c)"
| "read_pipelined expected_ids (Suc n) seen c =
     raw_read_response c \<bind> (\<lambda>(response, c1).
     tick_off expected_ids response seen \<bind> (\<lambda>seen1. read_pipelined expected_ids n seen1 c1))"

definition native_pipelined_get_round :: "'w peer \<Rightarrow> ('w, 'z) raw_client_scheme operation" where
  "native_pipelined_get_round peer c =
     send_gets peer (string_bytes ''pipeline-get-key'') PIPELINE_DEPTH [] c \<bind> (\<lambda>(expected_ids, c1).
     read_pipelined expected_ids PIPELINE_DEPTH (replicate PIPELINE_DEPTH False) c1 \<bind> (\<lambda>(seen, c2).
       if list_all (\<lambda>b. b) seen then Some c2 else None))"

text \<open>A round counts as so many samples of an equal share of its time.\<close>

definition per_request :: "duration \<Rightarrow> duration list" where
  "per_request d = replicate PIPELINE_DEPTH (d div PIPELINE_DEPTH)"

definition bench_native_pipelined_get ::
  "(usize \<Rightarrow> duration \<Rightarrow> 'f) \<Rightarrow> (nat \<Rightarrow> duration) \<Rightarrow> 'w peer \<Rightarrow> ('w, 'f) native_scenario" where
  "bench_native_pipelined_get ratio t peer =
     run_scenario (assert_stored peer (string_bytes ''pipeline-get-key'') metadata_default)
       (native_pipelined_get_round peer)
       (\<lambda>s. measure_from ratio ''pipelined_get_32'' (rc_transport s) ''one_connection_32_outstanding_gets'' per_request
          (native_pipelined_get_round peer) t s)"

section \<open>The official client\<close>

text \<open>A call of the official client on a connection to the peer, with the bytes that it writes.\<close>

definition official ::
  "'w peer \<Rightarrow> ((bytes \<Rightarrow> bytes) \<Rightarrow> 'a client_call) \<Rightarrow> bytes option \<Rightarrow> native_client \<times> 'w \<Rightarrow>
     ('a \<times> native_client \<times> 'w) option" where
  "official peer call written s =
     written \<bind> (\<lambda>out. call (\<lambda>bs. fst (peer bs (snd s))) (fst s) \<bind> (\<lambda>(r, c1).
       case r of Inl err \<Rightarrow> None | Inr a \<Rightarrow> Some (a, c1, snd (peer out (snd s)))))"

definition written_request :: "command \<Rightarrow> request_payload \<Rightarrow> native_client \<Rightarrow> bytes option" where
  "written_request cmd payload c =
     encode_request_frame \<lparr>rq_request_id = next_request_id c, rq_command = cmd, rq_payload = payload\<rparr>"

definition official_put :: "'w peer \<Rightarrow> bytes \<Rightarrow> (native_client \<times> 'w) operation" where
  "official_put peer key s =
     map_option snd (official peer (\<lambda>socket. client_put socket ''default'' key metadata_default (string_bytes ''value''))
       (written_request CmdPut (ReqPut ''default'' key metadata_default (string_bytes ''value'')) (fst s)) s)"

definition official_get :: "'w peer \<Rightarrow> bytes \<Rightarrow> (native_client \<times> 'w) operation" where
  "official_get peer key s =
     official peer (\<lambda>socket. client_get socket ''default'' key)
       (written_request CmdGet (ReqGet ''default'' key) (fst s)) s \<bind> (\<lambda>(r, s1).
         if r = GetHit (string_bytes ''value'') then Some s1 else None)"

definition official_sequential_get_32_round :: "'w peer \<Rightarrow> bytes \<Rightarrow> (native_client \<times> 'w) operation" where
  "official_sequential_get_32_round peer key = repeat PIPELINE_DEPTH (official_get peer key)"

definition official_pipelined_get_32_round :: "'w peer \<Rightarrow> bytes \<Rightarrow> (native_client \<times> 'w) operation" where
  "official_pipelined_get_32_round peer key s =
     (let requests = replicate PIPELINE_DEPTH (CmdGet, ReqGet ''default'' key)
      in official peer (\<lambda>socket. request_pipelined socket requests)
           (map_option (\<lambda>(expected, buffer, rid). buffer) (pipeline_requests 0 requests (next_request_id (fst s)) [] [])) s \<bind>
         (\<lambda>(responses, s1).
            if length responses = PIPELINE_DEPTH \<and> list_all (\<lambda>r. r = RespHit (string_bytes ''value'')) responses
            then Some s1 else None))"

definition official_scenario ::
  "(usize \<Rightarrow> duration \<Rightarrow> 'f) \<Rightarrow> (nat \<Rightarrow> duration) \<Rightarrow> 'w peer \<Rightarrow> string \<Rightarrow> string \<Rightarrow> string \<Rightarrow> bytes \<Rightarrow>
     (native_client \<times> 'w) operation \<Rightarrow> native_client \<times> 'w \<Rightarrow> ('f bench_result \<times> native_client \<times> 'w) bench_run" where
  "official_scenario ratio t peer name transport notes key turn s =
     and_then (expect (official_put peer key s \<bind> warmup_sync turn))
       (measure_from ratio name transport notes per_request turn t)"

definition bench_official_sequential_get_32 ::
  "(usize \<Rightarrow> duration \<Rightarrow> 'f) \<Rightarrow> (nat \<Rightarrow> duration) \<Rightarrow> 'w peer \<Rightarrow> string \<Rightarrow> native_client \<times> 'w \<Rightarrow>
     ('f bench_result \<times> native_client \<times> 'w) bench_run" where
  "bench_official_sequential_get_32 ratio t peer transport =
     (let key = string_bytes ''official-sequential-get-key''
      in official_scenario ratio t peer ''client_sequential_get_32'' transport ''official_client_32_sequential_gets'' key
           (official_sequential_get_32_round peer key))"

definition bench_official_pipelined_get_32 ::
  "(usize \<Rightarrow> duration \<Rightarrow> 'f) \<Rightarrow> (nat \<Rightarrow> duration) \<Rightarrow> 'w peer \<Rightarrow> string \<Rightarrow> native_client \<times> 'w \<Rightarrow>
     ('f bench_result \<times> native_client \<times> 'w) bench_run" where
  "bench_official_pipelined_get_32 ratio t peer transport =
     (let key = string_bytes ''official-pipelined-get-key''
      in official_scenario ratio t peer ''client_pipelined_get_32'' transport ''official_client_32_pipelined_gets'' key
           (official_pipelined_get_32_round peer key))"

section \<open>Short connections\<close>

text \<open>Every turn connects anew; the state is that of the server.\<close>

definition short_connection_turn :: "'w peer \<Rightarrow> ('w \<Rightarrow> 'w raw_client option) \<Rightarrow> 'w operation" where
  "short_connection_turn peer connecting w =
     connecting w \<bind> assert_hit peer (string_bytes ''short-connection-key'') \<bind> (\<lambda>c. Some (rc_peer c))"

definition bench_native_short_connection_get ::
  "(usize \<Rightarrow> duration \<Rightarrow> 'f) \<Rightarrow> (nat \<Rightarrow> duration) \<Rightarrow> 'w peer \<Rightarrow> string \<Rightarrow> ('w \<Rightarrow> 'w raw_client option) \<Rightarrow>
     'w raw_client \<Rightarrow> ('f bench_result \<times> 'w) bench_run" where
  "bench_native_short_connection_get ratio t peer transport connecting setup =
     and_then (expect (assert_stored peer (string_bytes ''short-connection-key'') metadata_default setup \<bind>
         (\<lambda>c. warmup_sync (short_connection_turn peer connecting) (rc_peer c))))
       (measure_from ratio ''short_connection_get'' transport ''connect_get_close'' (\<lambda>d. [d])
          (short_connection_turn peer connecting) t)"

section \<open>Concurrent clients\<close>

text \<open>The workers of a scenario are tasks that take turns on one server. A panic inside a task is the
  panic of whoever joins it.\<close>

datatype worker_status = Connecting | Measuring | Finished | Panicked

record 'w worker =
  wk_client :: "'w raw_client"
  wk_status :: worker_status
  wk_index :: usize
  wk_samples :: "duration list"

definition worker_spawn :: "'w \<Rightarrow> 'w worker" where
  "worker_spawn w =
     \<lparr>wk_client = raw_connect [] w, wk_status = Connecting, wk_index = 0, wk_samples = []\<rparr>"

text \<open>What a worker does between two readings of the clock: the key of its next request, and the
  request on the shared server.\<close>

type_synonym 'w job = "nat \<Rightarrow> usize \<Rightarrow> 'w raw_client operation"

definition get_work :: "'w peer \<Rightarrow> 'w job" where
  "get_work peer client_index index = assert_hit peer (string_bytes ''concurrent-get-key'')"

definition distinct_key :: "nat \<Rightarrow> bytes" where
  "distinct_key client_index = string_bytes (''concurrent-get-distinct-'' @ show_nat client_index)"

definition get_distinct_work :: "'w peer \<Rightarrow> 'w job" where
  "get_distinct_work peer client_index index = assert_hit peer (distinct_key client_index)"

definition put_work :: "'w peer \<Rightarrow> 'w job" where
  "put_work peer client_index index =
     assert_stored peer (string_bytes (''concurrent-put-'' @ show_nat client_index @ ''-'' @ show_nat index)) metadata_default"

inductive worker_step ::
  "('w \<Rightarrow> 'w raw_client option) \<Rightarrow> 'w job \<Rightarrow> duration \<Rightarrow> 'w \<times> 'w worker list \<Rightarrow> 'w \<times> 'w worker list \<Rightarrow> bool"
  for connecting work deadline where
  connects: "\<lbrakk>i < length ws; wk_status (ws ! i) = Connecting; connecting w = Some c\<rbrakk> \<Longrightarrow>
    worker_step connecting work deadline (w, ws)
      (rc_peer c, ws[i := (ws ! i)\<lparr>wk_client := c, wk_status := Measuring\<rparr>])"
| connect_panics: "\<lbrakk>i < length ws; wk_status (ws ! i) = Connecting; connecting w = None\<rbrakk> \<Longrightarrow>
    worker_step connecting work deadline (w, ws) (w, ws[i := (ws ! i)\<lparr>wk_status := Panicked\<rparr>])"
| measures: "\<lbrakk>i < length ws; wk_status (ws ! i) = Measuring; now < deadline; now \<le> began; began \<le> ended;
      work i (wk_index (ws ! i)) ((wk_client (ws ! i))\<lparr>rc_peer := w\<rparr>) = Some c\<rbrakk> \<Longrightarrow>
    worker_step connecting work deadline (w, ws)
      (rc_peer c, ws[i := (ws ! i)\<lparr>wk_client := c, wk_index := usize_succ (wk_index (ws ! i)),
         wk_samples := wk_samples (ws ! i) @ [ended - began]\<rparr>])"
| work_panics: "\<lbrakk>i < length ws; wk_status (ws ! i) = Measuring; now < deadline;
      work i (wk_index (ws ! i)) ((wk_client (ws ! i))\<lparr>rc_peer := w\<rparr>) = None\<rbrakk> \<Longrightarrow>
    worker_step connecting work deadline (w, ws) (w, ws[i := (ws ! i)\<lparr>wk_status := Panicked\<rparr>])"
| finishes: "\<lbrakk>i < length ws; wk_status (ws ! i) = Measuring; deadline \<le> now\<rbrakk> \<Longrightarrow>
    worker_step connecting work deadline (w, ws) (w, ws[i := (ws ! i)\<lparr>wk_status := Finished\<rparr>])"

definition all_joined :: "'w worker list \<Rightarrow> bool" where
  "all_joined ws = list_all (\<lambda>k. wk_status k = Finished) ws"

definition summarize_joined_samples ::
  "(usize \<Rightarrow> duration \<Rightarrow> 'f) \<Rightarrow> string \<Rightarrow> string \<Rightarrow> string \<Rightarrow> duration \<Rightarrow> 'w worker list \<Rightarrow> 'f bench_result bench_run" where
  "summarize_joined_samples ratio name transport notes elapsed ws =
     (if all_joined ws then expect (summarize ratio name transport notes (concat (map wk_samples ws)) elapsed 0)
      else if list_ex (\<lambda>k. wk_status k = Panicked) ws then panic else None)"

text \<open>A scenario stores its entries, spawns the workers, and reports when they are joined.\<close>

inductive concurrent_scenario ::
  "(usize \<Rightarrow> duration \<Rightarrow> 'f) \<Rightarrow> string \<Rightarrow> string \<Rightarrow> string \<Rightarrow> ('w \<Rightarrow> 'w raw_client option) \<Rightarrow> 'w job \<Rightarrow>
     'w option \<Rightarrow> 'f bench_result ending \<Rightarrow> bool"
  for ratio name transport label connecting work where
  setup_panics: "concurrent_scenario ratio name transport label connecting work None Panics"
| reports: "\<lbrakk>(worker_step connecting work (started + MEASURE_DURATION))\<^sup>*\<^sup>*
        (w, replicate CONCURRENT_CLIENTS (worker_spawn w)) (w1, ws);
      summarize_joined_samples ratio name transport label (ended - started) ws = Some r\<rbrakk> \<Longrightarrow>
    concurrent_scenario ratio name transport label connecting work (Some w) r"

definition bench_native_concurrent_get ::
  "(usize \<Rightarrow> duration \<Rightarrow> 'f) \<Rightarrow> 'w peer \<Rightarrow> string \<Rightarrow> ('w \<Rightarrow> 'w raw_client option) \<Rightarrow> 'w raw_client \<Rightarrow>
     'f bench_result ending \<Rightarrow> bool" where
  "bench_native_concurrent_get ratio peer transport connecting setup =
     concurrent_scenario ratio ''concurrent_get_16'' transport ''16_clients_cached_hit'' connecting (get_work peer)
       (map_option rc_peer (assert_stored peer (string_bytes ''concurrent-get-key'') metadata_default setup))"

definition bench_native_concurrent_get_distinct ::
  "(usize \<Rightarrow> duration \<Rightarrow> 'f) \<Rightarrow> 'w peer \<Rightarrow> string \<Rightarrow> ('w \<Rightarrow> 'w raw_client option) \<Rightarrow> 'w raw_client \<Rightarrow>
     'f bench_result ending \<Rightarrow> bool" where
  "bench_native_concurrent_get_distinct ratio peer transport connecting setup =
     concurrent_scenario ratio ''concurrent_get_16_distinct'' transport ''16_clients_distinct_cached_hits'' connecting
       (get_distinct_work peer)
       (map_option rc_peer (for_each (\<lambda>client_index. assert_stored peer (distinct_key client_index) metadata_default)
          [0..<CONCURRENT_CLIENTS] setup))"

definition bench_native_concurrent_put ::
  "(usize \<Rightarrow> duration \<Rightarrow> 'f) \<Rightarrow> 'w peer \<Rightarrow> string \<Rightarrow> ('w \<Rightarrow> 'w raw_client option) \<Rightarrow> 'w \<Rightarrow>
     'f bench_result ending \<Rightarrow> bool" where
  "bench_native_concurrent_put ratio peer transport connecting w =
     concurrent_scenario ratio ''concurrent_put_16'' transport ''16_clients_unique_keys'' connecting (put_work peer) (Some w)"

text \<open>The scenarios on the two transports: \<open>connecting\<close> is the connection over that transport, and where
  a scenario sets up entries, it first connects a client of its own.\<close>

definition connected ::
  "('w \<Rightarrow> 'w raw_client option) \<Rightarrow> ('w raw_client \<Rightarrow> 'f bench_result ending \<Rightarrow> bool) \<Rightarrow> 'w \<Rightarrow>
     'f bench_result ending \<Rightarrow> bool" where
  "connected connecting scenario w r =
     (case connecting w of None \<Rightarrow> r = Panics | Some setup \<Rightarrow> scenario setup r)"

definition bench_native_concurrent_get_tcp ::
  "(usize \<Rightarrow> duration \<Rightarrow> 'f) \<Rightarrow> 'w peer \<Rightarrow> ('w \<Rightarrow> 'w raw_client option) \<Rightarrow> 'w \<Rightarrow> 'f bench_result ending \<Rightarrow> bool" where
  "bench_native_concurrent_get_tcp ratio peer connecting =
     connected connecting (bench_native_concurrent_get ratio peer ''loopback_tcp'' connecting)"

definition bench_native_concurrent_get_distinct_tcp ::
  "(usize \<Rightarrow> duration \<Rightarrow> 'f) \<Rightarrow> 'w peer \<Rightarrow> ('w \<Rightarrow> 'w raw_client option) \<Rightarrow> 'w \<Rightarrow> 'f bench_result ending \<Rightarrow> bool" where
  "bench_native_concurrent_get_distinct_tcp ratio peer connecting =
     connected connecting (bench_native_concurrent_get_distinct ratio peer ''loopback_tcp'' connecting)"

definition bench_native_concurrent_put_tcp ::
  "(usize \<Rightarrow> duration \<Rightarrow> 'f) \<Rightarrow> 'w peer \<Rightarrow> ('w \<Rightarrow> 'w raw_client option) \<Rightarrow> 'w \<Rightarrow> 'f bench_result ending \<Rightarrow> bool" where
  "bench_native_concurrent_put_tcp ratio peer connecting =
     bench_native_concurrent_put ratio peer ''loopback_tcp'' connecting"

definition bench_native_short_connection_get_tcp ::
  "(usize \<Rightarrow> duration \<Rightarrow> 'f) \<Rightarrow> (nat \<Rightarrow> duration) \<Rightarrow> 'w peer \<Rightarrow> ('w \<Rightarrow> 'w raw_client option) \<Rightarrow> 'w \<Rightarrow>
     ('f bench_result \<times> 'w) bench_run" where
  "bench_native_short_connection_get_tcp ratio t peer connecting w =
     and_then (expect (connecting w)) (bench_native_short_connection_get ratio t peer ''loopback_tcp'' connecting)"

definition bench_native_concurrent_get_unix ::
  "(usize \<Rightarrow> duration \<Rightarrow> 'f) \<Rightarrow> 'w peer \<Rightarrow> ('w \<Rightarrow> 'w raw_client option) \<Rightarrow> 'w \<Rightarrow> 'f bench_result ending \<Rightarrow> bool" where
  "bench_native_concurrent_get_unix ratio peer connecting =
     connected connecting (bench_native_concurrent_get ratio peer ''loopback_unix'' connecting)"

definition bench_native_concurrent_get_distinct_unix ::
  "(usize \<Rightarrow> duration \<Rightarrow> 'f) \<Rightarrow> 'w peer \<Rightarrow> ('w \<Rightarrow> 'w raw_client option) \<Rightarrow> 'w \<Rightarrow> 'f bench_result ending \<Rightarrow> bool" where
  "bench_native_concurrent_get_distinct_unix ratio peer connecting =
     connected connecting (bench_native_concurrent_get_distinct ratio peer ''loopback_unix'' connecting)"

definition bench_native_concurrent_put_unix ::
  "(usize \<Rightarrow> duration \<Rightarrow> 'f) \<Rightarrow> 'w peer \<Rightarrow> ('w \<Rightarrow> 'w raw_client option) \<Rightarrow> 'w \<Rightarrow> 'f bench_result ending \<Rightarrow> bool" where
  "bench_native_concurrent_put_unix ratio peer connecting =
     bench_native_concurrent_put ratio peer ''loopback_unix'' connecting"

definition bench_native_short_connection_get_unix ::
  "(usize \<Rightarrow> duration \<Rightarrow> 'f) \<Rightarrow> (nat \<Rightarrow> duration) \<Rightarrow> 'w peer \<Rightarrow> ('w \<Rightarrow> 'w raw_client option) \<Rightarrow> 'w \<Rightarrow>
     ('f bench_result \<times> 'w) bench_run" where
  "bench_native_short_connection_get_unix ratio t peer connecting w =
     and_then (expect (connecting w)) (bench_native_short_connection_get ratio t peer ''loopback_unix'' connecting)"

section \<open>The report\<close>

definition unwords :: "string list \<Rightarrow> string" where
  "unwords ws = concat (map (\<lambda>i. if i = 0 then ws ! i else CHR '' '' # ws ! i) [0..<length ws])"

definition report_header :: string where
  "report_header =
     ''scenario transport iterations p50_ns p95_ns p99_ns throughput_ops_s memory_used_bytes cost_score_total notes''"

text \<open>\<open>fixed\<close> prints a floating point number with two decimals.\<close>

definition report_line :: "('f \<Rightarrow> string) \<Rightarrow> 'f bench_result \<Rightarrow> string" where
  "report_line fixed scenario =
     unwords [br_name scenario, br_transport scenario, show_nat (br_iterations scenario), show_nat (br_p50_ns scenario),
       show_nat (br_p95_ns scenario), show_nat (br_p99_ns scenario), fixed (br_throughput_ops_s scenario),
       show_nat (br_memory_used_bytes scenario), show_nat (br_cost_score_total scenario), br_notes scenario]"

definition report :: "('f \<Rightarrow> string) \<Rightarrow> 'f bench_result list \<Rightarrow> string list" where
  "report fixed scenarios = report_header # map (report_line fixed) scenarios"

text \<open>The scenarios of one raw client in the order in which the program runs them; a panic ends the program.\<close>

fun run_in_order :: "('s \<Rightarrow> ('r \<times> 's) bench_run) list \<Rightarrow> 's \<Rightarrow> ('r list \<times> 's) bench_run" where
  "run_in_order [] s = finished ([], s)"
| "run_in_order (scenario # scenarios) s =
     and_then (scenario s) (\<lambda>(r, s1).
     and_then (run_in_order scenarios s1) (\<lambda>(rs, s2). finished (r # rs, s2)))"

definition native_client_scenarios ::
  "(usize \<Rightarrow> duration \<Rightarrow> 'f) \<Rightarrow> (nat \<Rightarrow> nat \<Rightarrow> duration) \<Rightarrow> 'w peer \<Rightarrow> ('w, 'f) native_scenario list" where
  "native_client_scenarios ratio ts peer =
     [bench_native_single_key_get ratio (ts 0) peer, bench_native_single_key_put ratio (ts 1) peer,
      bench_native_batch_get ratio (ts 2) peer, bench_native_lease_contention ratio (ts 3) peer,
      bench_native_tag_invalidate_empty ratio (ts 4) peer, bench_native_tag_invalidate_8 ratio (ts 5) peer,
      bench_native_tag_invalidation ratio (ts 6) peer, bench_native_ttl_heavy_writes ratio (ts 7) peer,
      bench_native_pipelined_get ratio (ts 8) peer]"

end
