(* ===== verification/Bench_Props.thy ===== *)
theory Bench_Props
  imports Bench
begin

text \<open>
  The numbers of a report are the statistics they are named after, and the scenarios on the engine,
  the sharded cache and the protocol run without a panic: their assertions hold in every turn, and a
  scenario ends with a report when the clock lets it measure at least once.
\<close>

section \<open>Outcomes\<close>

lemma run_simps [simp]:
  "and_then (finished a) f = f a" "and_then panic f = panic" "and_then None f = None"
  "expect (Some a) = finished a" "expect None = panic"
  by (simp_all add: and_then_def finished_def panic_def expect_def)

lemma finished_inject [simp]: "finished a = finished b \<longleftrightarrow> a = b" "finished a \<noteq> panic" "panic \<noteq> finished a"
  by (simp_all add: finished_def panic_def)

section \<open>Percentiles\<close>

text \<open>A value of the samples with at most \<open>p\<close> percent of them below it and more than \<open>p\<close> percent up to it.\<close>

definition is_percentile :: "duration list \<Rightarrow> nat \<Rightarrow> duration \<Rightarrow> bool" where
  "is_percentile samples p v \<longleftrightarrow>
     v \<in> set samples \<and>
     100 * length (filter (\<lambda>x. x < v) samples) \<le> p * length samples \<and>
     p * length samples < 100 * length (filter (\<lambda>x. x \<le> v) samples)"

lemma sorted_counts:
  fixes xs :: "nat list"
  assumes "sorted xs" "i < length xs"
  shows "length (filter (\<lambda>x. x < xs ! i) xs) \<le> i" and "i < length (filter (\<lambda>x. x \<le> xs ! i) xs)"
proof -
  have "{j. j < length xs \<and> xs ! j < xs ! i} \<subseteq> {..<i}"
    using sorted_nth_mono [OF assms(1)] by (auto simp: not_le [symmetric])
  then show "length (filter (\<lambda>x. x < xs ! i) xs) \<le> i"
    using card_mono [of "{..<i}"] by (simp add: length_filter_conv_card)
  have "{..i} \<subseteq> {j. j < length xs \<and> xs ! j \<le> xs ! i}"
    using sorted_nth_mono [OF assms(1)] assms(2) by auto
  then have "card {..i} \<le> card {j. j < length xs \<and> xs ! j \<le> xs ! i}"
    by (rule card_mono [rotated]) simp
  then show "i < length (filter (\<lambda>x. x \<le> xs ! i) xs)"
    by (simp add: length_filter_conv_card)
qed

lemma percentile_index:
  assumes "samples \<noteq> []" "length samples * p < 2 ^ 64" "p < 100"
  shows "percentile_ns samples p = Some (samples ! (length samples * p div 100))"
    and "length samples * p div 100 < length samples"
proof -
  have "length samples * p < length samples * 100"
    using assms(1,3) by simp
  then show less: "length samples * p div 100 < length samples"
    by (simp add: less_mult_imp_div_less)
  then show "percentile_ns samples p = Some (samples ! (length samples * p div 100))"
    using assms(2) by (simp add: percentile_ns_def min_def)
qed

lemma length_filter_sort: "length (filter P (sort xs)) = length (filter P xs)"
  by (metis mset_filter mset_sort size_mset)

lemma percentile_exact:
  assumes "samples \<noteq> []" "length samples * p < 2 ^ 64" "p < 100"
  shows "is_percentile samples p (sort samples ! (length samples * p div 100))"
proof -
  define i where "i = length samples * p div 100"
  have less: "i < length (sort samples)"
    using percentile_index(2) [OF assms] by (simp add: i_def)
  have low: "100 * i \<le> p * length samples" and up: "p * length samples < 100 * Suc i"
    by (simp_all add: i_def mult.commute dividend_less_times_div)
  have "100 * m \<le> p * length samples" if "m \<le> i" for m
    using that low by linarith
  moreover have "p * length samples < 100 * n" if "i < n" for n
    using that up by (meson Suc_leI less_le_trans mult_le_mono2)
  ultimately show ?thesis
    using sorted_counts [OF sorted_sort less, unfolded length_filter_sort] nth_mem [OF less]
    unfolding is_percentile_def set_sort i_def [symmetric] by blast
qed

lemma summarize_Some:
  assumes "samples \<noteq> []" "length samples * 99 < 2 ^ 64"
  shows "summarize ratio name transport label samples elapsed memory =
    Some \<lparr>br_name = name, br_transport = transport, br_iterations = length samples,
      br_p50_ns = sort samples ! (length samples * 50 div 100), br_p95_ns = sort samples ! (length samples * 95 div 100),
      br_p99_ns = sort samples ! (length samples * 99 div 100), br_throughput_ops_s = ratio (length samples) elapsed,
      br_memory_used_bytes = memory, br_cost_score_total = 0, br_notes = label\<rparr>"
proof -
  have "sort samples \<noteq> []"
    using assms(1) by (metis set_empty set_sort)
  then have "percentile_ns (sort samples) p = Some (sort samples ! (length samples * p div 100))" if "p \<le> 99" for p
    using percentile_index(1) [of "sort samples" p] assms(2) that
      order.strict_trans1 [OF mult_le_mono2 [OF that, of "length samples"]] by simp
  then show ?thesis
    by (simp add: summarize_def Let_def)
qed

lemma summarize_Nil: "summarize ratio name transport label [] elapsed memory = None"
  by (simp add: summarize_def percentile_ns_def)

lemma percentiles_ordered:
  fixes samples :: "duration list"
  assumes "samples \<noteq> []" "length samples * q < 2 ^ 64" "p \<le> q" "q < 100"
  shows "sort samples ! (length samples * p div 100) \<le> sort samples ! (length samples * q div 100)"
  using percentile_index(2) [OF assms(1,2,4)] assms(3)
  by (intro sorted_nth_mono) (simp_all add: div_le_mono)

text \<open>C35. The percentiles of a report are order statistics: for a run with at least one sample, each is a
  measured time with at most that share of the samples below it and more than that share up to it,
  they are ordered, the report counts every sample, and it does not depend on the order in which
  the samples were taken. A run without samples panics instead.\<close>

theorem report_percentiles_exact:
  assumes "length samples * 99 < 2 ^ 64"
  shows "case summarize ratio name transport label samples elapsed memory of
      None \<Rightarrow> samples = []
    | Some r \<Rightarrow>
        is_percentile samples 50 (br_p50_ns r) \<and> is_percentile samples 95 (br_p95_ns r) \<and>
        is_percentile samples 99 (br_p99_ns r) \<and> br_p50_ns r \<le> br_p95_ns r \<and> br_p95_ns r \<le> br_p99_ns r \<and>
        br_iterations r = length samples \<and>
        (\<forall>samples'. mset samples' = mset samples \<longrightarrow>
           summarize ratio name transport label samples' elapsed memory = Some r)"
proof (cases "samples = []")
  case False
  have same: "summarize ratio name transport label samples' elapsed memory =
      summarize ratio name transport label samples elapsed memory" if "mset samples' = mset samples" for samples'
  proof -
    have "sort samples' = sort samples"
      using that by (intro properties_for_sort) (simp_all add: that)
    then show ?thesis
      by (simp add: summarize_def)
  qed
  have "length samples * 95 < 2 ^ 64" "length samples * 50 < 2 ^ 64"
    using assms by simp_all
  then show ?thesis
    using percentile_exact [OF False, of 50] percentile_exact [OF False, of 95] percentile_exact [OF False, of 99]
      percentiles_ordered [OF False, of 95 50] percentiles_ordered [OF False, of 99 95] assms
      same summarize_Some [OF False assms, of ratio name transport label elapsed memory] by simp
qed (simp add: summarize_Nil)

theorem report_percentiles_exact_witness:
  "case summarize (\<lambda>n d. n) ''s'' ''engine'' ''n'' [5, 3, 9, 7] 24 0 of
     None \<Rightarrow> False
   | Some r \<Rightarrow> is_percentile [5, 3, 9, 7] 50 (br_p50_ns r) \<and> br_p50_ns r = 7 \<and> br_p99_ns r = 9"
proof -
  have "summarize (\<lambda>n d. n) ''s'' ''engine'' ''n'' [5, 3, 9, 7] 24 0 \<noteq> None"
    by (simp add: summarize_Some)
  moreover have "sort [5, 3, 9, 7 :: nat] = [3, 5, 7, 9]"
    by simp
  ultimately show ?thesis
    using report_percentiles_exact [of "[5, 3, 9, 7]" "\<lambda>n d. n" "''s''" "''engine''" "''n''" 24 0]
    by (simp add: summarize_Some)
qed

section \<open>Measuring\<close>

text \<open>The readings of the clock let a loop turn \<open>n\<close> times.\<close>

definition turns :: "(nat \<Rightarrow> duration) \<Rightarrow> nat \<Rightarrow> bool" where
  "turns t n \<longleftrightarrow> (\<forall>j<n. t (3 * j + 1) - t 0 < MEASURE_DURATION) \<and> MEASURE_DURATION \<le> t (3 * n + 1) - t 0"

text \<open>A clock that goes on for a second lets the loop turn some number of times.\<close>

lemma turns_exist:
  assumes "mono t" "MEASURE_DURATION \<le> t k - t 0"
  shows "\<exists>n. turns t n"
proof -
  have "t k \<le> t (3 * k + 1)"
    by (rule monoD [OF assms(1)]) simp
  then have "\<exists>k. MEASURE_DURATION \<le> t (3 * k + 1) - t 0"
    using assms(2) by (intro exI [of _ k]) linarith
  from exists_least_iff [THEN iffD1, OF this] show ?thesis
    by (auto simp: turns_def not_le)
qed

definition samples_of :: "(nat \<Rightarrow> duration) \<Rightarrow> nat \<Rightarrow> duration list" where
  "samples_of t n = map (\<lambda>j. t (3 * j + 3) - t (3 * j + 2)) [0..<n]"

lemma length_samples_of [simp]: "length (samples_of t n) = n"
  by (simp add: samples_of_def)

text \<open>An operation that never panics in the states of a scenario, which it does not leave.\<close>

locale steady =
  fixes pre operation :: "'s operation" and ready :: "'s \<Rightarrow> bool"
  assumes keeps: "ready s \<Longrightarrow> \<exists>s1. pre s \<bind> operation = Some s1 \<and> ready s1"
begin

lemma repeat_keeps: "ready s \<Longrightarrow> \<exists>s1. repeat n (\<lambda>s. pre s \<bind> operation) s = Some s1 \<and> ready s1"
proof (induction n arbitrary: s)
  case (Suc n)
  then show ?case
    using keeps [OF Suc.prems] by (auto simp del: Option.bind_assoc)
qed simp

lemma loop_keeps:
  assumes "ready s" "\<forall>j<n. t (k + 3 * j) - started < MEASURE_DURATION" "MEASURE_DURATION \<le> t (k + 3 * n) - started"
  shows "\<exists>s1. ready s1 \<and> measure_loop pre operation spread t started k samples s =
    finished (samples @ concat (map (\<lambda>j. spread (t (k + 3 * j + 2) - t (k + 3 * j + 1))) [0..<n]), k + 3 * n + 1, s1)"
  using assms
proof (induction n arbitrary: k samples s)
  case 0
  then show ?case
    by (subst measure_loop.simps) simp
next
  case (Suc n)
  obtain s1 where s1: "pre s \<bind> operation = Some s1" "ready s1"
    using keeps [OF Suc.prems(1)] by blast
  have later: "\<forall>j<n. t (k + 3 + 3 * j) - started < MEASURE_DURATION" "MEASURE_DURATION \<le> t (k + 3 + 3 * n) - started"
    using Suc.prems(2,3) by (auto simp: add.assoc All_less_Suc2)
  have shift: "[0..<Suc n] = 0 # map Suc [0..<n]"
    by (metis map_Suc_upt upt_conv_Cons zero_less_Suc)
  from Suc.IH [OF s1(2) later, of "samples @ spread (t (k + 2) - t (k + 1))"] show ?case
    using Suc.prems(2) s1(1)
    by (subst measure_loop.simps)
      (auto simp: shift comp_def add.assoc simp del: upt_Suc dest!: spec [of _ 0])
qed

lemma measured:
  assumes "ready s" "turns t n"
  shows "\<exists>s1. ready s1 \<and> measure_loop pre operation (\<lambda>d. [d]) t (t 0) 1 [] s =
    finished (samples_of t n, 3 * n + 2, s1)"
  using loop_keeps [OF assms(1), of n t 1 "t 0" "\<lambda>d. [d]" "[]"] assms(2)
  by (auto simp: turns_def samples_of_def algebra_simps numeral_3_eq_3)

end

lemma with_memory_summarize:
  "map_option (\<lambda>r. with_memory r mem) (summarize ratio name transport label samples elapsed 0) =
     summarize ratio name transport label samples elapsed mem"
  by (simp add: summarize_def with_memory_def Let_def option.map_comp comp_def split: Option.bind_splits)

lemma total_duration_sum:
  assumes "sum_list samples < 2 ^ 64 * 1000000000"
  shows "total_duration samples = Some (sum_list samples)"
proof -
  have "foldl duration_add (Some a) samples = Some (a + sum_list samples)"
    if "a + sum_list samples < 2 ^ 64 * 1000000000" for a
    using that by (induction samples arbitrary: a) (auto simp: duration_add_def add.assoc)
  then show ?thesis
    using assms by (simp add: total_duration_def)
qed

lemma samples_within:
  assumes "mono t"
  shows "sum_list (samples_of t n) \<le> t (3 * n + 1) - t 0"
proof (induction n)
  case (Suc n)
  have "t 0 \<le> t (3 * n + 1)" "t (3 * n + 1) \<le> t (3 * n + 2)" "t (3 * n + 2) \<le> t (3 * n + 3)"
    "t (3 * n + 3) \<le> t (3 * Suc n + 1)"
    by (intro monoD [OF assms]; simp)+
  then show ?case
    using Suc by (simp add: samples_of_def)
qed (simp add: samples_of_def)

text \<open>What a scenario of such an operation reports after \<open>n\<close> turns.\<close>

context steady
begin

lemma part_reported:
  assumes "ready s" "turns t n" "mono t" "t (3 * n + 1) < 2 ^ 64 * 1000000000"
  shows "\<exists>s1. ready s1 \<and> measure_part ratio name transport label pre operation t s =
    and_then (expect (summarize ratio name transport label (samples_of t n) (sum_list (samples_of t n)) 0))
      (\<lambda>r. finished (r, s1))"
proof -
  obtain s1 where "ready s1"
    "measure_loop pre operation (\<lambda>d. [d]) t (t 0) 1 [] s = finished (samples_of t n, 3 * n + 2, s1)"
    using measured [OF assms(1,2)] by blast
  moreover have "total_duration (samples_of t n) = Some (sum_list (samples_of t n))"
    using samples_within [OF assms(3), of n] assms(4) by (intro total_duration_sum) linarith
  ultimately show ?thesis
    by (intro exI [of _ s1]) (simp add: measure_part_def)
qed

end

locale steady_operation = steady Some operation ready
  for operation :: "'s operation" and ready :: "'s \<Rightarrow> bool"
begin

lemma warmup_keeps: "ready s \<Longrightarrow> \<exists>s1. warmup_sync operation s = Some s1 \<and> ready s1"
  using repeat_keeps [of s WARMUP_ITERS] by (simp add: warmup_sync_def)

lemma reported:
  assumes "ready s" "turns t n"
  shows "\<exists>s1. ready s1 \<and> measure_from ratio name transport label (\<lambda>d. [d]) operation t s =
    and_then (expect (summarize ratio name transport label (samples_of t n) (t (3 * n + 2) - t 0) 0))
      (\<lambda>r. finished (r, s1))"
  using measured [OF assms] by (auto simp: measure_from_def)

end

section \<open>Scenarios on an engine\<close>

text \<open>An entry that is fresh in every environment of the run.\<close>

definition fresh_entry :: "(nat \<Rightarrow> env) \<Rightarrow> bytes \<Rightarrow> engine \<Rightarrow> bool" where
  "fresh_entry envs key e \<longleftrightarrow>
     (\<exists>en. map_of (entries e) (EntryId ''bench'' key) = Some en \<and> en_value en = string_bytes ''value'' \<and>
        (\<forall>k. entry_state_at en (clk (envs k) 0) = StFresh))"

definition get_ready :: "(nat \<Rightarrow> env) \<Rightarrow> bytes \<Rightarrow> engine_bench \<Rightarrow> bool" where
  "get_ready envs key s \<longleftrightarrow>
     engine_inv (eb_engine s) \<and> limits (eb_engine s) = engine_limits_default \<and> fresh_entry envs key (eb_engine s)"

lemma fresh_access: "entry_state_at (en\<lparr>en_last_access := n\<rparr>) now = entry_state_at en now"
  by (cases "en_expires_at_ms en") (simp_all add: entry_state_at_def)

lemma fresh_read:
  assumes "fresh_entry envs key e"
  shows "fst (get_ref_inner (envs k) ''bench'' key upd f e) = f (RefHit (string_bytes ''value''))"
    and "fresh_entry envs key (snd (get_ref_inner (envs k) ''bench'' key upd f e))"
  using assms
  by (auto simp: fresh_entry_def get_ref_inner_unfold engine_entry_state_def touch_entries fresh_access)

lemma encode_hit_value: "\<exists>bs. encode_hit (RefHit (string_bytes ''value'')) = Some bs"
  by (simp add: encode_hit_def encode_response_payload_view_frame_def encode_frame_into_eq)

interpretation eget: steady_operation "engine_get_op envs" "get_ready envs (string_bytes ''get-key'')"
proof
  fix s assume "get_ready envs (string_bytes ''get-key'') s"
  then show "\<exists>s1. Some s \<bind> engine_get_op envs = Some s1 \<and> get_ready envs (string_bytes ''get-key'') s1"
    by (auto simp: engine_get_op_def get_ready_def on_bench_engine_def case_prod_beta fresh_read
        engine_get_def get_ref_def get_ref_inner_inv)
qed

interpretation eref: steady_operation "get_ref_encode_op envs" "get_ready envs (string_bytes ''get-ref-encode'')"
proof
  fix s assume "get_ready envs (string_bytes ''get-ref-encode'') s"
  then show "\<exists>s1. Some s \<bind> get_ref_encode_op envs = Some s1 \<and> get_ready envs (string_bytes ''get-ref-encode'') s1"
    using encode_hit_value
    by (auto simp: get_ref_encode_op_def get_ready_def on_bench_engine_def case_prod_beta fresh_read
        get_ref_def get_ref_inner_inv)
qed

text \<open>The keys of the scenarios are short, so that their entries are accepted.\<close>

lemma length_index: "n < 2 ^ 64 \<Longrightarrow> length (show_nat n) \<le> 20"
  by (rule length_show_nat) simp_all

lemma usize_succ_less: "usize_succ n < 2 ^ 64"
  by (simp add: usize_succ_def)

definition small_put :: "put_command \<Rightarrow> bool" where
  "small_put cmd \<longleftrightarrow> length (pc_value cmd) \<le> 100 \<and> put_bytes cmd \<le> 300"

lemma put_command_fields [simp]:
  "pc_namespace (put_command_of ns key v) = ns" "pc_key (put_command_of ns key v) = key"
  "pc_value (put_command_of ns key v) = v" "pc_tags (put_command_of ns key v) = []"
  "pc_ttl (put_command_of ns key v) = Some (Ttl 60000)" "pc_stale_ttl (put_command_of ns key v) = None"
  by (simp_all add: put_command_of_def)

lemma small_put_command:
  "length key \<le> 60 \<Longrightarrow> sum_list (map length tags) \<le> 40 \<Longrightarrow>
     small_put ((put_command_of ''bench'' key (string_bytes ''value''))\<lparr>pc_tags := tags\<rparr>)"
  by (simp add: small_put_def put_bytes_def put_id_def estimate_entry_memory_def ENTRY_OVERHEAD_BYTES_def
      usize_saturating_add_def)

definition put_ready :: "(nat \<Rightarrow> env) \<Rightarrow> engine_bench \<Rightarrow> bool" where
  "put_ready envs s \<longleftrightarrow>
     engine_inv (eb_engine s) \<and> limits (eb_engine s) = engine_limits_default \<and> eb_index s < 2 ^ 64 \<and>
     (\<forall>k. env_ok (envs k))"

lemma put_ready_new: "(\<forall>k. env_ok (envs k)) \<Longrightarrow> put_ready envs engine_bench_new"
proof -
  have "engine_inv engine_new"
    unfolding engine_new_def by (rule engine_with_limits_inv) (simp add: engine_limits_default_def usize_max_def)
  moreover have "limits engine_new = engine_limits_default"
    by (simp add: engine_new_def engine_with_limits_def)
  ultimately show "(\<forall>k. env_ok (envs k)) \<Longrightarrow> put_ready envs engine_bench_new"
    by (simp add: put_ready_def engine_bench_new_def)
qed

lemma bench_put_ok:
  assumes "put_ready envs s" "small_put cmd"
  shows "\<exists>ok. fst (engine_put (envs (eb_calls s)) cmd (eb_engine s)) = Inr ok"
    and "bench_put envs cmd s =
      Some (s\<lparr>eb_engine := snd (engine_put (envs (eb_calls s)) cmd (eb_engine s)), eb_calls := eb_calls s + 1\<rparr>)"
    and "put_ready envs (s\<lparr>eb_engine := snd (engine_put (envs (eb_calls s)) cmd (eb_engine s)), eb_calls := eb_calls s + 1\<rparr>)"
proof -
  show accepted: "\<exists>ok. fst (engine_put (envs (eb_calls s)) cmd (eb_engine s)) = Inr ok"
    using assms by (simp add: put_ready_def small_put_def put_cases) (simp add: engine_limits_default_def)
  then show "bench_put envs cmd s =
      Some (s\<lparr>eb_engine := snd (engine_put (envs (eb_calls s)) cmd (eb_engine s)), eb_calls := eb_calls s + 1\<rparr>)"
    by (auto simp: bench_put_def on_bench_engine_def case_prod_beta)
  show "put_ready envs (s\<lparr>eb_engine := snd (engine_put (envs (eb_calls s)) cmd (eb_engine s)), eb_calls := eb_calls s + 1\<rparr>)"
    using assms(1) by (simp add: put_ready_def engine_put_inv)
qed

lemma no_tags: "put_command_of ns key v = (put_command_of ns key v)\<lparr>pc_tags := []\<rparr>"
  by (simp add: put_command_of_def)

lemma engine_put_op_keeps:
  assumes "put_ready envs s" "length prefix \<le> 40"
  shows "\<exists>s1. engine_put_op envs prefix s = Some s1 \<and> put_ready envs s1"
proof -
  have "length (show_nat (eb_index s)) \<le> 20"
    using assms(1) by (simp add: put_ready_def length_index)
  then have "small_put (put_command_of ''bench'' (string_bytes (prefix @ show_nat (eb_index s))) (string_bytes ''value''))"
    using assms(2) by (subst no_tags, intro small_put_command) simp_all
  moreover have "put_ready envs (s\<lparr>eb_index := usize_succ (eb_index s)\<rparr>)"
    using assms(1) usize_succ_less by (simp add: put_ready_def)
  ultimately show ?thesis
    using bench_put_ok(2,3) unfolding engine_put_op_def by blast
qed

interpretation eput: steady_operation "engine_put_op envs ''put-''" "put_ready envs"
  by unfold_locales (simp add: engine_put_op_keeps)

interpretation ewarm: steady_operation "engine_put_op envs ''put-warmup-''" "put_ready envs"
  by unfold_locales (simp add: engine_put_op_keeps)

text \<open>Eight tagged entries in an engine that was empty, and none after the invalidation.\<close>

definition tagged_id :: "usize \<Rightarrow> nat \<Rightarrow> entry_id" where
  "tagged_id index item = EntryId ''bench'' (string_bytes (''tag-'' @ show_nat index @ ''-'' @ show_nat item))"

definition tag_ready :: "(nat \<Rightarrow> env) \<Rightarrow> engine_bench \<Rightarrow> bool" where
  "tag_ready envs s \<longleftrightarrow> put_ready envs s \<and> entries (eb_engine s) = []"

definition tagged_upto :: "usize \<Rightarrow> nat \<Rightarrow> engine \<Rightarrow> bool" where
  "tagged_upto index n e \<longleftrightarrow>
     (\<forall>eid. map_of (entries e) eid \<noteq> None \<longleftrightarrow> eid \<in> tagged_id index ` {..<n}) \<and>
     (\<forall>eid. has_tag e eid (TagId ''bench'' (''tag-'' @ show_nat index)) \<longleftrightarrow> eid \<in> tagged_id index ` {..<n}) \<and>
     memory_used_bytes e \<le> 300 * n"

lemma string_bytes_inj: "string_bytes a = string_bytes b \<longleftrightarrow> a = b"
  by (metis bytes_string_string_bytes)

lemma tagged_id_inj: "tagged_id index i = tagged_id index j \<longleftrightarrow> i = j"
  using show_nat_inj [of i j] by (auto simp: tagged_id_def string_bytes_inj)

lemma tagged_put_step:
  assumes "put_ready envs s" "tagged_upto index n (eb_engine s)" "index < 2 ^ 64" "n < 8"
  shows "\<exists>s1. tagged_put envs index n s = Some s1 \<and> put_ready envs s1 \<and> tagged_upto index (Suc n) (eb_engine s1) \<and>
    eb_index s1 = eb_index s"
proof -
  define cmd where "cmd = (put_command_of ''bench'' (string_bytes (''tag-'' @ show_nat index @ ''-'' @ show_nat n))
    (string_bytes ''value''))\<lparr>pc_tags := [''tag-'' @ show_nat index]\<rparr>"
  have small: "small_put cmd"
    unfolding cmd_def using length_index [OF assms(3)] length_show_nat [of 1 n] assms(4)
    by (intro small_put_command) simp_all
  note put = bench_put_ok [OF assms(1) small]
  let ?e = "eb_engine s" and ?env = "envs (eb_calls s)"
  have id: "put_id cmd = tagged_id index n"
    and fields: "pc_namespace cmd = ''bench''" "pc_tags cmd = [''tag-'' @ show_nat index]"
    by (simp_all add: cmd_def put_id_def tagged_id_def)
  have "tagged_id index n \<notin> tagged_id index ` {..<n}"
    by (simp add: image_iff tagged_id_inj)
  then have none: "map_of (entries ?e) (put_id cmd) = None"
    using assms(2) unfolding tagged_upto_def id by blast
  have "memory_used_bytes ?e + put_bytes cmd \<le> max_memory_bytes (limits ?e)"
    using assms(1,2,4) small by (simp add: tagged_upto_def put_ready_def small_put_def engine_limits_default_def)
  then have "put_prepare ?env cmd ?e = (0, ?e)"
    using none by (subst put_prepare_room) (simp_all add: remove_entry_None)
  then have e1: "snd (engine_put ?env cmd ?e) = put_store (clk ?env 0) (put_bytes cmd) cmd ?e"
    using put(1) put_accepted(1) assms(1) by (fastforce simp: put_ready_def)
  have "tagged_upto index (Suc n) (put_store (clk ?env 0) (put_bytes cmd) cmd ?e)"
    using assms(2) small unfolding tagged_upto_def lessThan_Suc
    by (simp add: has_tag_put_store [OF none] put_store_fields alist id tag_ids_def fields small_put_def
        usize_saturating_add_def) auto
  then show ?thesis
    using put(2,3) unfolding tagged_put_def cmd_def [symmetric] by (simp add: e1)
qed

lemma tagged_puts:
  assumes "put_ready envs s" "tagged_upto index n (eb_engine s)" "index < 2 ^ 64" "n \<le> m" "m \<le> 8"
  shows "\<exists>s1. for_each (tagged_put envs index) [n..<m] s = Some s1 \<and> put_ready envs s1 \<and>
    tagged_upto index m (eb_engine s1) \<and> eb_index s1 = eb_index s"
  using assms
proof (induction "m - n" arbitrary: n s)
  case (Suc d)
  have "n < 8"
    using Suc.hyps(2) Suc.prems(5) by linarith
  from tagged_put_step [OF Suc.prems(1-3) this] obtain s1 where s1: "tagged_put envs index n s = Some s1"
    "put_ready envs s1" "tagged_upto index (Suc n) (eb_engine s1)" "eb_index s1 = eb_index s"
    by blast
  have "[n..<m] = n # [Suc n..<m]"
    using Suc.hyps(2) by (simp add: upt_conv_Cons)
  then show ?case
    using Suc.hyps(1) [OF _ s1(2,3) Suc.prems(3)] Suc.hyps(2) Suc.prems(5) s1(1,4) by auto
qed auto

lemma empty_tagged: "entries e = [] \<Longrightarrow> memory_used_bytes e = 0 \<Longrightarrow> tagged_upto index 0 e"
  by (simp add: tagged_upto_def has_tag_def)

lemma empty_memory: "engine_inv e \<Longrightarrow> entries e = [] \<Longrightarrow> memory_used_bytes e = 0"
  by (simp add: engine_inv_upto_def memory_inv_def memory_total_def)

lemma invalidate_limits: "limits (snd (engine_invalidate_tag env ns tag e)) = limits e"
  using engine_step_limits [of "OpInvalidateTag env ns tag" e] by (simp add: engine_step_def)

lemma invalidate_keeps:
  assumes "put_ready envs s" "tagged_upto index 8 (eb_engine s)" "eb_tag s = ''tag-'' @ show_nat index"
  shows "\<exists>s1. engine_invalidate_op envs s = Some s1 \<and> tag_ready envs s1"
proof -
  let ?e = "eb_engine s" and ?env = "envs (eb_calls s)" and ?t = "TagId ''bench'' (eb_tag s)"
  have inv: "engine_inv ?e" "env_ok ?env"
    using assms(1) by (simp_all add: put_ready_def)
  have tags: "{eid. has_tag ?e eid ?t} = tagged_id index ` {..<8}"
    using assms(2) by (auto simp: tagged_upto_def assms(3))
  have "card (tagged_id index ` {..<8}) = 8"
    by (subst card_image) (auto simp: inj_on_def tagged_id_inj)
  then have count: "fst (engine_invalidate_tag ?env ''bench'' (eb_tag s) ?e) = 8"
    by (simp add: invalidate_tag_count [OF inv] tags)
  have "map_of (entries (snd (engine_invalidate_tag ?env ''bench'' (eb_tag s) ?e))) eid = None" for eid
    using assms(2) unfolding tagged_upto_def invalidate_tag_entries [OF inv] assms(3) by (metis (full_types))
  then have "entries (snd (engine_invalidate_tag ?env ''bench'' (eb_tag s) ?e)) = []"
    by (simp add: fun_eq_iff flip: map_of_eq_empty_iff)
  then show ?thesis
    using assms(1) count engine_invalidate_tag_inv [OF inv]
    by (simp add: engine_invalidate_op_def on_bench_engine_def case_prod_beta tag_ready_def put_ready_def
        invalidate_limits)
qed

interpretation etag: steady "engine_put_tagged_values envs" "engine_invalidate_op envs" "tag_ready envs"
proof
  fix s assume ready: "tag_ready envs s"
  then have "put_ready envs s" "tagged_upto (eb_index s) 0 (eb_engine s)" "eb_index s < 2 ^ 64"
    by (auto simp: tag_ready_def put_ready_def empty_memory intro!: empty_tagged)
  from tagged_puts [OF this le0 order_refl] obtain s1 where s1: "for_each (tagged_put envs (eb_index s)) [0..<8] s = Some s1"
    "put_ready envs s1" "tagged_upto (eb_index s) 8 (eb_engine s1)"
    by blast
  let ?s2 = "s1\<lparr>eb_tag := ''tag-'' @ show_nat (eb_index s), eb_index := usize_succ (eb_index s)\<rparr>"
  have "put_ready envs ?s2"
    using s1(2) usize_succ_less by (simp add: put_ready_def)
  from invalidate_keeps [OF this, of "eb_index s"]
  show "\<exists>s1. engine_put_tagged_values envs s \<bind> engine_invalidate_op envs = Some s1 \<and> tag_ready envs s1"
    using s1(1,3) unfolding engine_put_tagged_values_def by (simp del: upt_Suc upt_rec_numeral)
qed

text \<open>The time in which the entry of a scenario is fresh.\<close>

definition within_a_minute :: "(nat \<Rightarrow> env) \<Rightarrow> bool" where
  "within_a_minute envs \<longleftrightarrow> (\<forall>k. clk (envs k) 0 \<le> u64_saturating_add (clk (envs 0) 0) 60000)"

lemma stored_is_fresh:
  assumes "within_a_minute envs" "fst (engine_put (envs 0) (put_command_of ''bench'' key (string_bytes ''value'')) e) = Inr ok"
    and "engine_inv e" "env_ok (envs 0)"
  shows "fresh_entry envs key (snd (engine_put (envs 0) (put_command_of ''bench'' key (string_bytes ''value'')) e))"
proof -
  let ?cmd = "put_command_of ''bench'' key (string_bytes ''value'')"
  obtain access where "map_of (entries (snd (engine_put (envs 0) ?cmd e))) (EntryId ''bench'' key) =
      Some (stored_entry (clk (envs 0) 0) (put_bytes ?cmd) ?cmd access)"
    using put_accepted_entry [OF assms(3,4,2)] by (auto simp: put_id_def)
  then show ?thesis
    using assms(1) by (simp add: fresh_entry_def stored_entry_def entry_state_at_def expires_at_of_def within_a_minute_def)
qed

lemma get_ready_put:
  assumes "\<forall>k. env_ok (envs k)" "within_a_minute envs" "length key \<le> 60"
  shows "\<exists>s1. bench_put envs (put_command_of ''bench'' key (string_bytes ''value'')) engine_bench_new = Some s1 \<and>
    get_ready envs key s1"
proof -
  have small: "small_put (put_command_of ''bench'' key (string_bytes ''value''))"
    using assms(3) by (subst no_tags, intro small_put_command) simp_all
  note put = bench_put_ok [OF put_ready_new [OF assms(1)] small]
  have new: "eb_calls engine_bench_new = 0" "eb_engine engine_bench_new = engine_new" "engine_inv engine_new"
    using put_ready_new [OF assms(1)] by (simp_all add: engine_bench_new_def put_ready_def)
  then show ?thesis
    using put stored_is_fresh [OF assms(2) _ new(3)] assms(1) by (auto simp: put_ready_def get_ready_def)
qed

text \<open>The report of a scenario carries the memory of the engine at its end.\<close>

lemma engine_scenario_reports:
  assumes "start engine_bench_new = Some s0" "warmup_sync operation s0 = Some s1"
    and "sampled s1 = and_then (expect (summarize ratio name transport label samples elapsed 0)) (\<lambda>r. finished (r, s2))"
  shows "engine_scenario start operation sampled =
    expect (summarize ratio name transport label samples elapsed (memory_used_bytes (eb_engine s2)))"
  using assms unfolding with_memory_summarize [of "memory_used_bytes (eb_engine s2)", symmetric]
  by (cases "summarize ratio name transport label samples elapsed 0") (auto simp: engine_scenario_def)

lemma default_memory:
  "engine_inv e \<Longrightarrow> limits e = engine_limits_default \<Longrightarrow> memory_used_bytes e \<le> 64 * 1024 * 1024"
  by (auto simp: engine_inv_upto_def memory_inv_def engine_limits_default_def)

lemma steady_engine_scenario:
  assumes "steady_operation warm ready" "steady_operation operation ready" "start engine_bench_new = Some s0" "ready s0"
    and "turns t n" "\<And>s. ready s \<Longrightarrow> engine_inv (eb_engine s) \<and> limits (eb_engine s) = engine_limits_default"
  shows "\<exists>mem\<le>64 * 1024 * 1024.
    engine_scenario start warm (measure_from ratio name transport label (\<lambda>d. [d]) operation t) =
      expect (summarize ratio name transport label (samples_of t n) (t (3 * n + 2) - t 0) mem)"
proof -
  obtain s1 where s1: "warmup_sync warm s0 = Some s1" "ready s1"
    using steady_operation.warmup_keeps [OF assms(1,4)] by blast
  from steady_operation.reported [OF assms(2) this(2) assms(5), of ratio name transport label] obtain s2
    where s2: "ready s2" "measure_from ratio name transport label (\<lambda>d. [d]) operation t s1 =
      and_then (expect (summarize ratio name transport label (samples_of t n) (t (3 * n + 2) - t 0) 0))
        (\<lambda>r. finished (r, s2))"
    by blast
  have "engine_scenario start warm (measure_from ratio name transport label (\<lambda>d. [d]) operation t) =
      expect (summarize ratio name transport label (samples_of t n) (t (3 * n + 2) - t 0)
        (memory_used_bytes (eb_engine s2)))"
    by (rule engine_scenario_reports) (rule assms(3) s1(1) s2(2))+
  then show ?thesis
    using default_memory assms(6) s2(1) by blast
qed

lemma engine_get_reports:
  assumes "\<forall>k. env_ok (envs k)" "within_a_minute envs" "turns t n"
  shows "\<exists>mem\<le>64 * 1024 * 1024. bench_engine_get ratio t envs =
      expect (summarize ratio ''engine_get'' ''engine'' ''engine_cached_hit'' (samples_of t n) (t (3 * n + 2) - t 0) mem)"
proof -
  obtain s0 where "bench_put envs (put_command_of ''bench'' (string_bytes ''get-key'') (string_bytes ''value''))
      engine_bench_new = Some s0" "get_ready envs (string_bytes ''get-key'') s0"
    using get_ready_put [OF assms(1,2), of "string_bytes ''get-key''"] by auto
  then show ?thesis
    unfolding bench_engine_get_def measure_sync_def
    by (intro steady_engine_scenario [OF eget.steady_operation_axioms eget.steady_operation_axioms _ _ assms(3)])
      (auto simp: get_ready_def)
qed

lemma engine_put_reports:
  assumes "\<forall>k. env_ok (envs k)" "turns t n"
  shows "\<exists>mem\<le>64 * 1024 * 1024. bench_engine_put ratio t envs =
      expect (summarize ratio ''engine_put'' ''engine'' ''engine_unique_keys'' (samples_of t n) (t (3 * n + 2) - t 0) mem)"
  unfolding bench_engine_put_def measure_sync_def
  by (intro steady_engine_scenario [where start = Some, OF ewarm.steady_operation_axioms eput.steady_operation_axioms refl
        put_ready_new [OF assms(1)] assms(2)]) (simp add: put_ready_def)

lemma engine_get_ref_reports:
  assumes "\<forall>k. env_ok (envs k)" "within_a_minute envs" "turns t n"
  shows "\<exists>mem\<le>64 * 1024 * 1024. bench_engine_get_ref_encode ratio t envs =
      expect (summarize ratio ''engine_get_ref_encode'' ''process'' ''engine_get_ref_plus_borrowed_encode''
        (samples_of t n) (t (3 * n + 2) - t 0) mem)"
proof -
  obtain s0 where "bench_put envs (put_command_of ''bench'' (string_bytes ''get-ref-encode'') (string_bytes ''value''))
      engine_bench_new = Some s0" "get_ready envs (string_bytes ''get-ref-encode'') s0"
    using get_ready_put [OF assms(1,2), of "string_bytes ''get-ref-encode''"] by auto
  then show ?thesis
    unfolding bench_engine_get_ref_encode_def measure_process_sync_def
    by (intro steady_engine_scenario [OF eref.steady_operation_axioms eref.steady_operation_axioms _ _ assms(3)])
      (auto simp: get_ready_def)
qed

lemma engine_tag_reports:
  assumes "\<forall>k. env_ok (envs k)" "turns t n" "mono t" "t (3 * n + 1) < 2 ^ 64 * 1000000000"
  shows "bench_engine_tag_invalidate_8 ratio t envs =
      expect (summarize ratio ''engine_tag_invalidate_8'' ''engine'' ''remove_8_tagged_keys'' (samples_of t n)
        (sum_list (samples_of t n)) 0)"
proof -
  have "tag_ready envs engine_bench_new"
    using put_ready_new [OF assms(1)]
    by (simp add: tag_ready_def engine_bench_new_def engine_new_def engine_with_limits_def)
  from etag.repeat_keeps [OF this, of WARMUP_ITERS] obtain s1
    where s1: "warmup_sync (\<lambda>s. engine_put_tagged_values envs s \<bind> engine_invalidate_op envs) engine_bench_new = Some s1"
      "tag_ready envs s1"
    by (auto simp: warmup_sync_def)
  from etag.part_reported [OF s1(2) assms(2-4), of ratio "''engine_tag_invalidate_8''" "''engine''"
      "''remove_8_tagged_keys''"] obtain s2 where s2: "tag_ready envs s2"
    "measure_part ratio ''engine_tag_invalidate_8'' ''engine'' ''remove_8_tagged_keys'' (engine_put_tagged_values envs)
        (engine_invalidate_op envs) t s1 =
      and_then (expect (summarize ratio ''engine_tag_invalidate_8'' ''engine'' ''remove_8_tagged_keys'' (samples_of t n)
        (sum_list (samples_of t n)) 0)) (\<lambda>r. finished (r, s2))"
    by blast
  have "bench_engine_tag_invalidate_8 ratio t envs =
      expect (summarize ratio ''engine_tag_invalidate_8'' ''engine'' ''remove_8_tagged_keys'' (samples_of t n)
        (sum_list (samples_of t n)) (memory_used_bytes (eb_engine s2)))"
    unfolding bench_engine_tag_invalidate_8_def
    by (rule engine_scenario_reports) (rule refl s1(1) s2(2))+
  then show ?thesis
    using empty_memory s2(1) by (simp add: tag_ready_def put_ready_def)
qed

text \<open>C33. The scenarios on the engine never panic at one of their assertions: in every run within a minute, for
  every iteration order of the maps, the benchmark of \<open>get\<close>, of \<open>put\<close> under ever new keys, of the invalidation of
  eight tagged entries and of the borrowed read report exactly one sample per turn of the measuring
  loop, with the memory of an engine that kept its limit, which is none after invalidations. When
  the clock leaves no turn, the report panics on the missing samples.\<close>

theorem engine_scenarios_report:
  assumes "\<forall>k. env_ok (envs k)" "within_a_minute envs"
    and "turns t n" "mono t" "t (3 * n + 1) < 2 ^ 64 * 1000000000"
  shows "(\<exists>mem\<le>64 * 1024 * 1024. bench_engine_get ratio t envs =
      expect (summarize ratio ''engine_get'' ''engine'' ''engine_cached_hit'' (samples_of t n) (t (3 * n + 2) - t 0) mem)) \<and>
    (\<exists>mem\<le>64 * 1024 * 1024. bench_engine_put ratio t envs =
      expect (summarize ratio ''engine_put'' ''engine'' ''engine_unique_keys'' (samples_of t n) (t (3 * n + 2) - t 0) mem)) \<and>
    bench_engine_tag_invalidate_8 ratio t envs =
      expect (summarize ratio ''engine_tag_invalidate_8'' ''engine'' ''remove_8_tagged_keys'' (samples_of t n)
        (sum_list (samples_of t n)) 0) \<and>
    (\<exists>mem\<le>64 * 1024 * 1024. bench_engine_get_ref_encode ratio t envs =
      expect (summarize ratio ''engine_get_ref_encode'' ''process'' ''engine_get_ref_plus_borrowed_encode'' (samples_of t n)
        (t (3 * n + 2) - t 0) mem))"
  by (intro conjI engine_get_reports [OF assms(1-3)] engine_put_reports [OF assms(1,3)]
      engine_tag_reports [OF assms(1,3-5)] engine_get_ref_reports [OF assms(1-3)])

text \<open>A clock that advances 200 milliseconds from reading to reading lets a loop turn twice.\<close>

definition sample_clock :: "nat \<Rightarrow> duration" where
  "sample_clock k = 200000000 * k"

lemma sample_turns: "turns sample_clock 2" "mono sample_clock" "samples_of sample_clock 2 = [200000000, 200000000]"
  by (auto simp: turns_def sample_clock_def MEASURE_DURATION_def mono_def samples_of_def less_Suc_eq numeral_2_eq_2)

theorem engine_scenarios_report_witness:
  "\<exists>r. bench_engine_tag_invalidate_8 (\<lambda>n d. (n, d)) sample_clock (\<lambda>k. sample_env 5) = finished r \<and>
     br_iterations r = 2 \<and> br_p99_ns r = 200000000 \<and> br_throughput_ops_s r = (2, 400000000) \<and> br_memory_used_bytes r = 0"
proof -
  have "within_a_minute (\<lambda>k. sample_env 5)"
    by (simp add: within_a_minute_def u64_saturating_add_def)
  then have "bench_engine_tag_invalidate_8 (\<lambda>n d. (n, d)) sample_clock (\<lambda>k. sample_env 5) =
      expect (summarize (\<lambda>n d. (n, d)) ''engine_tag_invalidate_8'' ''engine'' ''remove_8_tagged_keys''
        (samples_of sample_clock 2) (sum_list (samples_of sample_clock 2)) 0)"
    using engine_scenarios_report [OF _ _ sample_turns(1,2), of "\<lambda>k. sample_env 5" "\<lambda>n d. (n, d)"]
    by (simp add: sample_clock_def)
  then show ?thesis
    by (simp add: sample_turns(3) summarize_Some)
qed

section \<open>Scenarios on the protocol and the sharded cache\<close>

interpretation penc: steady_operation encode_hit_op "\<lambda>s. True"
  by unfold_locales (simp add: encode_hit_op_def encode_response_payload_view_frame_def encode_frame_into_eq)

definition is_get_frame :: "bytes \<Rightarrow> bool" where
  "is_get_frame frame \<longleftrightarrow> (\<exists>req. decode_request_frame frame usize_max = Inr req \<and> rq_command req = CmdGet)"

interpretation pdec: steady_operation "decode_get_op frame" "\<lambda>s. is_get_frame frame"
  by unfold_locales (auto simp: decode_get_op_def is_get_frame_def)

lemma bench_get_frame:
  "\<exists>frame. encode_request_frame \<lparr>rq_request_id = 1, rq_command = CmdGet,
      rq_payload = native_get_payload (string_bytes ''decode-key'')\<rparr> = Some frame \<and> is_get_frame frame"
proof -
  let ?req = "\<lparr>rq_request_id = 1, rq_command = CmdGet, rq_payload = native_get_payload (string_bytes ''decode-key'')\<rparr>"
  have len: "length (encode_request_payload (rq_payload ?req)) < 100"
    by (simp add: native_get_payload_def)
  then obtain frame where frame: "encode_request_frame ?req = Some frame"
    by (auto simp: encode_request_frame_def encode_frame_into_eq)
  have "request_ok CmdGet (native_get_payload (string_bytes ''decode-key''))"
    by (simp add: native_get_payload_def request_ok_def namespace_ok_def short_def is_valid_namespace_def
        is_ascii_alphanumeric_def ascii_rust_string) (simp add: string_bytes_def)
  then have "decode_request_frame (frame @ []) usize_max = Inr ?req"
    using len by (intro request_round_trip [OF frame]) (simp_all add: usize_max_def)
  then show ?thesis
    using frame by (auto simp: is_get_frame_def)
qed

lemma forget_state: "and_then (and_then r (\<lambda>a. finished (a, s))) (\<lambda>(a, s). finished a) = r"
  by (cases r) (simp_all add: and_then_def finished_def panic_def split: ending.split)

lemma protocol_scenarios_report:
  assumes "turns t n"
  shows "bench_protocol_decode_get ratio t =
      expect (summarize ratio ''protocol_decode_get'' ''process'' ''decode_prebuilt_get_frame'' (samples_of t n)
        (t (3 * n + 2) - t 0) 0)"
    and "bench_protocol_encode_hit ratio t =
      expect (summarize ratio ''protocol_encode_hit'' ''process'' ''encode_borrowed_hit_response'' (samples_of t n)
        (t (3 * n + 2) - t 0) 0)"
proof -
  obtain frame where frame: "encode_request_frame \<lparr>rq_request_id = 1, rq_command = CmdGet,
      rq_payload = native_get_payload (string_bytes ''decode-key'')\<rparr> = Some frame" "is_get_frame frame"
    using bench_get_frame by blast
  show "bench_protocol_decode_get ratio t =
      expect (summarize ratio ''protocol_decode_get'' ''process'' ''decode_prebuilt_get_frame'' (samples_of t n)
        (t (3 * n + 2) - t 0) 0)"
    using pdec.warmup_keeps [OF frame(2), of "()"] pdec.reported [OF frame(2) assms, of ratio]
    by (auto simp: bench_protocol_decode_get_def frame(1) measure_process_sync_def forget_state)
  show "bench_protocol_encode_hit ratio t =
      expect (summarize ratio ''protocol_encode_hit'' ''process'' ''encode_borrowed_hit_response'' (samples_of t n)
        (t (3 * n + 2) - t 0) 0)"
    using penc.warmup_keeps [of "()"] penc.reported [OF TrueI assms, of ratio]
    by (auto simp: bench_protocol_encode_hit_def measure_process_sync_def forget_state)
qed

definition sharded_ready :: "hasher \<Rightarrow> (nat \<Rightarrow> env) \<Rightarrow> bytes \<Rightarrow> sharded_bench \<Rightarrow> bool" where
  "sharded_ready h envs key s \<longleftrightarrow>
     shards (sb_engine s) \<noteq> [] \<and>
     fresh_entry envs key (shards (sb_engine s) ! shard_index_for h ''bench'' key (sb_engine s))"

interpretation sref: steady_operation "encode_sharded_get_ref_response h envs key update_access" "sharded_ready h envs key"
proof
  fix s assume ready: "sharded_ready h envs key s"
  obtain bs where bs: "encode_hit (RefHit (string_bytes ''value'')) = Some bs"
    using encode_hit_value by blast
  let ?i = "shard_index_for h ''bench'' key (sb_engine s)"
  have "?i < length (shards (sb_engine s))" "fresh_entry envs key (shards (sb_engine s) ! ?i)"
    using ready by (simp_all add: sharded_ready_def shard_index_for_def)
  then show "\<exists>s1. Some s \<bind> encode_sharded_get_ref_response h envs key update_access = Some s1 \<and> sharded_ready h envs key s1"
    by (auto simp: encode_sharded_get_ref_response_def sharded_ready_def sharded_get_ref_def with_shard_def Let_def
        sharded_get_ref_without_access_update_def get_ref_def get_ref_without_access_update_def case_prod_beta
        fresh_read bs shard_index_for_def)
qed

lemma sharded_ready_put:
  assumes "env_ok (envs 0)" "within_a_minute envs" "length key \<le> 60"
  shows "\<exists>s1. sharded_bench_put h envs (put_command_of ''bench'' key (string_bytes ''value'')) = Some s1 \<and>
    sharded_ready h envs key s1"
proof -
  let ?cmd = "put_command_of ''bench'' key (string_bytes ''value'')"
  let ?lim = "\<lparr>max_memory_bytes = 4 * 1024 * 1024, max_value_bytes = 8 * 1024 * 1024\<rparr>"
  have inv: "engine_inv (engine_with_limits ?lim)"
    by (rule engine_with_limits_inv) (simp add: usize_max_def)
  have "small_put ?cmd"
    using assms(3) by (subst no_tags, intro small_put_command) simp_all
  moreover have "limits (engine_with_limits ?lim) = ?lim"
    by (simp add: engine_with_limits_def)
  ultimately have "\<exists>ok. fst (engine_put (envs 0) ?cmd (engine_with_limits ?lim)) = Inr ok"
    unfolding put_cases [OF inv assms(1)] by (simp add: small_put_def)
  then obtain ok where ok: "fst (engine_put (envs 0) ?cmd (engine_with_limits ?lim)) = Inr ok"
    by blast
  define shard where "shard = engine_with_limits ?lim"
  have "sharded_with_limits engine_limits_default =
      Some \<lparr>shards = map (\<lambda>_. shard) [0..<16], tag_directory = [], sharded_limits = engine_limits_default\<rparr>"
    by (simp add: sharded_with_limits_def sharded_with_clock_and_limits_def DEFAULT_SHARD_COUNT_def div_ceil_def
        engine_limits_default_def shard_def Let_def)
  moreover have "unat i mod 16 < 16" for i :: u64
    by simp
  ultimately show ?thesis
    using ok stored_is_fresh [OF assms(2) ok inv assms(1)] unfolding shard_def [symmetric]
    by (auto simp: sharded_bench_put_def sharded_put_def with_shard_def case_prod_beta Let_def sharded_ready_def
        shard_index_for_def simp del: upt_rec_numeral)
qed

text \<open>The scenarios on the sharded cache, with and without the update of the access order.\<close>

lemma sharded_scenario_reports:
  assumes "env_ok (envs 0)" "within_a_minute envs" "turns t n" "length key \<le> 60"
  shows "\<exists>mem. sharded_scenario ratio t h envs name label key update_access =
    expect (summarize ratio name ''process'' label (samples_of t n) (t (3 * n + 2) - t 0) mem)"
proof -
  obtain s0 where s0: "sharded_bench_put h envs (put_command_of ''bench'' key (string_bytes ''value'')) = Some s0"
    "sharded_ready h envs key s0"
    using sharded_ready_put [OF assms(1,2,4)] by blast
  obtain s1 where s1: "warmup_sync (encode_sharded_get_ref_response h envs key update_access) s0 = Some s1"
    "sharded_ready h envs key s1"
    using sref.warmup_keeps [OF s0(2)] by blast
  from sref.reported [OF s1(2) assms(3), of ratio name "''process''" label update_access] obtain s2
    where "measure_from ratio name ''process'' label (\<lambda>d. [d]) (encode_sharded_get_ref_response h envs key update_access) t s1 =
      and_then (expect (summarize ratio name ''process'' label (samples_of t n) (t (3 * n + 2) - t 0) 0))
        (\<lambda>r. finished (r, s2))"
    by blast
  then have "sharded_scenario ratio t h envs name label key update_access =
      expect (summarize ratio name ''process'' label (samples_of t n) (t (3 * n + 2) - t 0)
        (sharded_memory_used_bytes (sb_engine s2)))"
    unfolding with_memory_summarize [of "sharded_memory_used_bytes (sb_engine s2)", symmetric]
    using s0(1) s1(1)
    by (cases "summarize ratio name ''process'' label (samples_of t n) (t (3 * n + 2) - t 0) 0")
      (simp_all add: sharded_scenario_def measure_process_sync_def Let_def)
  then show ?thesis
    by blast
qed

end
