(* ===== verification/Bench_Native_Props.thy ===== *)
theory Bench_Native_Props
  imports Bench_Native Bench_Props Sessions
begin

text \<open>
  The scenarios against a native server: a request of the raw client is a call on the server's cache,
  the assertions of the read scenario and of the lease contention hold in every turn, and
  a pipelined round accepts the responses in every order.
\<close>

section \<open>A request of the raw client\<close>

lemma raw_read_response_eq:
  "raw_read_response c =
     (case read_response_frame usize_max (rc_unread c) of
        (Inr resp, later) \<Rightarrow> Some (resp, c\<lparr>rc_unread := later\<rparr>)
      | (Inl err, later) \<Rightarrow> None)"
  by (simp add: raw_read_response_def read_response_frame_def Let_def split: sum.split)

text \<open>The client as it is when no response is outstanding.\<close>

definition idle :: "app_state \<Rightarrow> nat \<Rightarrow> (app_state \<times> nat, 'z) raw_client_scheme \<Rightarrow> bool" where
  "idle st k c \<longleftrightarrow> rc_unread c = [] \<and> rc_peer c = (st, k)"

definition answered :: "app_state \<Rightarrow> (app_state \<times> nat, 'z) raw_client_scheme \<Rightarrow> (app_state \<times> nat, 'z) raw_client_scheme" where
  "answered st c =
     c\<lparr>rc_next_request_id := rc_next_request_id c + 1, rc_unread := [], rc_peer := (st, snd (rc_peer c) + 1)\<rparr>"

lemma answered_idle: "idle st1 (snd (rc_peer c) + 1) (answered st1 c)"
  by (simp add: idle_def answered_def)

text \<open>A request of the raw client is a call on the cache of the server, which stays consistent.\<close>

lemma raw_request_cache:
  assumes "app_inv h V st" "env_ok (envs k)" "V + 100 < 2 ^ 32" "m < 2 ^ 32" "sendable m cmd payload" "idle st k c"
  shows "\<exists>st1. raw_request (native_peer h envs cid m) cmd payload c =
      Some (response_of (fst (sharded_exec h (op_of (envs k) payload) (ap_engine st))), answered st1 c) \<and>
    app_inv h V st1 \<and> ap_engine st1 = snd (sharded_exec h (op_of (envs k) payload) (ap_engine st))"
proof -
  let ?c0 = "\<lparr>next_request_id = rc_next_request_id c, max_payload_len = usize_max\<rparr>"
  define resp where "resp = \<lparr>rs_request_id = rc_next_request_id c, rs_command = cmd,
    rs_payload = response_of (fst (sharded_exec h (op_of (envs k) payload) (ap_engine st)))\<rparr>"
  define st1 where "st1 = server_after h (envs k) cid m cmd payload ?c0 st"
  have room: "room V m ?c0"
    using assms(3,4) by (simp add: room_def usize_max_def)
  note call = session_call [OF assms(1,2) room assms(5), of cid, folded st1_def]
  have send: "request_command payload = cmd" "request_payload_ok payload" "length (encode_request_payload payload) \<le> m"
    and rr: "response_room V payload = 100 + V"
    using assms(5) by (cases payload; auto simp: sendable_def request_ok_def response_room_def)+
  obtain out bs where out: "encode_request_frame \<lparr>rq_request_id = rc_next_request_id c, rq_command = cmd, rq_payload = payload\<rparr> = Some out"
    and bs: "server_socket h (envs k) cid m st out = bs" "encode_response_frame resp = Some bs"
      "response_ok (rs_command resp) (rs_payload resp)"
      "length (encode_response_payload (rs_payload resp)) \<le> response_room V payload"
    using server_replies [OF assms(1-3) send(2,3) assms(4), of "rc_next_request_id c" cid] assms(3)
    unfolding rr send(1) resp_def by auto
  have peer: "native_peer h envs cid m out (st, k) = (bs, st1, k + 1)"
    using bs(1) out by (simp add: native_peer_def server_socket_def st1_def server_after_def case_prod_beta)
  have "read_response_frame usize_max (bs @ []) = (Inr resp, [])"
    using bs(4) assms(3) unfolding rr by (intro read_response_encoded [OF bs(2,3)]) (simp add: usize_max_def)
  then have "raw_request (native_peer h envs cid m) cmd payload c = Some (rs_payload resp, answered st1 c)"
    using assms(6) out peer
    by (simp add: raw_request_def send_request_def raw_read_response_eq idle_def answered_def resp_def Let_def)
  then show ?thesis
    using call(2,3) by (auto simp: resp_def)
qed

section \<open>Scenarios on the server\<close>

text \<open>A consistent server whose cache holds the entry of a scenario, fresh for the whole run.\<close>

definition holds_fresh :: "hasher \<Rightarrow> (nat \<Rightarrow> env) \<Rightarrow> bytes \<Rightarrow> sharded_engine \<Rightarrow> bool" where
  "holds_fresh h envs key s \<longleftrightarrow> fresh_entry envs key (shards s ! shard_of h s (EntryId ''bench'' key))"

definition server_ready :: "hasher \<Rightarrow> (nat \<Rightarrow> env) \<Rightarrow> usize \<Rightarrow> usize \<Rightarrow> (app_state \<times> nat, 'z) raw_client_scheme \<Rightarrow> bool" where
  "server_ready h envs V m c \<longleftrightarrow>
     app_inv h V (fst (rc_peer c)) \<and> rc_unread c = [] \<and> (\<forall>k. env_ok (envs k)) \<and>
     V + 100 < 2 ^ 32 \<and> 1024 \<le> m \<and> m < 2 ^ 32"

definition hit_ready ::
  "hasher \<Rightarrow> (nat \<Rightarrow> env) \<Rightarrow> usize \<Rightarrow> usize \<Rightarrow> bytes \<Rightarrow> (app_state \<times> nat, 'z) raw_client_scheme \<Rightarrow> bool" where
  "hit_ready h envs V m key c \<longleftrightarrow>
     server_ready h envs V m c \<and> holds_fresh h envs key (ap_engine (fst (rc_peer c))) \<and> length key \<le> 60"

lemma bench_namespace: "namespace_ok ''bench''" "rust_string ''bench''"
  by (simp_all add: namespace_ok_def short_def is_valid_namespace_def is_ascii_alphanumeric_def ascii_rust_string
      string_bytes_def)

lemma bench_sendable:
  assumes "1024 \<le> m" "length key \<le> 60"
  shows "sendable m CmdGet (native_get_payload key)"
    and "sendable m CmdPut (native_put_payload key metadata_default (string_bytes ''value''))"
    and "sendable m CmdLeaseStart lease_request"
  using assms bench_namespace
  by (simp_all add: sendable_def request_ok_def native_get_payload_def native_put_payload_def lease_request_def
      short_def metadata_ok_def metadata_default_def write_metadata_def)

lemma server_call:
  assumes "server_ready h envs V m c" "sendable m cmd payload"
  shows "\<exists>st1. raw_request (native_peer h envs cid m) cmd payload c =
      Some (response_of (fst (sharded_exec h (op_of (envs (snd (rc_peer c))) payload) (ap_engine (fst (rc_peer c))))),
        answered st1 c) \<and>
    server_ready h envs V m (answered st1 c) \<and>
    ap_engine st1 = snd (sharded_exec h (op_of (envs (snd (rc_peer c))) payload) (ap_engine (fst (rc_peer c))))"
  using raw_request_cache [of h V "fst (rc_peer c)" envs "snd (rc_peer c)" m cmd payload c cid] assms
  by (auto simp: server_ready_def idle_def answered_def)

lemma app_shards: "app_inv h V st \<Longrightarrow> shards (ap_engine st) \<noteq> []"
  by (auto simp: app_inv_def sharded_inv_upto_def)

lemma hit_keeps:
  assumes "hit_ready h envs V m key c"
  shows "\<exists>c1. assert_hit (native_peer h envs cid m) key c = Some c1 \<and> hit_ready h envs V m key c1 \<and>
    rc_transport c1 = rc_transport c"
proof -
  let ?st = "fst (rc_peer c)" and ?env = "envs (snd (rc_peer c))" and ?eid = "EntryId ''bench'' key"
  have ready: "server_ready h envs V m c" and key: "length key \<le> 60"
    and fresh: "holds_fresh h envs key (ap_engine ?st)"
    using assms by (simp_all add: hit_ready_def)
  from ready have "1024 \<le> m" and ne: "shards (ap_engine ?st) \<noteq> []"
    by (auto simp: server_ready_def app_shards)
  obtain st1 where st1: "raw_request (native_peer h envs cid m) CmdGet (native_get_payload key) c =
      Some (response_of (fst (sharded_exec h (OpGet ?env ''bench'' key) (ap_engine ?st))), answered st1 c)"
    "server_ready h envs V m (answered st1 c)"
    "ap_engine st1 = snd (sharded_exec h (OpGet ?env ''bench'' key) (ap_engine ?st))"
    using server_call [OF ready bench_sendable(1) [OF \<open>1024 \<le> m\<close> key], of cid] by (auto simp: native_get_payload_def)
  note shard = keyed_shard [where op = "OpGet ?env ''bench'' key" and eid = ?eid and h = h, OF _ ne, simplified]
  let ?e = "shards (ap_engine ?st) ! shard_of h (ap_engine ?st) ?eid"
  have hit: "fst (engine_get ?env ''bench'' key ?e) = OutHit (string_bytes ''value'')"
    and later: "fresh_entry envs key (snd (engine_get ?env ''bench'' key ?e))"
    using fresh by (simp_all add: engine_get_def get_ref_def fresh_read holds_fresh_def)
  have "holds_fresh h envs key (ap_engine st1)"
    using shard(2,3) later by (simp add: holds_fresh_def st1(3) engine_step_def case_prod_beta)
  then show ?thesis
    using st1(1,2) hit shard(1) key
    by (simp add: assert_hit_def assert_response_def hit_ready_def answered_def case_prod_beta)
qed

interpretation nhit: steady_operation "assert_hit (native_peer h envs cid m) key"
  "\<lambda>c. hit_ready h envs V m key c \<and> rc_transport c = transport"
  using hit_keeps by unfold_locales fastforce

text \<open>Room for one more small entry beside those of its shard.\<close>

definition roomy :: "hasher \<Rightarrow> bytes \<Rightarrow> sharded_engine \<Rightarrow> bool" where
  "roomy h key s \<longleftrightarrow>
     (let e = shards s ! shard_of h s (EntryId ''bench'' key)
      in memory_used_bytes e + 300 \<le> max_memory_bytes (limits e) \<and> 100 \<le> max_value_bytes (limits e))"

lemma remove_entry_memory: "memory_used_bytes (snd (remove_entry eid e)) \<le> memory_used_bytes e"
  by (simp add: remove_entry_def split: option.split)

lemma roomy_put:
  assumes "engine_inv e" "env_ok env" "memory_used_bytes e + 300 \<le> max_memory_bytes (limits e)"
    and "100 \<le> max_value_bytes (limits e)" "small_put cmd"
  shows "fst (engine_put env cmd e) = Inr \<lparr>po_evicted = 0\<rparr>"
proof -
  have "memory_used_bytes (snd (remove_entry (put_id cmd) e)) + put_bytes cmd \<le> max_memory_bytes (limits e)"
    using assms(3,5) remove_entry_memory [of "put_id cmd" e] by (simp add: small_put_def)
  then show ?thesis
    using assms(3-5) by (simp add: put_cases [OF assms(1,2)] put_prepare_room small_put_def)
qed

lemma stored_hit:
  assumes "server_ready h envs V m c" "roomy h key (ap_engine (fst (rc_peer c)))" "length key \<le> 60"
  shows "\<exists>c1. assert_stored (native_peer h envs cid m) key metadata_default c = Some c1 \<and> hit_ready h envs V m key c1 \<and>
    rc_transport c1 = rc_transport c"
proof -
  let ?st = "fst (rc_peer c)" and ?env = "envs (snd (rc_peer c))" and ?eid = "EntryId ''bench'' key"
  let ?cmd = "native_put_command ''bench'' key metadata_default (string_bytes ''value'')"
  from assms(1) have m: "1024 \<le> m" and ne: "shards (ap_engine ?st) \<noteq> []" and ok: "env_ok ?env"
    by (auto simp: server_ready_def app_shards)
  obtain st1 where st1: "raw_request (native_peer h envs cid m) CmdPut (native_put_payload key metadata_default (string_bytes ''value'')) c =
      Some (response_of (fst (sharded_exec h (OpPut ?env ?cmd) (ap_engine ?st))), answered st1 c)"
    "server_ready h envs V m (answered st1 c)"
    "ap_engine st1 = snd (sharded_exec h (OpPut ?env ?cmd) (ap_engine ?st))"
    using server_call [OF assms(1) bench_sendable(2) [OF m assms(3)], of cid] by (auto simp: native_put_payload_def)
  have id: "put_id ?cmd = ?eid"
    by (simp add: put_id_def native_put_command_def)
  have "op_key (OpPut ?env ?cmd) = Some ?eid"
    by (simp add: id)
  note shard = keyed_shard [OF this ne, of h]
  let ?e = "shards (ap_engine ?st) ! shard_of h (ap_engine ?st) ?eid"
  have inv: "engine_inv ?e"
    using assms(1) shard_of_less [OF ne, of h ?eid] by (auto simp: server_ready_def app_inv_def sharded_inv_upto_def)
  have "small_put ?cmd"
    using assms(3) by (simp add: small_put_def put_bytes_def put_id_def estimate_entry_memory_def native_put_command_def
        metadata_default_def ENTRY_OVERHEAD_BYTES_def usize_saturating_add_def)
  then have put: "fst (engine_put ?env ?cmd ?e) = Inr \<lparr>po_evicted = 0\<rparr>"
    using assms(2) by (intro roomy_put [OF inv ok]) (simp_all add: roomy_def Let_def)
  then obtain access where "map_of (entries (snd (engine_put ?env ?cmd ?e))) ?eid =
      Some (stored_entry (clk ?env 0) (put_bytes ?cmd) ?cmd access)"
    using put_accepted_entry [OF inv ok put] by (auto simp: id)
  then have "fresh_entry envs key (snd (engine_put ?env ?cmd ?e))"
    by (simp add: fresh_entry_def stored_entry_def entry_state_at_def expires_at_of_def native_put_command_def
        metadata_default_def)
  then have "holds_fresh h envs key (ap_engine st1)"
    using shard(2,3) by (simp add: holds_fresh_def st1(3) engine_step_def case_prod_beta)
  then show ?thesis
    using st1(1,2) put shard(1) assms(3)
    by (simp add: assert_stored_def assert_response_def hit_ready_def answered_def case_prod_beta u32_clamp_def)
qed

text \<open>A running lease for the contended key, in every environment of the run.\<close>

abbreviation contended :: entry_id where
  "contended \<equiv> EntryId ''bench'' (string_bytes ''native-contention'')"

definition lease_ready ::
  "hasher \<Rightarrow> (nat \<Rightarrow> env) \<Rightarrow> usize \<Rightarrow> usize \<Rightarrow> string \<Rightarrow> (app_state \<times> nat, 'z) raw_client_scheme \<Rightarrow> bool" where
  "lease_ready h envs V m transport c \<longleftrightarrow>
     server_ready h envs V m c \<and> rc_transport c = transport \<and>
     (\<exists>l. awaiting contended l (shards (ap_engine (fst (rc_peer c))) ! shard_of h (ap_engine (fst (rc_peer c))) contended) \<and>
        (\<forall>k. clk (envs k) 2 \<le> le_expires_at_ms l))"

lemma lease_call:
  assumes "server_ready h envs V m c"
  shows "\<exists>st1. raw_request (native_peer h envs cid m) CmdLeaseStart lease_request c =
      Some (response_of (ResLease (fst (engine_start_lease (envs (snd (rc_peer c))) ''bench'' (string_bytes ''native-contention'') 60000
        (shards (ap_engine (fst (rc_peer c))) ! shard_of h (ap_engine (fst (rc_peer c))) contended)))), answered st1 c) \<and>
    server_ready h envs V m (answered st1 c) \<and>
    shards (ap_engine st1) ! shard_of h (ap_engine st1) contended =
      snd (engine_start_lease (envs (snd (rc_peer c))) ''bench'' (string_bytes ''native-contention'') 60000
        (shards (ap_engine (fst (rc_peer c))) ! shard_of h (ap_engine (fst (rc_peer c))) contended))"
proof -
  let ?st = "fst (rc_peer c)"
  let ?op = "OpStartLease (envs (snd (rc_peer c))) ''bench'' (string_bytes ''native-contention'') 60000"
  from assms have m: "1024 \<le> m" and ne: "shards (ap_engine ?st) \<noteq> []"
    by (auto simp: server_ready_def app_shards)
  have "op_key ?op = Some contended"
    by simp
  note shard = keyed_shard [OF this ne, of h]
  have "op_of env lease_request = OpStartLease env ''bench'' (string_bytes ''native-contention'') 60000" for env
    by (simp add: lease_request_def)
  then show ?thesis
    using server_call [OF assms bench_sendable(3) [OF m, of "[]"], of cid] shard
    by (auto simp: engine_step_def case_prod_beta)
qed

interpretation nlease: steady_operation "assert_lease_denied (native_peer h envs cid m)" "lease_ready h envs V m transport"
proof
  fix c :: "(app_state \<times> nat, 'z) raw_client_scheme"
  assume ready: "lease_ready h envs V m transport c"
  then obtain l where l: "awaiting contended l (shards (ap_engine (fst (rc_peer c))) ! shard_of h (ap_engine (fst (rc_peer c))) contended)"
    "\<forall>k. clk (envs k) 2 \<le> le_expires_at_ms l"
    by (auto simp: lease_ready_def)
  have "server_ready h envs V m c"
    using ready by (simp add: lease_ready_def)
  from lease_call [OF this, of cid] obtain st1 where
    "raw_request (native_peer h envs cid m) CmdLeaseStart lease_request c = Some (RespLeaseDenied, answered st1 c)"
    "server_ready h envs V m (answered st1 c)"
    "awaiting contended l (shards (ap_engine st1) ! shard_of h (ap_engine st1) contended)"
    using awaiting_start_lease_same [OF l(1)] l by auto
  then show "\<exists>s1. Some c \<bind> assert_lease_denied (native_peer h envs cid m) = Some s1 \<and> lease_ready h envs V m transport s1"
    using ready l(2) by (auto simp: assert_lease_denied_def assert_response_def lease_ready_def answered_def)
qed

text \<open>The contended key has neither entry nor lease, and the run stays within the lease.\<close>

definition unleased :: "hasher \<Rightarrow> (nat \<Rightarrow> env) \<Rightarrow> (app_state \<times> nat, 'z) raw_client_scheme \<Rightarrow> bool" where
  "unleased h envs c \<longleftrightarrow>
     (let e = shards (ap_engine (fst (rc_peer c))) ! shard_of h (ap_engine (fst (rc_peer c))) contended
      in map_of (entries e) contended = None \<and> map_of (leases e) contended = None) \<and>
     (\<forall>k. clk (envs k) 2 \<le> u64_saturating_add (clk (envs (snd (rc_peer c))) 3) 60000)"

lemma lease_granted:
  assumes "server_ready h envs V m c" "unleased h envs c"
  shows "\<exists>c1. assert_response (native_peer h envs cid m) CmdLeaseStart lease_request is_lease_granted c = Some c1 \<and>
    lease_ready h envs V m (rc_transport c) c1"
proof -
  let ?e = "shards (ap_engine (fst (rc_peer c))) ! shard_of h (ap_engine (fst (rc_peer c))) contended"
  let ?env = "envs (snd (rc_peer c))"
  define l where "l = \<lparr>le_token = ''lease-'' @ show_nat (unat (next_access ?e)), le_expires_at_ms = u64_saturating_add (clk ?env 3) 60000\<rparr>"
  have "fst (engine_start_lease ?env ''bench'' (string_bytes ''native-contention'') 60000 ?e) = SlLeaseGranted (le_token l) None"
    "awaiting contended l (snd (engine_start_lease ?env ''bench'' (string_bytes ''native-contention'') 60000 ?e))"
    using assms(2)
    by (simp_all add: unleased_def Let_def engine_start_lease_def engine_entry_state_def start_lease_for_missing_def
        active_lease_def create_lease_def awaiting_def l_def alist)
  moreover have "\<forall>k. clk (envs k) 2 \<le> le_expires_at_ms l"
    using assms(2) by (simp add: unleased_def l_def)
  ultimately show ?thesis
    using lease_call [OF assms(1), of cid]
    by (auto simp: assert_response_def is_lease_granted_def lease_ready_def answered_def)
qed

lemma steady_scenario:
  assumes "steady_operation body ready" "start (s\<lparr>nb_index := 0\<rparr>) = Some s0" "ready s0" "turns t n"
    and "\<And>s. ready s \<Longrightarrow> rc_transport s = transport"
  shows "\<exists>s1. run_scenario start body (measure_native_async ratio name label body t) s =
    and_then (expect (summarize ratio name transport label (samples_of t n) (t (3 * n + 2) - t 0) 0)) (\<lambda>r. finished (r, s1))"
proof -
  obtain s1 where s1: "warmup_sync body s0 = Some s1" "ready s1"
    using steady_operation.warmup_keeps [OF assms(1,3)] by blast
  then show ?thesis
    using steady_operation.reported [OF assms(1) s1(2) assms(4), of ratio name transport label] assms(2,5)
    by (auto simp: run_scenario_def measure_native_async_def)
qed

text \<open>C34. The scenarios of cached reads and of lease contention hold what they assert, through the raw client,
  both codecs and the sharded cache: on a consistent server with room for one entry every read of
  the measured second hits, and where the contended key is free, the first lease is granted and every later one
  denied while it runs. Each reports one sample per turn, and panics only for want of a sample.\<close>

theorem native_scenarios_report:
  assumes "server_ready h envs V m s" "turns t n"
    and "roomy h (string_bytes ''get-key'') (ap_engine (fst (rc_peer s)))" "unleased h envs s"
  shows "(\<exists>s1. bench_native_single_key_get ratio t (native_peer h envs cid m) s =
      and_then (expect (summarize ratio ''single_key_get'' (rc_transport s) ''cached_hit'' (samples_of t n)
        (t (3 * n + 2) - t 0) 0)) (\<lambda>r. finished (r, s1))) \<and>
    (\<exists>s1. bench_native_lease_contention ratio t (native_peer h envs cid m) s =
      and_then (expect (summarize ratio ''lease_contention'' (rc_transport s) ''same_missing_key'' (samples_of t n)
        (t (3 * n + 2) - t 0) 0)) (\<lambda>r. finished (r, s1)))"
proof
  let ?s = "s\<lparr>nb_index := 0\<rparr>"
  have ready: "server_ready h envs V m ?s" "unleased h envs ?s"
    and room: "roomy h (string_bytes ''get-key'') (ap_engine (fst (rc_peer ?s)))"
    using assms by (simp_all add: server_ready_def unleased_def)
  obtain s0 where s0: "assert_stored (native_peer h envs cid m) (string_bytes ''get-key'') metadata_default ?s = Some s0"
    "hit_ready h envs V m (string_bytes ''get-key'') s0 \<and> rc_transport s0 = rc_transport s"
    using stored_hit [OF ready(1) room, of cid] by auto
  show "\<exists>s1. bench_native_single_key_get ratio t (native_peer h envs cid m) s =
      and_then (expect (summarize ratio ''single_key_get'' (rc_transport s) ''cached_hit'' (samples_of t n)
        (t (3 * n + 2) - t 0) 0)) (\<lambda>r. finished (r, s1))"
    unfolding bench_native_single_key_get_def
    by (rule steady_scenario, rule nhit.steady_operation_axioms, rule s0(1), rule s0(2), rule assms(2), simp)
  obtain s0 where s0: "assert_response (native_peer h envs cid m) CmdLeaseStart lease_request is_lease_granted ?s = Some s0"
    "lease_ready h envs V m (rc_transport s) s0"
    using lease_granted [OF ready, of cid] by auto
  show "\<exists>s1. bench_native_lease_contention ratio t (native_peer h envs cid m) s =
      and_then (expect (summarize ratio ''lease_contention'' (rc_transport s) ''same_missing_key'' (samples_of t n)
        (t (3 * n + 2) - t 0) 0)) (\<lambda>r. finished (r, s1))"
    unfolding bench_native_lease_contention_def
    by (rule steady_scenario, rule nlease.steady_operation_axioms, rule s0(1), rule s0(2), rule assms(2))
      (simp add: lease_ready_def)
qed

definition sample_native_bench :: "(app_state \<times> nat) native_bench" where
  "sample_native_bench =
     \<lparr>rc_transport = ''loopback_tcp'', rc_next_request_id = 1, rc_unread = [], rc_peer = (roomy_app, 0), nb_index = 0,
      nb_tag = []\<rparr>"

theorem native_scenarios_report_witness:
  "\<exists>r s1. bench_native_single_key_get (\<lambda>n d. (n, d)) sample_clock (native_peer sample_hasher (\<lambda>k. sample_env 5) 1 1024)
      sample_native_bench = finished (r, s1) \<and> br_iterations r = 2 \<and> br_transport r = ''loopback_tcp''"
proof -
  have "server_ready sample_hasher (\<lambda>k. sample_env 5) 100 1024 sample_native_bench"
    by (simp add: server_ready_def sample_native_bench_def roomy_inv)
  moreover have "roomy sample_hasher (string_bytes ''get-key'') (ap_engine (fst (rc_peer sample_native_bench)))"
    by (simp add: roomy_def sample_native_bench_def roomy_shard engine_with_limits_def sample_limits_def)
  moreover have "unleased sample_hasher (\<lambda>k. sample_env 5) sample_native_bench"
    by (simp add: unleased_def sample_native_bench_def roomy_shard engine_with_limits_def u64_saturating_add_def)
  ultimately have "\<exists>s1. bench_native_single_key_get (\<lambda>n d. (n, d)) sample_clock (native_peer sample_hasher (\<lambda>k. sample_env 5) 1 1024)
      sample_native_bench =
      and_then (expect (summarize (\<lambda>n d. (n, d)) ''single_key_get'' (rc_transport sample_native_bench) ''cached_hit''
        (samples_of sample_clock 2) (sample_clock (3 * 2 + 2) - sample_clock 0) 0)) (\<lambda>r. finished (r, s1))"
    using native_scenarios_report [OF _ sample_turns(1), of sample_hasher "\<lambda>k. sample_env 5" 100 1024 sample_native_bench
        "\<lambda>n d. (n, d)" 1] by blast
  then show ?thesis
    by (auto simp: sample_turns(3) summarize_Some sample_native_bench_def)
qed

section \<open>Concurrent readers\<close>

text \<open>The readers that have connected are idle between their turns, and none has panicked.\<close>

definition readers_ready ::
  "hasher \<Rightarrow> (nat \<Rightarrow> env) \<Rightarrow> usize \<Rightarrow> usize \<Rightarrow> bytes \<Rightarrow> (app_state \<times> nat) \<times> (app_state \<times> nat) worker list \<Rightarrow> bool" where
  "readers_ready h envs V m key x \<longleftrightarrow>
     hit_ready h envs V m key (raw_connect [] (fst x)) \<and>
     (\<forall>k \<in> set (snd x). wk_status k \<noteq> Panicked \<and> (wk_status k = Measuring \<longrightarrow> rc_unread (wk_client k) = []))"

lemma hit_ready_shared:
  "rc_unread c = [] \<Longrightarrow> hit_ready h envs V m key c \<longleftrightarrow> hit_ready h envs V m key (raw_connect transport (rc_peer c))"
  by (simp add: hit_ready_def server_ready_def raw_connect_def)

lemma hit_ready_unread: "hit_ready h envs V m key c \<Longrightarrow> rc_unread c = []"
  by (simp add: hit_ready_def server_ready_def)

lemma raw_connect_fields [simp]: "rc_peer (raw_connect transport w) = w" "rc_unread (raw_connect transport w) = []"
  by (simp_all add: raw_connect_def)

lemma readers_server: "readers_ready h envs V m key (w, ws) \<Longrightarrow> hit_ready h envs V m key (raw_connect [] w)"
  by (simp add: readers_ready_def)

lemma readers_update:
  assumes "readers_ready h envs V m key (w, ws)" "hit_ready h envs V m key (raw_connect [] w1)"
    and "wk_status k \<noteq> Panicked" "wk_status k = Measuring \<longrightarrow> rc_unread (wk_client k) = []"
  shows "readers_ready h envs V m key (w1, ws[i := k])"
  using assms set_update_subset_insert [of ws i k] by (auto simp: readers_ready_def)

lemma reader_turn:
  assumes "readers_ready h envs V m key (w, ws)" "i < length ws" "wk_status (ws ! i) = Measuring"
  shows "\<exists>c. assert_hit (native_peer h envs cid m) key ((wk_client (ws ! i))\<lparr>rc_peer := w\<rparr>) = Some c \<and> rc_unread c = [] \<and>
    hit_ready h envs V m key (raw_connect [] (rc_peer c))"
proof -
  have unread: "rc_unread ((wk_client (ws ! i))\<lparr>rc_peer := w\<rparr>) = []"
    and "hit_ready h envs V m key (raw_connect [] (rc_peer ((wk_client (ws ! i))\<lparr>rc_peer := w\<rparr>)))"
    using assms nth_mem [OF assms(2)] by (auto simp: readers_ready_def)
  then have "hit_ready h envs V m key ((wk_client (ws ! i))\<lparr>rc_peer := w\<rparr>)"
    using hit_ready_shared [OF unread] by blast
  from hit_keeps [OF this, of cid] obtain c where
    "assert_hit (native_peer h envs cid m) key ((wk_client (ws ! i))\<lparr>rc_peer := w\<rparr>) = Some c" "hit_ready h envs V m key c"
    by blast
  then show ?thesis
    using hit_ready_unread hit_ready_shared by blast
qed

lemma readers_step:
  assumes "worker_step (\<lambda>w. Some (raw_connect transport w)) (\<lambda>i index. assert_hit (native_peer h envs cid m) key) deadline x y"
    and "readers_ready h envs V m key x"
  shows "readers_ready h envs V m key y"
  using assms
proof (cases rule: worker_step.cases)
  case (connects i ws w c)
  then show ?thesis
    using assms(2) by (auto intro!: readers_update dest: readers_server)
next
  case (measures i ws now began ended w c)
  then show ?thesis
    using assms(2) reader_turn [of h envs V m key w ws i cid] by (auto intro!: readers_update)
next
  case (work_panics i ws now w)
  then show ?thesis
    using assms(2) reader_turn [of h envs V m key w ws i cid] by auto
next
  case (finishes i ws now w)
  then show ?thesis
    using assms(2) by (auto intro!: readers_update dest: readers_server)
qed auto

text \<open>However the tasks of the concurrent scenario interleave, no reader panics, so that the scenario reports as soon as
  all of them are joined.\<close>

lemma concurrent_readers_never_panic:
  assumes "(worker_step (\<lambda>w. Some (raw_connect transport w)) (get_work (native_peer h envs cid m)) deadline)\<^sup>*\<^sup>*
      (w, replicate CONCURRENT_CLIENTS (worker_spawn w)) (w1, ws)"
    and "hit_ready h envs V m (string_bytes ''concurrent-get-key'') (raw_connect [] w)"
  shows "summarize_joined_samples ratio name transport label elapsed ws =
    (if all_joined ws then expect (summarize ratio name transport label (concat (map wk_samples ws)) elapsed 0) else None)"
proof -
  have "readers_ready h envs V m (string_bytes ''concurrent-get-key'') (w, replicate CONCURRENT_CLIENTS (worker_spawn w))"
    using assms(2) by (auto simp: readers_ready_def worker_spawn_def)
  with assms(1) have "readers_ready h envs V m (string_bytes ''concurrent-get-key'') (w1, ws)"
    unfolding get_work_def by (induction rule: rtranclp_induct) (blast intro: readers_step)+
  then have "\<not> list_ex (\<lambda>k. wk_status k = Panicked) ws"
    by (auto simp: readers_ready_def list_ex_iff)
  then show ?thesis
    by (simp add: summarize_joined_samples_def)
qed

section \<open>Pipelined rounds\<close>

lemma position_Some: "position x xs = Some i \<Longrightarrow> i < length xs \<and> xs ! i = x"
  by (induction xs arbitrary: i) (auto split: if_splits)

lemma position_nth: "distinct xs \<Longrightarrow> i < length xs \<Longrightarrow> position (xs ! i) xs = Some i"
proof (induction xs arbitrary: i)
  case (Cons y ys)
  then show ?case
    by (cases i) (auto simp: nth_eq_iff_index_eq)
qed simp

fun tick_all :: "u64 list \<Rightarrow> response_frame list \<Rightarrow> bool list \<Rightarrow> bool list option" where
  "tick_all ids [] seen = Some seen"
| "tick_all ids (resp # resps) seen = tick_off ids resp seen \<bind> tick_all ids resps"

definition get_hit :: "response_frame \<Rightarrow> bool" where
  "get_hit resp \<longleftrightarrow> rs_command resp = CmdGet \<and> rs_payload resp = RespHit (string_bytes ''value'')"

text \<open>The responses that a round accepts: hits for requests not yet answered, each of them once.\<close>

lemma tick_all_iff:
  assumes "distinct ids" "length seen = length ids"
  shows "tick_all ids resps seen = Some seen1 \<longleftrightarrow>
    list_all get_hit resps \<and> distinct (map rs_request_id resps) \<and>
    (\<forall>r \<in> rs_request_id ` set resps. \<exists>i < length ids. ids ! i = r \<and> \<not> seen ! i) \<and>
    seen1 = map (\<lambda>i. seen ! i \<or> ids ! i \<in> rs_request_id ` set resps) [0..<length ids]"
  using assms(2)
proof (induction resps arbitrary: seen)
  case Nil
  then have "map (\<lambda>i. seen ! i) [0..<length ids] = seen"
    using map_nth [of seen] by simp
  then show ?case
    by auto
next
  case (Cons resp resps)
  show ?case
  proof (cases "\<exists>i < length ids. ids ! i = rs_request_id resp \<and> \<not> seen ! i \<and> get_hit resp")
    case True
    then obtain i where i: "i < length ids" "ids ! i = rs_request_id resp" "\<not> seen ! i" "get_hit resp"
      by blast
    have "position (rs_request_id resp) ids = Some i"
      using position_nth [OF assms(1) i(1)] i(2) by simp
    then have off: "tick_off ids resp seen = Some (seen[i := True])"
      using i(3,4) by (simp add: tick_off_def get_hit_def)
    have other: "seen[i := True] ! j \<longleftrightarrow> seen ! j \<or> ids ! j = rs_request_id resp" if "j < length ids" for j
      using that i(1,2) Cons.prems nth_eq_iff_index_eq [OF assms(1) that i(1)] by (auto simp: nth_list_update)
    define unseen where "unseen r \<longleftrightarrow> (\<exists>j < length ids. ids ! j = r \<and> \<not> seen ! j)" for r
    have left: "(\<exists>j < length ids. ids ! j = r \<and> \<not> seen[i := True] ! j) \<longleftrightarrow> r \<noteq> rs_request_id resp \<and> unseen r" for r
      using other unfolding unseen_def by blast
    have marks: "map (\<lambda>j. seen[i := True] ! j \<or> ids ! j \<in> rs_request_id ` set resps) [0..<length ids] =
        map (\<lambda>j. seen ! j \<or> ids ! j \<in> rs_request_id ` set (resp # resps)) [0..<length ids]"
      using other by auto
    have "unseen (rs_request_id resp)"
      using i unfolding unseen_def by blast
    then show ?thesis
      using Cons.IH [of "seen[i := True]", unfolded left marks] Cons.prems i(4) unfolding tick_all.simps off unseen_def [symmetric]
      by (simp del: map_eq_conv set_simps) (force intro: rev_image_eqI)
  next
    case False
    then have "tick_off ids resp seen = None"
      using position_Some [of "rs_request_id resp" ids]
      by (auto simp: tick_off_def get_hit_def split: Option.bind_splits)
    then show ?thesis
      using False by simp blast
  qed
qed

text \<open>Reading the frames of a list of responses ticks them off one by one.\<close>

lemma read_pipelined_frames:
  assumes "list_all2 (\<lambda>resp frame. encode_response_frame resp = Some frame \<and> response_ok (rs_command resp) (rs_payload resp))
      resps frames"
  shows "read_pipelined ids (length resps) seen (c\<lparr>rc_unread := concat frames @ later\<rparr>) =
    map_option (\<lambda>seen1. (seen1, c\<lparr>rc_unread := later\<rparr>)) (tick_all ids resps seen)"
  using assms
proof (induction arbitrary: seen rule: list_all2_induct)
  case (Cons resp resps frame frames)
  have "length (encode_response_payload (rs_payload resp)) \<le> usize_max"
    using Cons(1) by (auto simp: encode_response_frame_def encode_frame_into_eq usize_max_def split: if_splits)
  then have "read_response_frame usize_max (frame @ concat frames @ later) = (Inr resp, concat frames @ later)"
    using Cons(1) by (intro read_response_encoded) auto
  then show ?case
    using Cons(3) by (simp add: raw_read_response_eq split: Option.bind_splits)
qed simp

text \<open>A round accepts the responses exactly when they are the hits of its requests in some order.\<close>

lemma pipelined_round_iff_permutation:
  assumes "distinct ids" "length resps = length ids"
  shows "(\<exists>seen. tick_all ids resps (replicate (length ids) False) = Some seen \<and> list_all (\<lambda>b. b) seen) \<longleftrightarrow>
    list_all get_hit resps \<and> mset (map rs_request_id resps) = mset ids"
proof -
  let ?rids = "map rs_request_id resps"
  have free: "(\<exists>i < length ids. ids ! i = r \<and> \<not> replicate (length ids) False ! i) \<longleftrightarrow> r \<in> set ids" for r
    by (auto simp: in_set_conv_nth)
  have marks: "map (\<lambda>i. replicate (length ids) False ! i \<or> ids ! i \<in> rs_request_id ` set resps) [0..<length ids] =
      map (\<lambda>x. x \<in> set ?rids) ids"
    by (rule nth_equalityI) simp_all
  have "list_all (\<lambda>b. b) (map (\<lambda>x. x \<in> set ?rids) ids) \<longleftrightarrow> set ids \<subseteq> set ?rids"
    by (auto simp: list_all_iff)
  then have "(\<exists>seen. tick_all ids resps (replicate (length ids) False) = Some seen \<and> list_all (\<lambda>b. b) seen) \<longleftrightarrow>
      list_all get_hit resps \<and> distinct ?rids \<and> set ?rids \<subseteq> set ids \<and> set ids \<subseteq> set ?rids"
    unfolding tick_all_iff [OF assms(1) length_replicate] free marks by auto
  also have "\<dots> \<longleftrightarrow> list_all get_hit resps \<and> mset ?rids = mset ids"
    using assms(1) set_eq_iff_mset_eq_distinct [of ?rids ids] mset_eq_imp_distinct_iff [of ?rids ids]
    by (metis mset_eq_setD subset_antisym subset_refl)
  finally show ?thesis .
qed

section \<open>Connecting\<close>

text \<open>Connecting ends with a connection or a panic as soon as five seconds have passed, and it panics only then.\<close>

lemma connect_ends:
  assumes "t 0 + 5000000000 \<le> t (k + 1)"
  shows "connect transport accepts t w \<in> {finished (raw_connect transport w), panic}"
proof -
  have "connect_loop accepts t (t 0 + 5000000000) j \<in> insert panic (range finished)" if "j \<le> k" for j
    using that
  proof (induction "k - j" arbitrary: j)
    case 0
    then show ?case
      using assms by (subst connect_loop.simps) auto
  next
    case (Suc d)
    then show ?case
      by (subst connect_loop.simps) auto
  qed
  from this [of 0] show ?thesis
    by (auto simp: connect_def)
qed

lemma connects_when_accepted:
  assumes "accepts k" "\<forall>j. 0 < j \<and> j \<le> k \<longrightarrow> t j < t 0 + 5000000000"
  shows "connect transport accepts t w = finished (raw_connect transport w)"
proof -
  have "connect_loop accepts t (t 0 + 5000000000) j \<in> range finished" if "j \<le> k" for j
    using that
  proof (induction "k - j" arbitrary: j)
    case 0
    then show ?case
      using assms(1) by (subst connect_loop.simps) simp
  next
    case (Suc d)
    then show ?case
      using assms(2) by (subst connect_loop.simps) auto
  qed
  from this [of 0] show ?thesis
    by (auto simp: connect_def)
qed

end
