(* ===== verification/Py_Keys.thy ===== *)
theory Py_Keys
  imports Py_Protocol Ai_Keys
begin

text \<open>
  The key builders of the Python package (clients/python/python/cachebox/keys.py): the normalisation
  of Python values, the JSON text of a normal form, labels, and the keys of function calls, templates and
  custom values. A finite floating point number is a value of a type that the definitions leave
  open, printed by a function \<open>fr\<close> for its \<open>repr\<close>. The errors are \<open>KeyBuildError\<close>, the \<open>UnicodeEncodeError\<close>
  of a template or a custom text that has no UTF-8 encoding, and the \<open>ValueError\<close> of a version that is too long to print.
\<close>

section \<open>Values\<close>

text \<open>The Python values that reach a key builder; \<open>PvBuffer\<close> are \<open>bytearray\<close> and \<open>memoryview\<close>,
  \<open>PvNonFinite\<close> the infinities and NaN with their \<open>repr\<close>, \<open>PvObject\<close> everything else. A dict is the
  list of its items in insertion order.\<close>

datatype 'x py_value =
  PvNone
| PvBool bool
| PvInt int
| PvFloat 'x
| PvNonFinite string
| PvStr string
| PvBytes bytes
| PvBuffer bytes
| PvTuple "'x py_value list"
| PvList "'x py_value list"
| PvDict "('x py_value \<times> 'x py_value) list"
| PvObject

datatype 'x py_number = NumInt int | NumFloat 'x

section \<open>Text\<close>

definition show_int :: "int \<Rightarrow> string" where
  "show_int i = (if i < 0 then CHR ''-'' # show_nat (nat (- i)) else show_nat (nat i))"

fun py_number_text :: "('x \<Rightarrow> string) \<Rightarrow> 'x py_number \<Rightarrow> string" where
  "py_number_text fr (NumInt i) = show_int i"
| "py_number_text fr (NumFloat x) = fr x"

definition hex_char :: "nat \<Rightarrow> char" where
  "hex_char n = (if n < 10 then char_of (48 + n) else char_of (87 + n))"

text \<open>The escapes of a JSON string literal that is not restricted to ASCII.\<close>

definition py_escape :: "char \<Rightarrow> string" where
  "py_escape c =
     (if c = CHR 0x22 then [CHR 0x5C, CHR 0x22]
      else if c = CHR 0x5C then [CHR 0x5C, CHR 0x5C]
      else if c = CHR 0x0A then [CHR 0x5C, CHR ''n'']
      else if c = CHR 0x0D then [CHR 0x5C, CHR ''r'']
      else if c = CHR 0x09 then [CHR 0x5C, CHR ''t'']
      else if c = CHR 0x08 then [CHR 0x5C, CHR ''b'']
      else if c = CHR 0x0C then [CHR 0x5C, CHR ''f'']
      else if (of_char c :: nat) < 32
      then [CHR 0x5C, CHR ''u'', CHR ''0'', CHR ''0'', hex_char (of_char c div 16), hex_char (of_char c mod 16)]
      else [c])"

definition py_quote :: "string \<Rightarrow> string" where
  "py_quote s = CHR 0x22 # concat (map py_escape s) @ [CHR 0x22]"

text \<open>Python refuses to print an integer of more than 4300 digits, its default limit.\<close>

definition printable_int :: "int \<Rightarrow> bool" where
  "printable_int i \<longleftrightarrow> length (show_nat (nat \<bar>i\<bar>)) \<le> 4300"

fun printable_number :: "'x py_number \<Rightarrow> bool" where
  "printable_number (NumInt i) = printable_int i"
| "printable_number (NumFloat x) = True"

fun json_numbers :: "'n json \<Rightarrow> 'n list" where
  "json_numbers (JNumber n) = [n]"
| "json_numbers (JArray vs) = concat (map json_numbers vs)"
| "json_numbers (JObject fs) = concat (map (\<lambda>(key, v). json_numbers v) fs)"
| "json_numbers v = []"

text \<open>\<open>json.dumps\<close> without spaces and with sorted keys, and its encoding.\<close>

definition py_json_bytes :: "('x \<Rightarrow> string) \<Rightarrow> 'x py_number json \<Rightarrow> bytes py_result" where
  "py_json_bytes fr v =
     (let text = canonical_json (py_number_text fr) py_quote v
      in if list_all printable_number (json_numbers v) \<and> utf8_valid (string_bytes text) then Inr (string_bytes text)
         else Inl PyKeyBuildError)"

definition base64_alphabet :: string where
  "base64_alphabet = ''ABCDEFGHIJKLMNOPQRSTUVWXYZabcdefghijklmnopqrstuvwxyz0123456789+/''"

abbreviation sextet :: "nat \<Rightarrow> char" where
  "sextet n \<equiv> base64_alphabet ! n"

fun b64encode :: "bytes \<Rightarrow> string" where
  "b64encode [] = []"
| "b64encode [a] = [sextet (unat a div 4), sextet (unat a mod 4 * 16), CHR ''='', CHR ''='']"
| "b64encode [a, b] =
     [sextet (unat a div 4), sextet (unat a mod 4 * 16 + unat b div 16), sextet (unat b mod 16 * 4), CHR ''='']"
| "b64encode (a # b # c # bs) =
     sextet (unat a div 4) # sextet (unat a mod 4 * 16 + unat b div 16) # sextet (unat b mod 16 * 4 + unat c div 64) #
       sextet (unat c mod 64) # b64encode bs"

section \<open>Normalisation\<close>

text \<open>The items of a dict must have text keys.\<close>

fun py_dict_key :: "'x py_value \<Rightarrow> string py_result" where
  "py_dict_key (PvStr s) = Inr s"
| "py_dict_key v = Inl PyKeyBuildError"

fun py_sequence :: "'a py_result list \<Rightarrow> 'a list py_result" where
  "py_sequence [] = Inr []"
| "py_sequence (r # rs) = rbind r (\<lambda>a. rbind (py_sequence rs) (\<lambda>as. Inr (a # as)))"

text \<open>A number that is not finite fails when the normal form is printed, with the same exception.\<close>

function py_normalize_for_key :: "'x py_value \<Rightarrow> 'x py_number json py_result" where
  "py_normalize_for_key PvNone = Inr JNull"
| "py_normalize_for_key (PvBool b) = Inr (JBool b)"
| "py_normalize_for_key (PvInt i) = Inr (JNumber (NumInt i))"
| "py_normalize_for_key (PvFloat x) = Inr (JNumber (NumFloat x))"
| "py_normalize_for_key (PvNonFinite r) = Inl PyKeyBuildError"
| "py_normalize_for_key (PvStr s) = Inr (JString s)"
| "py_normalize_for_key (PvBytes bs) =
     Inr (JObject [(''__cachebox_type__'', JString ''bytes''), (''base64'', JString (b64encode bs))])"
| "py_normalize_for_key (PvBuffer bs) =
     Inr (JObject [(''__cachebox_type__'', JString ''bytes''), (''base64'', JString (b64encode bs))])"
| "py_normalize_for_key (PvTuple vs) =
     rbind (py_sequence (map py_normalize_for_key vs)) (\<lambda>items.
       Inr (JObject [(''__cachebox_type__'', JString ''tuple''), (''items'', JArray items)]))"
| "py_normalize_for_key (PvList vs) = rbind (py_sequence (map py_normalize_for_key vs)) (\<lambda>items. Inr (JArray items))"
| "py_normalize_for_key (PvDict kvs) =
     rbind (py_sequence (map (\<lambda>(k, v). rbind (py_dict_key k) (\<lambda>s. rbind (py_normalize_for_key v) (\<lambda>n. Inr (s, n)))) kvs))
       (\<lambda>items. Inr (JArray (map (\<lambda>(s, n). JArray [JString s, n]) (sort_key fst items))))"
| "py_normalize_for_key PvObject = Inl PyKeyBuildError"
  by pat_completeness auto

termination
  by (relation "measure size")
    (auto simp: less_Suc_eq_le intro!: size_list_estimation' [where f = "size_prod size size"] size_list_estimation')

section \<open>Keys\<close>

definition py_safe_label :: "string \<Rightarrow> bytes py_result" where
  "py_safe_label s =
     (if s = [] then Inl PyKeyBuildError
      else if \<not> list_all (\<lambda>c. (of_char c :: nat) < 128) s then Inl PyKeyBuildError
      else if CHR '':'' \<in> set s then Inl PyKeyBuildError
      else Inr (string_bytes s))"

text \<open>A version is a text or a number; a number is printed.\<close>

datatype py_version = VersionStr string | VersionInt int

fun py_version_str :: "py_version \<Rightarrow> string" where
  "py_version_str (VersionStr s) = s"
| "py_version_str (VersionInt i) = show_int i"

fun py_version_printable :: "py_version option \<Rightarrow> bool" where
  "py_version_printable (Some (VersionInt i)) = printable_int i"
| "py_version_printable version = True"

definition py_label_part :: "string option \<Rightarrow> bytes py_result" where
  "py_label_part label =
     (case label of None \<Rightarrow> Inr [] | Some s \<Rightarrow> rbind (py_safe_label s) (\<lambda>bs. Inr (bs @ string_bytes '':'')))"

definition py_join_key_parts :: "string option \<Rightarrow> py_version option \<Rightarrow> bytes \<Rightarrow> bytes py_result" where
  "py_join_key_parts prefix version key =
     rbind (py_label_part prefix) (\<lambda>p.
       if \<not> py_version_printable version then Inl PyValueError
       else rbind (py_label_part (map_option py_version_str version)) (\<lambda>v. Inr (p @ v @ key)))"

definition py_build_custom_key ::
  "('x \<Rightarrow> string) \<Rightarrow> string option \<Rightarrow> py_version option \<Rightarrow> 'x py_value \<Rightarrow> bytes py_result" where
  "py_build_custom_key fr prefix version v =
     rbind (case v of
              PvBytes bs \<Rightarrow> Inr bs
            | PvStr s \<Rightarrow> py_utf8_encode s
            | _ \<Rightarrow> rbind (py_normalize_for_key v) (py_json_bytes fr))
       (py_join_key_parts prefix version)"

text \<open>The parameters of a function, in the order of its signature: those that may be given by position only, by position
  or by name, \<open>*args\<close>, those that may be given by name only, and \<open>**kwargs\<close>.\<close>

datatype py_kind = PositionalOnly | PositionalOrKeyword | VarPositional | KeywordOnly | VarKeyword

record 'x py_param =
  pp_name :: string
  pp_kind :: py_kind
  pp_default :: "'x py_value option"

text \<open>\<open>Signature.bind\<close> followed by \<open>apply_defaults\<close>: the arguments in the order of the signature, or the \<open>TypeError\<close> of a
  call that does not fit. An argument by name that no parameter takes goes to \<open>**kwargs\<close>; this includes the
  name of a parameter that is given by position only (before Python 3.13 a call is refused when such a parameter
  is left to its default).\<close>

definition py_bind_named ::
  "'x py_param \<Rightarrow> (string \<times> 'x py_value) list \<Rightarrow> ('x py_value \<times> (string \<times> 'x py_value) list) option" where
  "py_bind_named p kwargs =
     (case map_of kwargs (pp_name p) of
        Some v \<Rightarrow> Some (v, AList.delete (pp_name p) kwargs)
      | None \<Rightarrow> map_option (\<lambda>v. (v, kwargs)) (pp_default p))"

fun py_bind_arguments ::
  "'x py_param list \<Rightarrow> 'x py_value list \<Rightarrow> (string \<times> 'x py_value) list \<Rightarrow> (string \<times> 'x py_value) list option" where
  "py_bind_arguments [] args kwargs = (if args = [] \<and> kwargs = [] then Some [] else None)"
| "py_bind_arguments (p # ps) args kwargs =
     (case pp_kind p of
        PositionalOnly \<Rightarrow>
          (case (args, pp_default p) of
             (v # vs, _) \<Rightarrow> map_option ((#) (pp_name p, v)) (py_bind_arguments ps vs kwargs)
           | ([], Some v) \<Rightarrow> map_option ((#) (pp_name p, v)) (py_bind_arguments ps [] kwargs)
           | ([], None) \<Rightarrow> None)
      | PositionalOrKeyword \<Rightarrow>
          (case args of
             v # vs \<Rightarrow>
               if pp_name p \<in> fst ` set kwargs then None
               else map_option ((#) (pp_name p, v)) (py_bind_arguments ps vs kwargs)
           | [] \<Rightarrow>
               (case py_bind_named p kwargs of
                  None \<Rightarrow> None
                | Some (v, left) \<Rightarrow> map_option ((#) (pp_name p, v)) (py_bind_arguments ps [] left)))
      | VarPositional \<Rightarrow> map_option ((#) (pp_name p, PvTuple args)) (py_bind_arguments ps [] kwargs)
      | KeywordOnly \<Rightarrow>
          (case py_bind_named p kwargs of
             None \<Rightarrow> None
           | Some (v, left) \<Rightarrow> map_option ((#) (pp_name p, v)) (py_bind_arguments ps args left))
      | VarKeyword \<Rightarrow>
          map_option ((#) (pp_name p, PvDict (map (\<lambda>(name, v). (PvStr name, v)) kwargs)))
            (py_bind_arguments ps args []))"

record 'x py_function =
  fn_module :: string
  fn_qualname :: string
  fn_params :: "'x py_param list"

definition py_function_name :: "'x py_function \<Rightarrow> string" where
  "py_function_name f = fn_module f @ ''.'' @ fn_qualname f"

definition py_argument_payload :: "string \<times> 'x py_value \<Rightarrow> 'x py_number json py_result" where
  "py_argument_payload arg =
     rbind (py_normalize_for_key (snd arg)) (\<lambda>n. Inr (JArray [JString (fst arg), n]))"

definition py_function_payload :: "string \<Rightarrow> (string \<times> 'x py_value) list \<Rightarrow> 'x py_number json py_result" where
  "py_function_payload name arguments =
     rbind (py_sequence (map py_argument_payload arguments)) (\<lambda>items.
       Inr (JObject [(''function'', JString name), (''arguments'', JArray items)]))"

text \<open>\<open>key_func\<close> is given the arguments as they were passed.\<close>

definition py_build_function_key ::
  "('x \<Rightarrow> string) \<Rightarrow> string option \<Rightarrow> py_version option \<Rightarrow>
     ('x py_value list \<Rightarrow> (string \<times> 'x py_value) list \<Rightarrow> 'x py_value py_result) option \<Rightarrow>
     'x py_function \<Rightarrow> 'x py_value list \<Rightarrow> (string \<times> 'x py_value) list \<Rightarrow> bytes py_result" where
  "py_build_function_key fr prefix version key_func f args kwargs =
     (case key_func of
        Some kf \<Rightarrow> rbind (kf args kwargs) (py_build_custom_key fr prefix version)
      | None \<Rightarrow>
          (case py_bind_arguments (fn_params f) args kwargs of
             None \<Rightarrow> Inl PyKeyBuildError
           | Some bound \<Rightarrow>
               rbind (py_function_payload (py_function_name f) bound) (\<lambda>payload.
               rbind (py_json_bytes fr payload) (py_join_key_parts prefix version))))"

section \<open>Templates\<close>

definition py_stringify_template_value :: "('x \<Rightarrow> string) \<Rightarrow> 'x py_value \<Rightarrow> string py_result" where
  "py_stringify_template_value fr v =
     (case v of
        PvStr s \<Rightarrow> Inr s
      | PvBool b \<Rightarrow> Inr (if b then ''true'' else ''false'')
      | PvNone \<Rightarrow> Inr ''null''
      | PvInt i \<Rightarrow> if printable_int i then Inr (show_int i) else Inl PyKeyBuildError
      | PvFloat x \<Rightarrow> Inr (fr x)
      | PvNonFinite r \<Rightarrow> Inr r
      | _ \<Rightarrow> rbind (py_normalize_for_key v) (\<lambda>n. rbind (py_json_bytes fr n) (\<lambda>bs. Inr (bytes_string bs))))"

text \<open>\<open>str.format\<close> is a function \<open>render\<close> from the template and the named texts, \<open>None\<close> its \<open>KeyError\<close>,
  \<open>IndexError\<close> or \<open>ValueError\<close>.\<close>

definition py_build_template_key ::
  "(string \<Rightarrow> (string \<times> string) list \<Rightarrow> string option) \<Rightarrow> ('x \<Rightarrow> string) \<Rightarrow> string option \<Rightarrow> py_version option \<Rightarrow>
     string \<Rightarrow> (string \<times> 'x py_value) list \<Rightarrow> bytes py_result" where
  "py_build_template_key render fr prefix version template args =
     rbind (py_sequence (map (\<lambda>(name, v). rbind (py_stringify_template_value fr v) (\<lambda>s. Inr (name, s))) args)) (\<lambda>texts.
       case render template texts of
         None \<Rightarrow> Inl PyKeyBuildError
       | Some rendered \<Rightarrow> rbind (py_utf8_encode rendered) (py_join_key_parts prefix version))"

text \<open>The options of a cached value as metadata; an option that is absent stays absent.\<close>

definition py_make_metadata ::
  "int option \<Rightarrow> int option \<Rightarrow> string list \<Rightarrow> int option \<Rightarrow> string option \<Rightarrow> py_metadata" where
  "py_make_metadata ttl_ms stale_ttl_ms tags cost content_type =
     \<lparr>py_md_ttl = map_option PyTtl ttl_ms, py_md_stale_ttl = map_option PyTtl stale_ttl_ms, py_md_cost = cost,
      py_md_tags = tags,
      py_md_content_type =
        (case content_type of
           None \<Rightarrow> OctetStream
         | Some t \<Rightarrow> if t \<noteq> [] \<and> t \<noteq> ''application/octet-stream'' then OtherContent else OctetStream)\<rparr>"

end
