(* ===== verification/Py_Keys_Props.thy ===== *)
theory Py_Keys_Props
  imports Py_Keys Ai_Props
begin

text \<open>
  What the keys of the Python package distinguish: the text of a normal form determines it, a normal
  form determines the value up to one identification, and labels cannot be confused with the key.
\<close>

section \<open>Text\<close>















section \<open>Base 64\<close>

lemma sextets_distinct: "distinct base64_alphabet" "length base64_alphabet = 64" "CHR ''='' \<notin> set base64_alphabet"
  by code_simp+

lemma sextet_inj: "m < 64 \<Longrightarrow> n < 64 \<Longrightarrow> sextet m = sextet n \<longleftrightarrow> m = n"
  using nth_eq_iff_index_eq [OF sextets_distinct(1)] by (simp add: sextets_distinct(2))

lemma sextet_not_pad: "n < 64 \<Longrightarrow> sextet n \<noteq> CHR ''=''"
  using sextets_distinct nth_mem [of n base64_alphabet] by metis

text \<open>The bytes can be read off the sextets.\<close>

lemma byte_bounds:
  fixes a b :: u8
  shows "unat a div 4 < 64" "unat a mod 4 * 16 + unat b div 16 < 64" "unat a mod 16 * 4 + unat b div 64 < 64"
    "unat a mod 64 < 64" "unat a mod 4 * 16 < 64" "unat a mod 16 * 4 < 64" "unat b div 16 < 16" "unat b div 64 < 4"
proof -
  have "unat a < 256" "unat b < 256"
    using unsigned_less [of a] unsigned_less [of b] by simp_all
  then show div: "unat a div 4 < 64" "unat b div 16 < 16" "unat b div 64 < 4"
    by (simp_all add: less_mult_imp_div_less)
  moreover have "unat a mod 4 < 4" "unat a mod 16 < 16"
    by simp_all
  ultimately show "unat a mod 4 * 16 + unat b div 16 < 64" "unat a mod 16 * 4 + unat b div 64 < 64"
    "unat a mod 4 * 16 < 64" "unat a mod 16 * 4 < 64"
    by linarith+
qed simp




lemma pad_eqs [simp]:
  "n < 64 \<Longrightarrow> (sextet n = CHR ''='') = False" "n < 64 \<Longrightarrow> (CHR ''='' = sextet n) = False"
  using sextet_not_pad [of n] by auto

lemma byte_multiple:
  fixes a a' :: u8
  assumes "sextet (unat a mod 4 * 16) = sextet (unat a' mod 4 * 16)"
  shows "unat a mod 4 = unat a' mod 4"
  using assms by (simp add: sextet_inj byte_bounds)


section \<open>Normal forms\<close>



















section \<open>What a key determines\<close>













section \<open>The key of a call\<close>










end
