(* ===== verification/Spec2Isabelle.thy ===== *)
theory Spec2Isabelle
  imports Sharded_Races System Engine_Evict Server_Errors Server_Metrics Py_Client_Props Startup Bench_Native_Props Py_Keys_Props
begin

text \<open>
  A verification of cachebox: a cache server with TTLs, stale reads, tags and leases, its wire
  protocol, and its clients. File names below are relative to src/.

  \<^bold>\<open>The program and its parts.\<close>

  \<^item> The engine (src/engine.rs) keeps the entries of one shard in a hash map, with an index from tags
    to entries, an index from removal times to entries, leases, and running totals of memory and
    cost. A write that does not fit reclaims what has expired and then evicts entries that were
    not used recently. The sharded engine puts sixteen engines behind locks, sends a key to the
    shard its hash names, and keeps a directory from tags to the shards that may hold them.

  \<^item> The native protocol (crates/cachebox-protocol/src/lib.rs) frames seven commands: a header of 24
    bytes with the length of the payload, and big-endian fields.

  \<^item> The server (src/server.rs) accepts connections on TCP and Unix sockets, cuts their bytes into
    frames, executes the frames on the sharded engine, one after the other or up to 128 at once, and
    writes the responses in batches. A worker reclaims expired entries, and two routes answer
    health checks and metrics. The configuration (src/config.rs, src/main.rs) comes from the
    command line.

  \<^item> The Rust client (clients/rust/cachebox-client/src/lib.rs) sends requests one at a time or
    pipelined; its helpers for AI workloads (ai.rs) derive keys from prompts and capture generated
    streams. The Python package (clients/python/python/cachebox) is a second implementation of the
    protocol with a synchronous and an asynchronous client, and key builders for cached functions.

  \<^item> The benchmark program (src/bin/cachebox-bench.rs) runs scenarios on an engine, on the codec and
    on native connections, each for a fixed time, and reports rates and percentiles.

  \<^bold>\<open>The model.\<close> A Rust struct is a record, an enum a datatype, a function that changes state returns the
  new state, an error is the left side of a sum, a panic is \<open>None\<close>. Words keep their width and
  wrap; \<open>usize\<close> is a natural number whose bound and saturation are written out. A string is the list of
  its UTF-8 bytes. A hash map is an association list; what depends on the order in which a map is
  iterated, and every reading of the clock, is taken from the environment \<open>env\<close> of a call, about
  which \<open>env_ok\<close> says that an iteration visits each element once. Python's integers are unbounded.

  \<^item> \<open>Prelude\<close>: integers, the error monad, association lists, and the locales \<open>multi_index\<close>
    (the map of sets behind both tag indexes), \<open>invariant_machine\<close> (a step function that keeps an
    invariant) and \<open>simulation\<close> (a functional refinement of an abstract specification).

  \<^item> \<open>Engine\<close>: the record \<open>engine\<close> and every operation of \<open>Engine\<close>. \<open>Engine_Inv\<close>: the type
    invariant \<open>engine_inv\<close> (exact memory accounting, exact indexes, well-formed times, fresh
    tokens) and its preservation. \<open>Engine_Props\<close>, \<open>Engine_Evict\<close>, \<open>Engine_Leases\<close>,
    \<open>Engine_Expiry\<close>: what the operations do, that eviction stops and evicts no more than needed,
    single flight of leases, the budget of reclaiming.

  \<^item> \<open>Cache_Spec\<close>: the abstract cache, a map with time windows that may forget but never
    contradict, and the refinement of it by the engine. \<open>Sharded\<close>, \<open>Sharded_Props\<close>: the
    sharded engine, its invariant (entries in their shard, routes cover the tags) and the same
    refinement. \<open>Sharded_Races\<close>: the two critical sections of a call as separate steps.

  \<^item> \<open>Protocol_Types\<close>, \<open>Wire\<close>, \<open>Protocol\<close>: fields, payloads and frames; every field is an
    interpretation of the locale \<open>codec\<close>. \<open>Protocol_Props\<close>: round trips, well-typed results of
    the decoders, and agreement of the borrowed decoder.

  \<^item> \<open>Server\<close>: metrics, handlers, admin routes, framing, batching, each handler executed to its end.
    \<open>Server_Messages\<close>, \<open>Server_Props\<close>, \<open>Server_Errors\<close>, \<open>Server_Metrics\<close>: the
    responses to bytes that do not decode, refinement of the abstract cache on the wire, error
    paths, exact counters. \<open>Server_Threads\<close>: the same handlers as threads, one step for each lock that the
    code takes and for each counter; run alone, a thread does what the handler of \<open>Server\<close> does
    (\<open>alone_frame\<close>), and each of its steps keeps the invariant that races leave (\<open>keeps_frame\<close>).

  \<^item> \<open>Connection\<close>, \<open>Connection_Props\<close>: one connection as the step relation
    \<open>conn_act\<close>, for every interleaving of its reader, tasks and writer. \<open>System\<close>: all connections,
    listeners and background work on one state (\<open>sys_step\<close>), interleaved between the steps of their threads.

  \<^item> \<open>Socket_Addr\<close>, \<open>Config\<close>, \<open>Config_Props\<close>, \<open>Startup\<close>: addresses, the command line,
    start-up and shutdown against the answers of the operating system.

  \<^item> \<open>Client\<close>, \<open>Client_Props\<close>, \<open>Ai_Keys\<close>, \<open>Ai_Props\<close>: the Rust client and the AI helpers.
    \<open>Sessions\<close>: sequences of calls of clients on one server.

  \<^item> \<open>Py_Protocol\<close>, \<open>Py_Protocol_Props\<close>: the Python codec and its agreement with the Rust one,
    reader by reader. \<open>Py_Client\<close>, \<open>Py_Client_Props\<close>: the Python clients on a socket that
    delivers chunks and can fail. \<open>Py_Keys\<close>, \<open>Py_Keys_Props\<close>: the key builders of keys.py, and which
    calls share a key.

  \<^item> \<open>Bench\<close>, \<open>Bench_Native\<close>: the scenarios of the benchmark on the models of engine, codec and
    client, with the readings of the clock and the peer of a connection as parameters, and its worker tasks as
    the step relation \<open>worker_step\<close>. \<open>Bench_Props\<close>, \<open>Bench_Native_Props\<close>: the locales \<open>steady\<close> and
    \<open>steady_operation\<close> (an operation that keeps a state in which it does not panic), interpreted for the
    scenarios on the engine and the codec and for cached reads and lease contention on a connection, what these
    scenarios report, and exact percentiles.

  \<^bold>\<open>What is shown.\<close> Two kinds of runs are told apart. When the server executes calls one after the other, for any
  bytes, its whole state stays consistent, tag routes included, and every response is one that the
  abstract cache allows, an error response for bytes that do not decode, or silence for bytes without the magic
  number; a client reads its own write for as long as its metadata promise unless the entry was removed in between, and a
  generated value completes only the lease it was generated under. When the critical sections of any number of
  connections, admin requests and the worker interleave, from an accepted command line on, every shard stays consistent
  and within the configured limits and every frame that was taken is answered once and whole; that all tags are
  routed, and that responses are those of an abstract cache, is not shown of these runs, and the former does not
  hold. Where the code does not do what its
  documentation or its other half does, a theorem states what it does instead: the race that
  loses a tag route, the batch whose response cannot be encoded, the client that a time-out puts
  out of step.

  \<^bold>\<open>Bounds.\<close> Loops that the code bounds by its data are total functions. The eviction loop and the
  draining of a socket have termination proofs. The two loops of the benchmark that only the clock
  ends are partial functions whose value is \<open>None\<close> when they do not end, and lemmas show
  that they end when the clock passes the measuring time and the deadline of connecting. No definition uses fuel. Hypotheses of the
  form \<open>V + 100 < 2 ^ 32\<close> ask that a response with a value of the configured maximum fits a frame; the
  case where it does not is the theorem on repeated batch keys. \<open>max_memory_bytes < usize_max\<close> keeps
  the saturating accounting exact.

  \<^bold>\<open>Parameters.\<close> The hash function of the standard library, the clock, iteration orders, the
  answers of the operating system, the sizes of the chunks a socket delivers, and the printing of
  numbers and string literals in serde_json; in the Python key builders, the printing of floating point
  numbers and \<open>str.format\<close>.

  \<^bold>\<open>Not modelled.\<close> The HTTP framing of the admin routes and the scheduler of the runtime (axum, tokio):
  the admin routes are functions of path and method, and the scheduler is any interleaving of steps. Failures of
  a server's socket end a connection and have no further effect. Allocation never fails, also where the decoder
  reserves a list for a count that the frame announces. A panic while a lock is held would poison the lock for all
  later calls, and the model only loses the request; it needs a value too long for the response that the fast path
  of a get encodes under the lock, and the longer frame of a put cannot carry such a value. The numbers 0.0 and -0.0 of JSON count as different. The texts of Python exceptions, a limit on the digits of integers other than the
  default, and the treatment of names of positional-only parameters before Python 3.13. Display texts of errors.
  Of the benchmark: starting the runtime and its servers, and the floating point quotients of a report. Of the Python package:
  opening connections, the pools, the decorators of cache.py and the serialisers of serde.py.
  Test code, the release script and documentation.
\<close>

text \<open>Reading through the owned \<open>get\<close> and through a borrowed view without an access update
  gives the same outcome.\<close>

lemma get_without_access_update_same_outcome:
  "fst (engine_get env ns key e) =
   outcome_of_ref (fst (get_ref_without_access_update env ns key (\<lambda>r. r) e))"
  by (auto simp: engine_get_def get_ref_def get_ref_without_access_update_def get_ref_inner_def
      Let_def split: option.split entry_state.split)

section \<open>From the command line to the cache\<close>

lemma accepted_config_usable: "from_args args = Some (Inr c) \<Longrightarrow> config_usable c"
  using from_args_loop_usable [OF default_config_usable] by (simp add: from_args_eq)

lemma configured_limits:
  "app_from_config c = Some st \<Longrightarrow>
   map limits (shards (ap_engine st)) =
     replicate 16 \<lparr>max_memory_bytes = div_ceil (cf_max_memory_bytes c) 16, max_value_bytes = cf_max_value_bytes c\<rparr>"
  using run_limits [of _ 16 "ap_engine st" "ap_engine st" _ "[]"]
  by (auto simp: app_from_config_def DEFAULT_SHARD_COUNT_def dest!: app_from_limits_shards)

lemma config_starts: "\<exists>st. app_from_config c = Some st"
  by (simp add: app_from_config_def app_from_limits_def sharded_with_limits_def sharded_with_clock_and_limits_def
      DEFAULT_SHARD_COUNT_def Let_def)

lemma value_within_limit:
  "engine_inv e \<Longrightarrow> (eid, en) \<in> set (entries e) \<Longrightarrow> length (en_value en) \<le> max_value_bytes (limits e)"
  by (metis engine_inv_upto_def entry_ok_def map_of_is_SomeI memory_inv_def)

text \<open>C3. Whatever clients do, a server started from an accepted command line stays within its
  configuration, when the configured memory leaves sixteen bytes of the 64 bit range: the configuration is usable, the
  state is built without a panic, and after every run of listeners, connections, background reclaiming and admin
  requests, with their critical sections interleaved in any way, every shard is consistent, every entry is in the shard
  of its key, the memory over all shards is below the configured limit plus the number of shards, and no stored
  value is longer than the configured value limit. That every tag is routed is not claimed.\<close>

theorem configured_server_stays_within_limits:
  assumes "from_args args = Some (Inr c)" "cf_max_memory_bytes c + 16 \<le> 2 ^ 64"
  shows "config_usable c \<and> (\<exists>st. app_from_config c = Some st \<and>
    (\<forall>h evs s. sys_runs h (cf_max_body_bytes c) (cf_cleanup_interval_ms c) (cf_cleanup_max_entries_per_tick c)
         (system_new st) evs s \<longrightarrow>
       shards_consistent h (ap_engine (sy_app s)) \<and>
       sharded_memory_used_bytes (ap_engine (sy_app s)) < cf_max_memory_bytes c + 16 \<and>
       (\<forall>e \<in> set (shards (ap_engine (sy_app s))). \<forall>(eid, en) \<in> set (entries e).
          length (en_value en) \<le> cf_max_value_bytes c)))"
proof -
  obtain st where st: "app_from_config c = Some st"
    using config_starts by blast
  have "shards_consistent h (ap_engine (sy_app s)) \<and>
      sharded_memory_used_bytes (ap_engine (sy_app s)) < cf_max_memory_bytes c + 16 \<and>
      (\<forall>e \<in> set (shards (ap_engine (sy_app s))). \<forall>(eid, en) \<in> set (entries e).
         length (en_value en) \<le> cf_max_value_bytes c)"
    if run: "sys_runs h m interval budget (system_new st) evs s" for h m interval budget evs s
  proof -
    have node: "node_inv h (map limits (shards (ap_engine st))) (sy_app s)"
      using sys_runs_node_inv [OF st [unfolded app_from_config_def] _ run] assms(2) by (simp add: usize_max_def)
    then have lim: "map limits (shards (ap_engine (sy_app s))) = map limits (shards (ap_engine st))"
      and inv: "sharded_inv_upto UNIV h (ap_engine (sy_app s))"
      by (simp_all add: node_inv_def race_inv_iff)
    have "sum_list (map memory_used_bytes (shards (ap_engine (sy_app s)))) < cf_max_memory_bytes c + 16"
      by (rule shards_memory_bound [OF inv]) (simp_all add: lim configured_limits [OF st])
    moreover have "limits e = \<lparr>max_memory_bytes = div_ceil (cf_max_memory_bytes c) 16,
        max_value_bytes = cf_max_value_bytes c\<rparr>" if "e \<in> set (shards (ap_engine (sy_app s)))" for e
      using that lim configured_limits [OF st] by (metis image_eqI in_set_replicate list.set_map)
    ultimately show ?thesis
      using inv assms(2) node_inv_consistent [OF node]
      by (auto simp: sharded_memory_used_bytes_def sharded_inv_upto_def dest!: value_within_limit bspec)
  qed
  then show ?thesis
    using st accepted_config_usable [OF assms(1)] by blast
qed

theorem configured_server_stays_within_limits_witness:
  "\<exists>st. app_from_config default_config = Some st \<and>
     sharded_memory_used_bytes (ap_engine st) < 64 * 1024 * 1024 + 16"
proof -
  have c: "from_args [] = Some (Inr default_config)" "cf_max_memory_bytes default_config = 64 * 1024 * 1024"
    by (simp_all add: from_args_eq default_config_def)
  obtain st where st: "app_from_config default_config = Some st"
    and run: "\<forall>h evs s. sys_runs h (cf_max_body_bytes default_config) (cf_cleanup_interval_ms default_config)
      (cf_cleanup_max_entries_per_tick default_config) (system_new st) evs s \<longrightarrow>
      sharded_memory_used_bytes (ap_engine (sy_app s)) < cf_max_memory_bytes default_config + 16"
    using configured_server_stays_within_limits [OF c(1)] by (auto simp: c(2))
  have "sharded_memory_used_bytes (ap_engine (sy_app (system_new st))) < cf_max_memory_bytes default_config + 16"
    using run sys_refl by blast
  then show ?thesis
    using st by (simp add: system_new_def c(2))
qed

end
